(* ===== verification/Hsm_Prelude.thy ===== *)
theory Hsm_Prelude
  imports Main "HOL-Library.Word" "HOL-Library.AList"
begin

text \<open>
  Shared vocabulary of the development: Rust's machine integers, \<open>Result\<close>, \<open>Duration\<close> and
  \<open>Instant\<close>, the process environment with the standard integer parser, decimal
  formatting, byte strings, and the locales for transition systems and memoised lookups
  that several components instantiate.
\<close>

section \<open>Machine types\<close>

text \<open>
  The crate is built in release mode without overflow checks, so integer addition wraps;
  \<open>usize\<close> is 64 bits wide on the targets the repository supports.
\<close>

type_synonym u8 = "8 word"
type_synonym u32 = "32 word"
type_synonym u64 = "64 word"
type_synonym usize = "64 word"
type_synonym i32 = "32 word"
type_synonym bytes = "u8 list"

lemma unat_u64_bound: "unat (w :: u64) < 2 ^ 64"
  using unsigned_less [where 'a = nat, of w] by simp

lemma unat_u32_bound: "unat (w :: u32) < 2 ^ 32"
  using unsigned_less [where 'a = nat, of w] by simp

lemma unat_u64_add:
  fixes a b :: u64
  assumes "unat a + unat b < 2 ^ 64"
  shows "unat (a + b) = unat a + unat b"
  using assms by (simp add: unat_word_ariths)

text \<open>
  \<open>std::time\<close>: an \<open>Instant\<close> and a \<open>Duration\<close> are counted in nanoseconds. The
  truncated subtraction of \<^typ>\<open>nat\<close> is what \<open>Instant::elapsed\<close> computes: it saturates
  to zero when the reading is earlier than the stored instant.
\<close>

type_synonym instant = nat
type_synonym duration = nat

definition from_secs :: "u64 \<Rightarrow> duration" where
  "from_secs s = unat s * 1000000000"

definition from_millis :: "u64 \<Rightarrow> duration" where
  "from_millis ms = unat ms * 1000000"

definition elapsed :: "instant \<Rightarrow> instant \<Rightarrow> duration" where
  "elapsed now t = now - t"

text \<open>\<open>d.as_nanos() as u64\<close>: a 128-bit count truncated to 64 bits.\<close>

definition as_nanos_u64 :: "duration \<Rightarrow> u64" where
  "as_nanos_u64 d = of_nat d"

section \<open>Result\<close>

datatype ('a, 'e) result = Ok 'a | Err 'e

fun map_err :: "('e \<Rightarrow> 'f) \<Rightarrow> ('a, 'e) result \<Rightarrow> ('a, 'f) result" where
  "map_err f (Ok x) = Ok x"
| "map_err f (Err e) = Err (f e)"

fun result_map :: "('a \<Rightarrow> 'b) \<Rightarrow> ('a, 'e) result \<Rightarrow> ('b, 'e) result" where
  "result_map f (Ok x) = Ok (f x)"
| "result_map f (Err e) = Err e"

fun and_then :: "('a, 'e) result \<Rightarrow> ('a \<Rightarrow> ('b, 'e) result) \<Rightarrow> ('b, 'e) result" where
  "and_then (Ok x) f = f x"
| "and_then (Err e) f = Err e"

fun ok_or :: "'e \<Rightarrow> 'a option \<Rightarrow> ('a, 'e) result" where
  "ok_or e (Some x) = Ok x"
| "ok_or e None = Err e"

fun unwrap_or :: "'a \<Rightarrow> 'a option \<Rightarrow> 'a" where
  "unwrap_or d (Some x) = x"
| "unwrap_or d None = d"

fun is_ok :: "('a, 'e) result \<Rightarrow> bool" where
  "is_ok (Ok _) = True"
| "is_ok (Err _) = False"

lemma is_ok_iff: "is_ok r \<longleftrightarrow> (\<exists>x. r = Ok x)"
  by (cases r) auto

lemma map_err_Ok_iff [simp]: "map_err f r = Ok x \<longleftrightarrow> r = Ok x"
  by (cases r) auto

lemma map_err_Err_iff: "map_err f r = Err e \<longleftrightarrow> (\<exists>e'. r = Err e' \<and> e = f e')"
  by (cases r) auto

lemma and_then_Ok_iff: "and_then r f = Ok y \<longleftrightarrow> (\<exists>x. r = Ok x \<and> f x = Ok y)"
  by (cases r) auto

lemma ok_or_Ok_iff [simp]: "ok_or e v = Ok x \<longleftrightarrow> v = Some x"
  by (cases v) auto

lemma is_ok_map_err [simp]: "is_ok (map_err f r) = is_ok r"
  by (cases r) auto

section \<open>Text\<close>

definition quote :: string where
  "quote = [CHR 0x27]"

text \<open>Decimal formatting of an unsigned number, as \<open>format!\<close> prints it.\<close>

fun show_nat :: "nat \<Rightarrow> string" where
  "show_nat n =
     (if n < 10 then [char_of (48 + n)] else show_nat (n div 10) @ [char_of (48 + n mod 10)])"

declare show_nat.simps [simp del]

text \<open>\<open>str::as_bytes\<close>: a string is the list of its UTF-8 bytes.\<close>

definition as_bytes :: "string \<Rightarrow> bytes" where
  "as_bytes s = map (\<lambda>c. of_nat (of_char c)) s"

lemma as_bytes_inject [simp]: "as_bytes s = as_bytes t \<longleftrightarrow> s = t"
proof -
  have "inj (\<lambda>c. of_nat (of_char c) :: u8)"
  proof (rule injI)
    fix c d :: char
    assume "(of_nat (of_char c) :: u8) = of_nat (of_char d)"
    then have "(of_char c :: nat) mod 2 ^ 8 = of_char d mod 2 ^ 8"
      by (simp add: word_of_nat_eq_iff take_bit_eq_mod)
    then show "c = d" by simp
  qed
  then show ?thesis
    unfolding as_bytes_def by (simp add: inj_map_eq_map)
qed

section \<open>The process environment\<close>

text \<open>
  \<open>std::env::var(key).ok()\<close> is a partial map from names to text. \<open>FromStr\<close> of an
  unsigned integer accepts one optional plus sign followed by at least one decimal digit and
  refuses a value that does not fit the width.
\<close>

type_synonym environ = "string \<Rightarrow> string option"

definition is_digit :: "char \<Rightarrow> bool" where
  "is_digit c \<longleftrightarrow> 48 \<le> (of_char c :: nat) \<and> (of_char c :: nat) \<le> 57"

definition digit_val :: "char \<Rightarrow> nat" where
  "digit_val c = of_char c - 48"

fun dec_val :: "nat \<Rightarrow> string \<Rightarrow> nat" where
  "dec_val acc [] = acc"
| "dec_val acc (c # cs) = dec_val (10 * acc + digit_val c) cs"

definition strip_plus :: "string \<Rightarrow> string" where
  "strip_plus s = (case s of [] \<Rightarrow> [] | c # cs \<Rightarrow> if c = CHR ''+'' then cs else s)"

definition parse_uint :: "nat \<Rightarrow> string \<Rightarrow> nat option" where
  "parse_uint width s =
     (let ds = strip_plus s in
      if ds \<noteq> [] \<and> list_all is_digit ds \<and> dec_val 0 ds < 2 ^ width
      then Some (dec_val 0 ds) else None)"

definition parse_u64 :: "string \<Rightarrow> u64 option" where
  "parse_u64 s = map_option of_nat (parse_uint 64 s)"

definition parse_u32 :: "string \<Rightarrow> u32 option" where
  "parse_u32 s = map_option of_nat (parse_uint 32 s)"

definition env_parse :: "(string \<Rightarrow> 'a option) \<Rightarrow> environ \<Rightarrow> string \<Rightarrow> 'a option" where
  "env_parse parse env key = Option.bind (env key) parse"

lemma env_parse_unset [simp]: "env key = None \<Longrightarrow> env_parse parse env key = None"
  by (simp add: env_parse_def)

lemma parse_uint_bound: "parse_uint w s = Some n \<Longrightarrow> n < 2 ^ w"
  by (auto simp: parse_uint_def Let_def split: if_splits)

lemma dec_val_append: "dec_val acc (xs @ ys) = dec_val (dec_val acc xs) ys"
  by (induction xs arbitrary: acc) auto

lemma digit_char: "d < 10 \<Longrightarrow> is_digit (char_of (48 + d)) \<and> digit_val (char_of (48 + d)) = d"
  by (simp add: is_digit_def digit_val_def)

lemma show_nat_digits: "list_all is_digit (show_nat n) \<and> show_nat n \<noteq> []"
proof (induction n rule: show_nat.induct)
  case (1 n)
  then show ?case
    by (subst (1 2) show_nat.simps) (auto simp: digit_char)
qed

lemma dec_val_show_nat: "dec_val 0 (show_nat n) = n"
proof (induction n rule: show_nat.induct)
  case (1 n)
  show ?case
  proof (cases "n < 10")
    case True
    then show ?thesis by (subst show_nat.simps) (simp add: digit_char)
  next
    case False
    then have "dec_val 0 (show_nat n) = 10 * dec_val 0 (show_nat (n div 10)) + n mod 10"
      by (subst show_nat.simps) (simp add: dec_val_append digit_char)
    with False "1" show ?thesis by simp
  qed
qed

lemma strip_plus_show_nat: "strip_plus (show_nat n) = show_nat n"
proof (cases "show_nat n")
  case Nil
  then show ?thesis using show_nat_digits [of n] by simp
next
  case (Cons c cs)
  then have "is_digit c" using show_nat_digits [of n] by simp
  then have "c \<noteq> CHR ''+''" by (auto simp: is_digit_def)
  with Cons show ?thesis by (simp add: strip_plus_def)
qed

text \<open>A number printed with \<open>format!\<close> parses back to itself when it fits.\<close>

lemma parse_uint_show_nat: "n < 2 ^ w \<Longrightarrow> parse_uint w (show_nat n) = Some n"
  using show_nat_digits [of n]
  by (simp add: parse_uint_def strip_plus_show_nat dec_val_show_nat)

section \<open>Errors with context\<close>

text \<open>
  \<open>anyhow::Error\<close>: a root cause under a stack of context messages, outermost first.
  \<open>{}\<close> prints the outermost message, \<open>{:#}\<close> the whole chain joined by colons, and a downcast
  looks through the contexts at the root cause.
\<close>

datatype 'e anyhow = AnyError "string list" 'e

fun root_cause :: "'e anyhow \<Rightarrow> 'e" where
  "root_cause (AnyError _ e) = e"

definition bail :: "'e \<Rightarrow> ('a, 'e anyhow) result" where
  "bail e = Err (AnyError [] e)"

fun add_context :: "string \<Rightarrow> 'e anyhow \<Rightarrow> 'e anyhow" where
  "add_context c (AnyError cs e) = AnyError (c # cs) e"

definition with_context :: "string \<Rightarrow> ('a, 'e anyhow) result \<Rightarrow> ('a, 'e anyhow) result" where
  "with_context c r = map_err (add_context c) r"

definition lift_error :: "('a, 'e) result \<Rightarrow> ('a, 'e anyhow) result" where
  "lift_error r = map_err (AnyError []) r"

fun show_anyhow :: "('e \<Rightarrow> string) \<Rightarrow> 'e anyhow \<Rightarrow> string" where
  "show_anyhow show_root (AnyError [] e) = show_root e"
| "show_anyhow show_root (AnyError (c # _) e) = c"

fun show_chain :: "('e \<Rightarrow> string) \<Rightarrow> 'e anyhow \<Rightarrow> string" where
  "show_chain show_root (AnyError cs e) = foldr (\<lambda>c rest. c @ '': '' @ rest) cs (show_root e)"

lemma root_cause_context [simp]: "root_cause (add_context c e) = root_cause e"
  by (cases e) simp

lemma with_context_simps [simp]:
  "with_context c (Ok x) = Ok x"
  "with_context c (Err e) = Err (add_context c e)"
  "is_ok (with_context c r) = is_ok r"
  by (simp_all add: with_context_def)

lemma with_context_Ok_iff [simp]: "with_context c r = Ok x \<longleftrightarrow> r = Ok x"
  by (simp add: with_context_def)

lemma lift_error_simps [simp]:
  "lift_error (Ok x) = Ok x"
  "lift_error (Err e) = Err (AnyError [] e)"
  "lift_error r = Ok x \<longleftrightarrow> r = Ok x"
  "is_ok (lift_error r) = is_ok r"
  by (simp_all add: lift_error_def)

section \<open>gRPC status values\<close>

text \<open>The status codes the handlers construct or inspect.\<close>

datatype code = InvalidArgument | NotFound | PermissionDenied | ResourceExhausted
  | DeadlineExceeded | Unavailable | Internal | Unauthenticated

record status =
  st_code :: code
  st_message :: string

definition status_new :: "code \<Rightarrow> string \<Rightarrow> status" where
  "status_new c m = \<lparr> st_code = c, st_message = m \<rparr>"

lemma status_new_sel [simp]:
  "st_code (status_new c m) = c" "st_message (status_new c m) = m"
  by (simp_all add: status_new_def)

section \<open>Hash maps\<close>

text \<open>
  A \<open>HashMap\<close> is an association list with distinct keys; its iteration order is not
  observed by any of the operations modelled here.
\<close>

type_synonym ('k, 'v) hash_map = "('k \<times> 'v) list"

definition hm_wf :: "('k, 'v) hash_map \<Rightarrow> bool" where
  "hm_wf m \<longleftrightarrow> distinct (map fst m)"

text \<open>\<open>entry(k).or_default()\<close> followed by a mutation of the value it points to.\<close>

definition entry_or :: "'v \<Rightarrow> ('v \<Rightarrow> 'v) \<Rightarrow> 'k \<Rightarrow> ('k, 'v) hash_map \<Rightarrow> ('k, 'v) hash_map" where
  "entry_or d f k m = AList.update k (f (unwrap_or d (map_of m k))) m"

lemma hm_wf_simps [simp]:
  "hm_wf []"
  "hm_wf m \<Longrightarrow> hm_wf (AList.update k v m)"
  "hm_wf m \<Longrightarrow> hm_wf (entry_or d f k m)"
  by (simp_all add: hm_wf_def entry_or_def distinct_update)

lemma map_of_entry_or [simp]:
  "map_of (entry_or d f k m) k' = (if k' = k then Some (f (unwrap_or d (map_of m k))) else map_of m k')"
  by (simp add: entry_or_def update_conv')

lemma map_of_update [simp]:
  "map_of (AList.update k v m) k' = (if k' = k then Some v else map_of m k')"
  by (simp add: update_conv')

lemma length_update_le: "length (AList.update k v m) \<le> Suc (length m)"
  by (induction m) auto

lemma length_hm: "hm_wf m \<Longrightarrow> length m = card (dom (map_of m))"
  by (simp add: hm_wf_def dom_map_of_conv_image_fst distinct_card flip: set_map)

section \<open>Fallible operations on a world\<close>

text \<open>
  Code that calls into the module, and may return early with \<open>?\<close>, is a function from the
  outside world to a result and the world after it. \<open>io_bind\<close> is the sequencing of \<open>?\<close>: an error
  stops the computation but what was done to the world stays done.
\<close>

type_synonym ('w, 'a, 'e) io = "'w \<Rightarrow> ('a, 'e) result \<times> 'w"

definition io_return :: "'a \<Rightarrow> ('w, 'a, 'e) io" where
  "io_return x = (\<lambda>w. (Ok x, w))"

definition io_throw :: "'e \<Rightarrow> ('w, 'a, 'e) io" where
  "io_throw e = (\<lambda>w. (Err e, w))"

definition io_bind :: "('w, 'a, 'e) io \<Rightarrow> ('a \<Rightarrow> ('w, 'b, 'e) io) \<Rightarrow> ('w, 'b, 'e) io" where
  "io_bind m f = (\<lambda>w. case m w of (Ok x, w1) \<Rightarrow> f x w1 | (Err e, w1) \<Rightarrow> (Err e, w1))"

definition io_lift :: "('a, 'e) result \<Rightarrow> ('w, 'a, 'e) io" where
  "io_lift r = (\<lambda>w. (r, w))"

text \<open>Post-process the result only, the shape of \<open>.map_err(..)\<close> and \<open>.context(..)\<close>.\<close>

definition io_result :: "(('a, 'e) result \<Rightarrow> ('b, 'f) result) \<Rightarrow> ('w, 'a, 'e) io \<Rightarrow> ('w, 'b, 'f) io" where
  "io_result g m = (\<lambda>w. let (r, w1) = m w in (g r, w1))"

text \<open>Inspect the result and go on either way, the shape of \<open>match\<close> on a \<open>Result\<close>.\<close>

definition io_case :: "('w, 'a, 'e) io \<Rightarrow> (('a, 'e) result \<Rightarrow> ('w, 'b, 'f) io) \<Rightarrow> ('w, 'b, 'f) io" where
  "io_case m k = (\<lambda>w. let (r, w1) = m w in k r w1)"

named_theorems io_simps

lemmas io_defs [io_simps] =
  io_return_def io_throw_def io_bind_def io_lift_def io_result_def io_case_def

lemma io_bind_Ok_iff:
  "io_bind m f w = (Ok y, w') \<longleftrightarrow> (\<exists>x w1. m w = (Ok x, w1) \<and> f x w1 = (Ok y, w'))"
  by (auto simp: io_bind_def split: prod.splits result.splits)

lemma io_bind_Err_iff:
  "io_bind m f w = (Err e, w') \<longleftrightarrow>
     m w = (Err e, w') \<or> (\<exists>x w1. m w = (Ok x, w1) \<and> f x w1 = (Err e, w'))"
  by (auto simp: io_bind_def split: prod.splits result.splits)

lemma io_result_iff: "io_result g m w = (y, w') \<longleftrightarrow> (\<exists>r. m w = (r, w') \<and> g r = y)"
  by (auto simp: io_result_def split: prod.splits)

lemma io_lift_iff: "io_lift r w = (y, w') \<longleftrightarrow> r = y \<and> w' = w"
  by (auto simp: io_lift_def)

lemma io_return_iff: "io_return x w = (y, w') \<longleftrightarrow> y = Ok x \<and> w' = w"
  by (auto simp: io_return_def)

lemmas io_iffs = io_bind_Ok_iff io_result_iff io_lift_iff io_return_iff

lemma io_return_left [simp]: "io_bind (io_return x) f = f x"
  by (simp add: io_bind_def io_return_def)

lemma io_throw_left [simp]: "io_bind (io_throw e) f = io_throw e"
  by (simp add: io_bind_def io_throw_def)

lemma io_bind_assoc: "io_bind (io_bind m f) g = io_bind m (\<lambda>x. io_bind (f x) g)"
  by (auto simp: io_bind_def fun_eq_iff split: prod.splits result.splits)

text \<open>\<open>io_keeps P m\<close>: running \<open>m\<close> keeps \<open>P\<close>, whatever its result.\<close>

definition io_keeps :: "('w \<Rightarrow> bool) \<Rightarrow> ('w, 'a, 'e) io \<Rightarrow> bool" where
  "io_keeps P m \<longleftrightarrow> (\<forall>w. P w \<longrightarrow> P (snd (m w)))"

named_theorems keeps_intros

lemma io_keepsD: "io_keeps P m \<Longrightarrow> P w \<Longrightarrow> P (snd (m w))"
  by (simp add: io_keeps_def)

lemma io_keeps_simple [keeps_intros]:
  "io_keeps P (io_return x)" "io_keeps P (io_throw e)" "io_keeps P (io_lift r)"
  by (simp_all add: io_keeps_def io_return_def io_throw_def io_lift_def)

lemma io_keeps_bind [keeps_intros]: "io_keeps P m \<Longrightarrow> (\<And>x. io_keeps P (f x)) \<Longrightarrow> io_keeps P (io_bind m f)"
  by (fastforce simp: io_keeps_def io_bind_def split: prod.splits result.splits)

lemma io_keeps_result [keeps_intros]: "io_keeps P m \<Longrightarrow> io_keeps P (io_result g m)"
  by (simp add: io_keeps_def io_result_def case_prod_beta Let_def)

section \<open>Transition systems\<close>

inductive reachable :: "('s \<Rightarrow> bool) \<Rightarrow> ('s \<Rightarrow> 's \<Rightarrow> bool) \<Rightarrow> 's \<Rightarrow> bool"
  for start step where
  reachable_start: "start s \<Longrightarrow> reachable start step s"
| reachable_step: "reachable start step s \<Longrightarrow> step s t \<Longrightarrow> reachable start step t"

lemma reachable_steps: "step\<^sup>*\<^sup>* s t \<Longrightarrow> reachable start step s \<Longrightarrow> reachable start step t"
  by (induction rule: rtranclp_induct) (auto intro: reachable_step)

text \<open>
  The interface between a component's step relation and the facts that hold in every state
  it can reach.
\<close>

locale inductive_invariant =
  fixes start :: "'s \<Rightarrow> bool"
    and step :: "'s \<Rightarrow> 's \<Rightarrow> bool"
    and inv :: "'s \<Rightarrow> bool"
  assumes inv_start: "start s \<Longrightarrow> inv s"
    and inv_step: "inv s \<Longrightarrow> step s t \<Longrightarrow> inv t"
begin

lemma inv_reachable: "reachable start step s \<Longrightarrow> inv s"
  by (induction rule: reachable.induct) (auto intro: inv_start inv_step)

lemma inv_steps: "step\<^sup>*\<^sup>* s t \<Longrightarrow> inv s \<Longrightarrow> inv t"
  by (induction rule: rtranclp_induct) (auto intro: inv_step)

end

section \<open>Memoised lookups\<close>

text \<open>
  The interface of a cache in front of a slower source: a lookup through a coherent cache
  gives what the source gives and leaves the cache coherent. Clients see the source only.
\<close>

locale memo_table =
  fixes fetch :: "'k \<Rightarrow> 'c \<Rightarrow> ('v, 'e) result \<times> 'c"
    and source :: "'k \<Rightarrow> ('v, 'e) result"
    and coherent :: "'c \<Rightarrow> bool"
  assumes fetch_source: "coherent c \<Longrightarrow> fst (fetch k c) = source k"
    and fetch_coherent: "coherent c \<Longrightarrow> coherent (snd (fetch k c))"
begin

primrec fetch_all :: "'k list \<Rightarrow> 'c \<Rightarrow> ('v, 'e) result list \<times> 'c" where
  "fetch_all [] c = ([], c)"
| "fetch_all (k # ks) c =
     (let (r, c1) = fetch k c; (rs, c2) = fetch_all ks c1 in (r # rs, c2))"

lemma fetch_all_source:
  "coherent c \<Longrightarrow> fst (fetch_all ks c) = map source ks \<and> coherent (snd (fetch_all ks c))"
proof (induction ks arbitrary: c)
  case Nil
  then show ?case by simp
next
  case (Cons k ks)
  from Cons.prems have "coherent (snd (fetch k c))" by (rule fetch_coherent)
  from Cons.IH [OF this] show ?case
    using fetch_source [OF Cons.prems] by (simp add: case_prod_beta Let_def)
qed

lemma fetch_independent:
  "coherent c \<Longrightarrow> coherent d \<Longrightarrow> fst (fetch k c) = fst (fetch k d)"
  by (simp add: fetch_source)

end

end
