(* ===== verification/Cryptoki.thy ===== *)
theory Cryptoki
  imports Hsm_Prelude
begin

text \<open>
  The interface to the PKCS#11 module. The crate \<open>cryptoki\<close> and the module behind it are
  parameters: one record of the calls the sources make, over an arbitrary world that holds
  the token, its sessions and its login state. Objects, slots and sessions are the numbers
  PKCS#11 uses for them. Return codes, attributes and mechanisms have the constructors
  the sources name, and one more for the rest.
\<close>

section \<open>Errors\<close>

datatype rv_error =
    SessionHandleInvalid | SessionClosed | DeviceError | DeviceRemoved | TokenNotPresent
  | UserNotLoggedIn | UserAlreadyLoggedIn | SignatureInvalid | SignatureLenRange
  | EncryptedDataInvalid | EncryptedDataLenRange | OtherRv u64

text \<open>The string of \<open>Pkcs11\<close> is the name of the failed function.\<close>

datatype ck_error = Pkcs11 rv_error string | OtherError string

text \<open>Root causes of an \<open>anyhow\<close> error: a module error, or a message.\<close>

datatype cause = CkCause ck_error | Message string

type_synonym failure = "cause anyhow"

definition anyhow_msg :: "string \<Rightarrow> failure" where
  "anyhow_msg m = AnyError [] (Message m)"

definition ck_context :: "string \<Rightarrow> ('a, ck_error) result \<Rightarrow> ('a, failure) result" where
  "ck_context c r = with_context c (lift_error (map_err CkCause r))"

lemma ck_context_simps [simp]:
  "ck_context c (Ok x) = Ok x"
  "ck_context c (Err e) = Err (AnyError [c] (CkCause e))"
  "ck_context c r = Ok x \<longleftrightarrow> r = Ok x"
  by (simp_all add: ck_context_def)

section \<open>Objects, attributes, mechanisms\<close>

type_synonym object_handle = u64
type_synonym slot = u64
type_synonym session = u64

datatype object_class = PRIVATE_KEY | PUBLIC_KEY | SECRET_KEY | DATA

datatype key_type = EC | RSA | AES | OtherKeyType u64

datatype attribute =
    AClass object_class | ALabel bytes | AKeyType key_type | AToken bool | APrivate bool
  | ASensitive bool | AExtractable bool | ASign bool | AVerify bool | AEncrypt bool
  | ADecrypt bool | AEcParams bytes | AEcPoint bytes | AModulus bytes | AModulusBits u64
  | APublicExponent bytes | AValueLen u64 | AValue bytes | OtherAttribute u64

datatype attribute_type =
    TKeyType | TEcPoint | TModulus | TPublicExponent | TSensitive | TExtractable

datatype hash_alg = SHA256_ALG

datatype mgf_type = MGF1_SHA256

record pss_parameters =
  ps_hash_alg :: hash_alg
  ps_mgf :: mgf_type
  ps_s_len :: u64

record gcm_parameters =
  gp_iv :: bytes
  gp_aad :: bytes
  gp_tag_bits :: u64

datatype ck_mechanism =
    MEcdsa | MRsaPkcs | MSha256RsaPkcs | MRsaPkcsPss pss_parameters | MSha256RsaPkcsPss pss_parameters
  | MAesGcm gcm_parameters | MEccKeyPairGen | MRsaPkcsKeyPairGen | MAesKeyGen

section \<open>The calls\<close>

text \<open>
  \<open>ck_drop_session\<close> is what dropping a \<open>Session\<close> does (\<open>C_CloseSession\<close>) and
  \<open>ck_drop_context\<close> what dropping the last \<open>Pkcs11\<close> does (\<open>C_Finalize\<close>). Building GCM
  parameters touches no token.
\<close>

record 'w cryptoki =
  ck_new :: "string \<Rightarrow> ('w, unit, ck_error) io"
  ck_initialize :: "('w, unit, ck_error) io"
  ck_drop_context :: "'w \<Rightarrow> 'w"
  ck_get_slots_with_token :: "('w, slot list, ck_error) io"
  ck_token_label :: "slot \<Rightarrow> ('w, string, ck_error) io"
  ck_open_rw_session :: "slot \<Rightarrow> ('w, session, ck_error) io"
  ck_drop_session :: "session \<Rightarrow> 'w \<Rightarrow> 'w"
  ck_login :: "session \<Rightarrow> string \<Rightarrow> ('w, unit, ck_error) io"
  ck_logout :: "session \<Rightarrow> ('w, unit, ck_error) io"
  ck_find_objects :: "session \<Rightarrow> attribute list \<Rightarrow> ('w, object_handle list, ck_error) io"
  ck_get_attributes :: "session \<Rightarrow> object_handle \<Rightarrow> attribute_type list \<Rightarrow> ('w, attribute list, ck_error) io"
  ck_sign :: "session \<Rightarrow> ck_mechanism \<Rightarrow> object_handle \<Rightarrow> bytes \<Rightarrow> ('w, bytes, ck_error) io"
  ck_verify :: "session \<Rightarrow> ck_mechanism \<Rightarrow> object_handle \<Rightarrow> bytes \<Rightarrow> bytes \<Rightarrow> ('w, unit, ck_error) io"
  ck_encrypt :: "session \<Rightarrow> ck_mechanism \<Rightarrow> object_handle \<Rightarrow> bytes \<Rightarrow> ('w, bytes, ck_error) io"
  ck_decrypt :: "session \<Rightarrow> ck_mechanism \<Rightarrow> object_handle \<Rightarrow> bytes \<Rightarrow> ('w, bytes, ck_error) io"
  ck_generate_key_pair ::
    "session \<Rightarrow> ck_mechanism \<Rightarrow> attribute list \<Rightarrow> attribute list \<Rightarrow> ('w, object_handle \<times> object_handle, ck_error) io"
  ck_generate_key :: "session \<Rightarrow> ck_mechanism \<Rightarrow> attribute list \<Rightarrow> ('w, object_handle, ck_error) io"
  ck_create_object :: "session \<Rightarrow> attribute list \<Rightarrow> ('w, object_handle, ck_error) io"
  ck_destroy_object :: "session \<Rightarrow> object_handle \<Rightarrow> ('w, unit, ck_error) io"
  ck_gcm_params :: "bytes \<Rightarrow> bytes \<Rightarrow> u64 \<Rightarrow> (gcm_parameters, ck_error) result"
  ck_show_error :: "ck_error \<Rightarrow> string"
  ck_debug_attribute :: "attribute option \<Rightarrow> string"

fun show_cause :: "'w cryptoki \<Rightarrow> cause \<Rightarrow> string" where
  "show_cause ck (CkCause e) = ck_show_error ck e"
| "show_cause ck (Message m) = m"

end
