(* ===== verification/Crypto.thy ===== *)
theory Crypto
  imports Cryptoki
begin

text \<open>
  Wire mechanisms and key material in PKCS#11 terms, \<open>crypto.rs\<close>: preparing an operation,
  reading a public key off the token, and verifying in process. The hash and signature
  libraries (\<open>sha2\<close>, \<open>p256\<close>, \<open>rsa\<close>, \<open>ring\<close>) are parameters.
\<close>

section \<open>The libraries\<close>

record ('k, 'sg, 'r) crypto_lib =
  sha256 :: "bytes \<Rightarrow> bytes"
  p256_from_public_key_der :: "bytes \<Rightarrow> ('k, string) result"
  p256_from_sec1_bytes :: "bytes \<Rightarrow> ('k, string) result"
  p256_to_encoded_point :: "'k \<Rightarrow> bytes"
  p256_to_public_key_der :: "'k \<Rightarrow> (bytes, string) result"
  p256_verifying_key :: "bytes \<Rightarrow> ('k, string) result"
  p256_signature :: "bytes \<Rightarrow> 'sg option"
  p256_verify_prehash :: "'k \<Rightarrow> bytes \<Rightarrow> 'sg \<Rightarrow> bool"
  ring_verify :: "bytes \<Rightarrow> bytes \<Rightarrow> bytes \<Rightarrow> bool"
  biguint_from_bytes_be :: "bytes \<Rightarrow> nat"
  rsa_public_key :: "nat \<Rightarrow> nat \<Rightarrow> ('r, string) result"
  rsa_to_public_key_der :: "'r \<Rightarrow> (bytes, string) result"
  rsa_from_public_key_der :: "bytes \<Rightarrow> ('r, string) result"
  rsa_verify_pss :: "'r \<Rightarrow> bytes \<Rightarrow> bytes \<Rightarrow> bool"
  rsa_verify_pkcs1v15 :: "'r \<Rightarrow> bytes \<Rightarrow> bytes \<Rightarrow> bool"

definition lib_context :: "string \<Rightarrow> ('a, string) result \<Rightarrow> ('a, failure) result" where
  "lib_context c r = with_context c (lift_error (map_err Message r))"

lemma lib_context_simps [simp]:
  "lib_context c (Ok x) = Ok x"
  "lib_context c (Err e) = Err (AnyError [c] (Message e))"
  "lib_context c r = Ok x \<longleftrightarrow> r = Ok x"
  by (simp_all add: lib_context_def)

section \<open>Mechanisms\<close>

definition sha256_len :: nat where
  "sha256_len = 32"

definition sha256_digest_info_prefix :: bytes where
  "sha256_digest_info_prefix =
     [0x30, 0x31]
     @ [0x30, 0x0d]
     @ [0x06, 0x09, 0x60, 0x86, 0x48, 0x01, 0x65, 0x03, 0x04, 0x02, 0x01]
     @ [0x05, 0x00]
     @ [0x04, 0x20]"

datatype signing_input = InputMessage bytes | InputDigest bytes

datatype sign_algorithm = Ecdsa | RsaPkcs | Sha256RsaPkcs | RsaPkcsPss | Sha256RsaPkcsPss

definition pss_params :: pss_parameters where
  "pss_params = \<lparr> ps_hash_alg = SHA256_ALG, ps_mgf = MGF1_SHA256, ps_s_len = of_nat sha256_len \<rparr>"

fun algorithm_mechanism :: "sign_algorithm \<Rightarrow> ck_mechanism" where
  "algorithm_mechanism Ecdsa = MEcdsa"
| "algorithm_mechanism RsaPkcs = MRsaPkcs"
| "algorithm_mechanism Sha256RsaPkcs = MSha256RsaPkcs"
| "algorithm_mechanism RsaPkcsPss = MRsaPkcsPss pss_params"
| "algorithm_mechanism Sha256RsaPkcsPss = MSha256RsaPkcsPss pss_params"

record prepared_operation =
  po_algorithm :: sign_algorithm
  po_payload :: bytes

text \<open>The wire enumeration and its conversion from the integer on the wire.\<close>

datatype signature_mechanism = Unspecified | EcdsaSha256 | RsaPkcsSha256 | RsaPssSha256

definition signature_mechanism_of :: "i32 \<Rightarrow> signature_mechanism option" where
  "signature_mechanism_of n =
     (if n = 0 then Some Unspecified else if n = 1 then Some EcdsaSha256
      else if n = 2 then Some RsaPkcsSha256 else if n = 3 then Some RsaPssSha256 else None)"

definition show_i32 :: "i32 \<Rightarrow> string" where
  "show_i32 n = (if sint n < 0 then ''-'' @ show_nat (nat (- sint n)) else show_nat (nat (sint n)))"

section \<open>Preparing an operation\<close>

definition check_digest_len :: "bytes \<Rightarrow> (unit, failure) result" where
  "check_digest_len digest =
     (if length digest \<noteq> sha256_len
      then Err (anyhow_msg (''expected a '' @ show_nat sha256_len @ ''-byte SHA-256 digest, got ''
                  @ show_nat (length digest) @ '' bytes''))
      else Ok ())"

definition prepare ::
    "('k, 'sg, 'r) crypto_lib \<Rightarrow> i32 \<Rightarrow> signing_input \<Rightarrow> (prepared_operation, failure) result" where
  "prepare lib mechanism input =
     (case signature_mechanism_of mechanism of
        None \<Rightarrow> Err (anyhow_msg (''unknown signature mechanism '' @ show_i32 mechanism))
      | Some m \<Rightarrow>
          (case (m, input) of
             (Unspecified, _) \<Rightarrow> Err (anyhow_msg ''signature mechanism must be specified'')
           | (EcdsaSha256, InputMessage message) \<Rightarrow>
               Ok \<lparr> po_algorithm = Ecdsa, po_payload = sha256 lib message \<rparr>
           | (EcdsaSha256, InputDigest digest) \<Rightarrow>
               and_then (check_digest_len digest)
                 (\<lambda>_. Ok \<lparr> po_algorithm = Ecdsa, po_payload = digest \<rparr>)
           | (RsaPkcsSha256, InputMessage message) \<Rightarrow>
               Ok \<lparr> po_algorithm = Sha256RsaPkcs, po_payload = message \<rparr>
           | (RsaPkcsSha256, InputDigest digest) \<Rightarrow>
               and_then (check_digest_len digest)
                 (\<lambda>_. Ok \<lparr> po_algorithm = RsaPkcs, po_payload = sha256_digest_info_prefix @ digest \<rparr>)
           | (RsaPssSha256, InputMessage message) \<Rightarrow>
               Ok \<lparr> po_algorithm = Sha256RsaPkcsPss, po_payload = message \<rparr>
           | (RsaPssSha256, InputDigest digest) \<Rightarrow>
               and_then (check_digest_len digest)
                 (\<lambda>_. Ok \<lparr> po_algorithm = RsaPkcsPss, po_payload = digest \<rparr>)))"

definition verification_digest ::
    "('k, 'sg, 'r) crypto_lib \<Rightarrow> prepared_operation \<Rightarrow> (bytes, failure) result" where
  "verification_digest lib op =
     (case po_algorithm op of
        Ecdsa \<Rightarrow> Ok (po_payload op)
      | RsaPkcsPss \<Rightarrow> Ok (po_payload op)
      | Sha256RsaPkcs \<Rightarrow> Ok (sha256 lib (po_payload op))
      | Sha256RsaPkcsPss \<Rightarrow> Ok (sha256 lib (po_payload op))
      | RsaPkcs \<Rightarrow>
          (let prefix = sha256_digest_info_prefix in
           if length (po_payload op) \<noteq> length prefix + sha256_len
              \<or> take (length prefix) (po_payload op) \<noteq> prefix
           then Err (anyhow_msg ''payload is not a SHA-256 DigestInfo'')
           else Ok (drop (length prefix) (po_payload op))))"

section \<open>Public keys\<close>

fun get_byte :: "bytes \<Rightarrow> nat \<Rightarrow> u8 option" where
  "get_byte bs i = (if i < length bs then Some (bs ! i) else None)"

fun get_slice :: "bytes \<Rightarrow> nat \<Rightarrow> nat \<Rightarrow> bytes option" where
  "get_slice bs a b = (if a \<le> b \<and> b \<le> length bs then Some (take (b - a) (drop a bs)) else None)"

definition unwrap_der_octet_string :: "bytes \<Rightarrow> (bytes, failure) result" where
  "unwrap_der_octet_string bs =
     (if length bs = 65 \<and> bs ! 0 = 0x04 then Ok bs
      else if get_byte bs 0 \<noteq> Some 0x04
      then Err (anyhow_msg ''CKA_EC_POINT is neither a DER OCTET STRING nor a SEC1 point'')
      else
        and_then
          (case get_byte bs 1 of
             None \<Rightarrow> Err (anyhow_msg ''unsupported CKA_EC_POINT length encoding'')
           | Some n \<Rightarrow>
               if n < 0x80 then Ok (unat n, 2)
               else if n = 0x81 then
                 result_map (\<lambda>b. (unat b, 3)) (ok_or (anyhow_msg ''truncated EC point'') (get_byte bs 2))
               else Err (anyhow_msg ''unsupported CKA_EC_POINT length encoding''))
          (\<lambda>(len, offset).
             ok_or (anyhow_msg (''CKA_EC_POINT declares '' @ show_nat len @ '' bytes but the value is truncated''))
               (get_slice bs offset (offset + len))))"

definition sec1_point_from_spki :: "('k, 'sg, 'r) crypto_lib \<Rightarrow> bytes \<Rightarrow> (bytes, failure) result" where
  "sec1_point_from_spki lib spki_der =
     result_map (p256_to_encoded_point lib)
       (lib_context ''not a valid P-256 SPKI'' (p256_from_public_key_der lib spki_der))"

fun find_ec_point :: "attribute list \<Rightarrow> bytes option" where
  "find_ec_point [] = None"
| "find_ec_point (AEcPoint point # _) = Some point"
| "find_ec_point (_ # attrs) = find_ec_point attrs"

definition ec_spki ::
    "'w cryptoki \<Rightarrow> ('k, 'sg, 'r) crypto_lib \<Rightarrow> session \<Rightarrow> object_handle \<Rightarrow> ('w, bytes, failure) io" where
  "ec_spki ck lib session public_key =
     io_bind (io_result (ck_context ''C_GetAttributeValue(CKA_EC_POINT) failed'')
                (ck_get_attributes ck session public_key [TEcPoint]))
       (\<lambda>attrs. io_lift
          (and_then (ok_or (anyhow_msg ''public key has no CKA_EC_POINT'') (find_ec_point attrs))
            (\<lambda>ec_point. and_then (unwrap_der_octet_string ec_point)
              (\<lambda>sec1. and_then
                 (map_err (\<lambda>e. anyhow_msg (''CKA_EC_POINT is not a valid P-256 point: '' @ e))
                    (p256_from_sec1_bytes lib sec1))
                 (\<lambda>key. lib_context ''failed to DER-encode the EC public key''
                    (p256_to_public_key_der lib key))))))"

text \<open>The loop over the attributes keeps the last modulus and the last exponent.\<close>

fun rsa_components :: "attribute list \<Rightarrow> bytes option \<times> bytes option \<Rightarrow> bytes option \<times> bytes option" where
  "rsa_components [] (modulus, exponent) = (modulus, exponent)"
| "rsa_components (attr # attrs) (modulus, exponent) =
     rsa_components attrs
       (case attr of
          AModulus m \<Rightarrow> (Some m, exponent)
        | APublicExponent e \<Rightarrow> (modulus, Some e)
        | _ \<Rightarrow> (modulus, exponent))"

definition rsa_spki ::
    "'w cryptoki \<Rightarrow> ('k, 'sg, 'r) crypto_lib \<Rightarrow> session \<Rightarrow> object_handle \<Rightarrow> ('w, bytes, failure) io" where
  "rsa_spki ck lib session public_key =
     io_bind (io_result (ck_context ''C_GetAttributeValue(CKA_MODULUS/CKA_PUBLIC_EXPONENT) failed'')
                (ck_get_attributes ck session public_key [TModulus, TPublicExponent]))
       (\<lambda>attrs. io_lift
          (let (modulus, exponent) = rsa_components attrs (None, None) in
           and_then (ok_or (anyhow_msg ''public key has no modulus'') modulus)
             (\<lambda>m. and_then (ok_or (anyhow_msg ''public key has no exponent'') exponent)
               (\<lambda>e. and_then
                  (lib_context ''token returned an invalid RSA public key''
                     (rsa_public_key lib (biguint_from_bytes_be lib m) (biguint_from_bytes_be lib e)))
                  (\<lambda>key. lib_context ''failed to DER-encode the RSA public key''
                     (rsa_to_public_key_der lib key))))))"

definition public_key_to_spki_der ::
    "'w cryptoki \<Rightarrow> ('k, 'sg, 'r) crypto_lib \<Rightarrow> session \<Rightarrow> object_handle
     \<Rightarrow> ('w, bytes \<times> string, failure) io" where
  "public_key_to_spki_der ck lib session public_key =
     io_bind (io_result (ck_context ''C_GetAttributeValue(CKA_KEY_TYPE) failed'')
                (ck_get_attributes ck session public_key [TKeyType]))
       (\<lambda>attrs.
          case attrs of
            AKeyType EC # _ \<Rightarrow>
              io_result (result_map (\<lambda>der. (der, ''EC''))) (ec_spki ck lib session public_key)
          | AKeyType RSA # _ \<Rightarrow>
              io_result (result_map (\<lambda>der. (der, ''RSA''))) (rsa_spki ck lib session public_key)
          | _ \<Rightarrow> io_throw (anyhow_msg (''unsupported public key type: ''
                 @ ck_debug_attribute ck (case attrs of [] \<Rightarrow> None | a # _ \<Rightarrow> Some a))))"

section \<open>Verification in process\<close>

definition digest_of :: "('k, 'sg, 'r) crypto_lib \<Rightarrow> signing_input \<Rightarrow> (bytes, failure) result" where
  "digest_of lib input =
     (case input of
        InputMessage message \<Rightarrow> Ok (sha256 lib message)
      | InputDigest digest \<Rightarrow> result_map (\<lambda>_. digest) (check_digest_len digest))"

definition verify_ecdsa_ring ::
    "('k, 'sg, 'r) crypto_lib \<Rightarrow> bytes \<Rightarrow> bytes \<Rightarrow> bytes \<Rightarrow> (bool, failure) result" where
  "verify_ecdsa_ring lib spki_der message signature =
     result_map (\<lambda>point. ring_verify lib point message signature) (sec1_point_from_spki lib spki_der)"

definition verify_ecdsa_prehash ::
    "('k, 'sg, 'r) crypto_lib \<Rightarrow> bytes \<Rightarrow> bytes \<Rightarrow> bytes \<Rightarrow> (bool, failure) result" where
  "verify_ecdsa_prehash lib spki_der digest signature =
     result_map
       (\<lambda>key. case p256_signature lib signature of
                None \<Rightarrow> False
              | Some sg \<Rightarrow> p256_verify_prehash lib key digest sg)
       (lib_context ''cached public key is not a valid P-256 SPKI'' (p256_verifying_key lib spki_der))"

definition verify_rsa ::
    "('k, 'sg, 'r) crypto_lib \<Rightarrow> bytes \<Rightarrow> bytes \<Rightarrow> bytes \<Rightarrow> bool \<Rightarrow> (bool, failure) result" where
  "verify_rsa lib spki_der digest signature pss =
     result_map
       (\<lambda>key. if pss then rsa_verify_pss lib key digest signature
              else rsa_verify_pkcs1v15 lib key digest signature)
       (lib_context ''cached public key is not a valid RSA SPKI'' (rsa_from_public_key_der lib spki_der))"

definition verify_public ::
    "('k, 'sg, 'r) crypto_lib \<Rightarrow> bytes \<Rightarrow> i32 \<Rightarrow> signing_input \<Rightarrow> bytes \<Rightarrow> (bool, failure) result" where
  "verify_public lib spki_der mechanism input signature =
     (case signature_mechanism_of mechanism of
        None \<Rightarrow> Err (anyhow_msg ''unknown signature mechanism'')
      | Some m \<Rightarrow>
          (case (m, input) of
             (Unspecified, _) \<Rightarrow> Err (anyhow_msg ''signature mechanism must be specified'')
           | (EcdsaSha256, InputMessage message) \<Rightarrow> verify_ecdsa_ring lib spki_der message signature
           | (EcdsaSha256, InputDigest digest) \<Rightarrow>
               and_then (check_digest_len digest) (\<lambda>_. verify_ecdsa_prehash lib spki_der digest signature)
           | (RsaPkcsSha256, _) \<Rightarrow>
               and_then (digest_of lib input) (\<lambda>digest. verify_rsa lib spki_der digest signature False)
           | (RsaPssSha256, _) \<Rightarrow>
               and_then (digest_of lib input) (\<lambda>digest. verify_rsa lib spki_der digest signature True)))"

section \<open>Correctness of preparation\<close>

text \<open>The inputs a request can be made with.\<close>

definition well_formed_input :: "i32 \<Rightarrow> signing_input \<Rightarrow> bool" where
  "well_formed_input mechanism input \<longleftrightarrow>
     signature_mechanism_of mechanism \<notin> {None, Some Unspecified}
     \<and> (case input of InputMessage _ \<Rightarrow> True | InputDigest d \<Rightarrow> length d = sha256_len)"

lemma check_digest_len_Ok [simp]: "check_digest_len d = Ok u \<longleftrightarrow> length d = sha256_len"
  by (simp add: check_digest_len_def)

lemma check_digest_len_ok [simp]: "length d = sha256_len \<Longrightarrow> check_digest_len d = Ok ()"
  by simp

lemma prefix_nonempty [simp]: "length sha256_digest_info_prefix = 19"
  by (simp add: sha256_digest_info_prefix_def)

lemma is_ok_prepare: "is_ok (prepare lib mechanism input) \<longleftrightarrow> well_formed_input mechanism input"
  by (cases input; cases "signature_mechanism_of mechanism"; simp; rename_tac m; case_tac m)
     (simp_all add: prepare_def well_formed_input_def is_ok_iff and_then_Ok_iff)

lemma mechanism_cases:
  obtains "signature_mechanism_of mechanism = None"
    | "signature_mechanism_of mechanism = Some Unspecified"
    | "signature_mechanism_of mechanism = Some EcdsaSha256"
    | "signature_mechanism_of mechanism = Some RsaPkcsSha256"
    | "signature_mechanism_of mechanism = Some RsaPssSha256"
  using signature_mechanism.exhaust by (metis not_Some_eq)

lemma verification_digest_wrapped:
  "length d = sha256_len \<Longrightarrow>
   verification_digest lib \<lparr> po_algorithm = RsaPkcs, po_payload = sha256_digest_info_prefix @ d \<rparr> = Ok d"
  by (simp add: verification_digest_def)

lemma prepare_verification_digest:
  assumes "prepare lib mechanism input = Ok op"
  shows "verification_digest lib op = digest_of lib input"
  using assms
  by (cases mechanism rule: mechanism_cases; cases input)
     (auto simp: prepare_def and_then_Ok_iff digest_of_def verification_digest_wrapped
        simp: verification_digest_def [of lib "\<lparr> po_algorithm = a, po_payload = p \<rparr>" for a p])

text \<open>
  What PKCS#11 says a mechanism signs, independently of the code: the signature scheme it belongs to, and
  the SHA-256 digest the signature is over. \<open>CKM_ECDSA\<close> and \<open>CKM_RSA_PKCS_PSS\<close> take the digest,
  \<open>CKM_RSA_PKCS\<close> takes the encoded \<open>DigestInfo\<close> of RFC 8017, and the combined mechanisms hash
  the message. PSS is with SHA-256, its mask generation function and a salt of 32 bytes. A \<open>DigestInfo\<close>
  is the DER encoding of a sequence of the algorithm, here the object identifier 2.16.840.1.101.3.4.2.1
  of SHA-256 with null parameters, and the digest as an octet string; all lengths are short ones.
\<close>

definition der_tlv :: "u8 \<Rightarrow> bytes \<Rightarrow> bytes" where
  "der_tlv tag content = tag # of_nat (length content) # content"

definition der_arc :: "nat \<Rightarrow> bytes" where
  "der_arc n = (if n < 128 then [of_nat n] else [of_nat (128 + n div 128), of_nat (n mod 128)])"

fun der_oid :: "nat list \<Rightarrow> bytes" where
  "der_oid (a # b # arcs) = der_tlv 6 (concat (map der_arc ((40 * a + b) # arcs)))"
| "der_oid _ = []"

definition rfc8017_sha256_digest_info :: "bytes \<Rightarrow> bytes" where
  "rfc8017_sha256_digest_info digest =
     der_tlv 48 (der_tlv 48 (der_oid [2, 16, 840, 1, 101, 3, 4, 2, 1] @ der_tlv 5 []) @ der_tlv 4 digest)"

abbreviation "sha256_pss \<equiv> \<lparr> ps_hash_alg = SHA256_ALG, ps_mgf = MGF1_SHA256, ps_s_len = 32 \<rparr>"

inductive signs_digest :: "(bytes \<Rightarrow> bytes) \<Rightarrow> ck_mechanism \<Rightarrow> bytes \<Rightarrow> signature_mechanism \<Rightarrow> bytes \<Rightarrow> bool" for hash where
  ecdsa: "signs_digest hash MEcdsa digest EcdsaSha256 digest"
| pkcs1: "signs_digest hash MRsaPkcs (rfc8017_sha256_digest_info digest) RsaPkcsSha256 digest"
| pkcs1_hashed: "signs_digest hash MSha256RsaPkcs message RsaPkcsSha256 (hash message)"
| pss: "signs_digest hash (MRsaPkcsPss sha256_pss) digest RsaPssSha256 digest"
| pss_hashed: "signs_digest hash (MSha256RsaPkcsPss sha256_pss) message RsaPssSha256 (hash message)"

inductive_simps signs_digest_simps:
  "signs_digest hash MEcdsa payload scheme digest"
  "signs_digest hash MRsaPkcs payload scheme digest"
  "signs_digest hash MSha256RsaPkcs payload scheme digest"
  "signs_digest hash (MRsaPkcsPss pss) payload scheme digest"
  "signs_digest hash (MSha256RsaPkcsPss pss) payload scheme digest"

lemma prefix_is_digest_info:
  assumes "length digest = 32"
  shows "sha256_digest_info_prefix @ digest = rfc8017_sha256_digest_info digest"
  using assms by (simp add: sha256_digest_info_prefix_def rfc8017_sha256_digest_info_def der_tlv_def der_arc_def)

text \<open>The digest a caller asks to have signed.\<close>

fun asked_digest :: "(bytes \<Rightarrow> bytes) \<Rightarrow> signing_input \<Rightarrow> bytes" where
  "asked_digest hash (InputMessage message) = hash message"
| "asked_digest hash (InputDigest digest) = digest"

lemma prepare_signs:
  assumes "prepare lib mechanism input = Ok op"
  shows "\<exists>scheme. signature_mechanism_of mechanism = Some scheme
    \<and> signs_digest (sha256 lib) (algorithm_mechanism (po_algorithm op)) (po_payload op) scheme (asked_digest (sha256 lib) input)"
  using assms
  by (cases mechanism rule: mechanism_cases; cases input)
     (auto simp: prepare_def and_then_Ok_iff signs_digest_simps prefix_is_digest_info check_digest_len_def pss_params_def
        sha256_len_def split: if_splits)

text \<open>
  C13. Preparing a request asks the token for what the caller asked for: it succeeds exactly for a
  specified mechanism and, when the caller hashed already, a 32-byte digest; the mechanism and the
  payload chosen for the token are, by what PKCS#11 says of that mechanism, a signature
  of the scheme in the request over the digest of the caller's input; and that digest is what
  \<open>verification_digest\<close> recovers.
\<close>

theorem prepare_signs_what_was_asked:
  "(is_ok (prepare lib mechanism input) \<longleftrightarrow>
      signature_mechanism_of mechanism \<notin> {None, Some Unspecified}
      \<and> (case input of InputMessage _ \<Rightarrow> True | InputDigest d \<Rightarrow> length d = 32))
   \<and> (\<forall>op. prepare lib mechanism input = Ok op \<longrightarrow>
        (\<exists>scheme. signature_mechanism_of mechanism = Some scheme
           \<and> signs_digest (sha256 lib) (algorithm_mechanism (po_algorithm op)) (po_payload op) scheme
               (asked_digest (sha256 lib) input))
        \<and> verification_digest lib op = Ok (asked_digest (sha256 lib) input))"
proof (intro conjI allI impI)
  show "is_ok (prepare lib mechanism input) \<longleftrightarrow>
      signature_mechanism_of mechanism \<notin> {None, Some Unspecified}
      \<and> (case input of InputMessage _ \<Rightarrow> True | InputDigest d \<Rightarrow> length d = 32)"
    using is_ok_prepare [of lib mechanism input]
    by (simp add: well_formed_input_def sha256_len_def cong: signing_input.case_cong)
  fix op assume op: "prepare lib mechanism input = Ok op"
  then show "\<exists>scheme. signature_mechanism_of mechanism = Some scheme
      \<and> signs_digest (sha256 lib) (algorithm_mechanism (po_algorithm op)) (po_payload op) scheme (asked_digest (sha256 lib) input)"
    by (rule prepare_signs)
  have "well_formed_input mechanism input" using op is_ok_prepare [of lib mechanism input] by simp
  then show "verification_digest lib op = Ok (asked_digest (sha256 lib) input)"
    using prepare_verification_digest [OF op] by (cases input) (simp_all add: digest_of_def well_formed_input_def)
qed

text \<open>Byte strings as keys and a checksum as hash: a library to evaluate on.\<close>

definition sample_sha :: "bytes \<Rightarrow> bytes" where
  "sample_sha m = replicate 32 (sum_list m)"

definition sample_lib :: "(bytes, bytes, bytes) crypto_lib" where
  "sample_lib =
     \<lparr> sha256 = sample_sha,
       p256_from_public_key_der = (\<lambda>der. if der = [] then Err ''empty'' else Ok der),
       p256_from_sec1_bytes = (\<lambda>b. Ok b),
       p256_to_encoded_point = (\<lambda>k. k),
       p256_to_public_key_der = (\<lambda>k. Ok k),
       p256_verifying_key = (\<lambda>der. if der = [] then Err ''empty'' else Ok der),
       p256_signature = (\<lambda>s. if length s = 33 then Some s else None),
       p256_verify_prehash = (\<lambda>k d s. s = hd k # d),
       ring_verify = (\<lambda>k m s. s = hd k # sample_sha m),
       biguint_from_bytes_be = length,
       rsa_public_key = (\<lambda>n e. Ok [of_nat n, of_nat e]),
       rsa_to_public_key_der = (\<lambda>k. Ok k),
       rsa_from_public_key_der = (\<lambda>der. if der = [] then Err ''empty'' else Ok der),
       rsa_verify_pss = (\<lambda>k d s. s = 1 # hd k # d),
       rsa_verify_pkcs1v15 = (\<lambda>k d s. s = 2 # hd k # d) \<rparr>"

theorem prepare_signs_what_was_asked_witness:
  "signs_digest sample_sha MRsaPkcs (rfc8017_sha256_digest_info (replicate 32 7)) RsaPkcsSha256 (replicate 32 7)"
proof -
  have "prepare sample_lib 2 (InputDigest (replicate 32 7)) =
      Ok \<lparr> po_algorithm = RsaPkcs, po_payload = sha256_digest_info_prefix @ replicate 32 7 \<rparr>"
    by (simp add: prepare_def signature_mechanism_of_def check_digest_len_def sha256_len_def)
  then show ?thesis
    using prepare_signs_what_was_asked [of sample_lib 2 "InputDigest (replicate 32 7)"]
    by (auto simp: signature_mechanism_of_def sample_lib_def prefix_is_digest_info)
qed

section \<open>Pre-hashing does not change the answer\<close>

text \<open>
  What the in-process verifier relies on: SHA-256 digests have 32 bytes; \<open>ring\<close>'s fixed-format
  ECDSA over a message is \<open>p256\<close>'s ECDSA over its SHA-256 digest; and both \<open>p256\<close> types read the
  same keys.
\<close>

definition lib_laws :: "('k, 'sg, 'r) crypto_lib \<Rightarrow> bool" where
  "lib_laws lib \<longleftrightarrow>
     (\<forall>m. length (sha256 lib m) = 32)
     \<and> (\<forall>der. p256_verifying_key lib der = p256_from_public_key_der lib der)
     \<and> (\<forall>k m s. ring_verify lib (p256_to_encoded_point lib k) m s \<longleftrightarrow>
          (case p256_signature lib s of None \<Rightarrow> False
           | Some sg \<Rightarrow> p256_verify_prehash lib k (sha256 lib m) sg))"

lemma sample_lib_laws: "lib_laws sample_lib"
  by (auto simp: lib_laws_def sample_lib_def sample_sha_def)

lemma result_map_Ok_iff: "result_map f r = Ok y \<longleftrightarrow> (\<exists>x. r = Ok x \<and> y = f x)"
  by (cases r) auto

text \<open>
  Sending the digest instead of the message is only an optimisation: with libraries that
  do what they document, in-process verification gives the same answer for a message and for
  its SHA-256 digest, for every mechanism, key and signature.
\<close>

theorem verify_public_prehash:
  assumes "lib_laws lib"
  shows "verify_public lib spki mechanism (InputMessage m) sig = Ok b
     \<longleftrightarrow> verify_public lib spki mechanism (InputDigest (sha256 lib m)) sig = Ok b"
proof -
  have len: "length (sha256 lib m) = sha256_len"
    and key: "p256_verifying_key lib spki = p256_from_public_key_der lib spki"
    and ring: "\<And>k. ring_verify lib (p256_to_encoded_point lib k) m sig \<longleftrightarrow>
          (case p256_signature lib sig of None \<Rightarrow> False
           | Some sg \<Rightarrow> p256_verify_prehash lib k (sha256 lib m) sg)"
    using assms by (simp_all add: lib_laws_def sha256_len_def)
  have "verify_ecdsa_ring lib spki m sig = Ok b \<longleftrightarrow> verify_ecdsa_prehash lib spki (sha256 lib m) sig = Ok b"
    by (auto simp: verify_ecdsa_ring_def verify_ecdsa_prehash_def sec1_point_from_spki_def
        result_map_Ok_iff key ring)
  then show ?thesis
    by (cases mechanism rule: mechanism_cases) (simp_all add: verify_public_def digest_of_def len)
qed

theorem verify_public_prehash_witness:
  "lib_laws sample_lib
   \<and> verify_public sample_lib [9] 1 (InputDigest (replicate 32 5)) (9 # replicate 32 5) = Ok True"
proof -
  have hash: "sha256 sample_lib [2, 3] = replicate 32 5"
    by (simp add: sample_lib_def sample_sha_def)
  have "verify_public sample_lib [9] 1 (InputMessage [2, 3]) (9 # replicate 32 5) = Ok True"
    by (simp add: verify_public_def signature_mechanism_of_def verify_ecdsa_ring_def
        sec1_point_from_spki_def sample_lib_def sample_sha_def)
  then show ?thesis
    using verify_public_prehash [OF sample_lib_laws, of "[9]" 1 "[2, 3]" "9 # replicate 32 5" True]
    by (simp add: sample_lib_laws hash)
qed

section \<open>Unwrapping an EC point\<close>

text \<open>The DER \<open>OCTET STRING\<close> of fewer than 256 bytes, as a module encodes it.\<close>

definition der_octet_string :: "bytes \<Rightarrow> bytes" where
  "der_octet_string p =
     (if length p < 128 then [0x04, of_nat (length p)] @ p else [0x04, 0x81, of_nat (length p)] @ p)"

lemma unat_of_nat_u8: "n < 256 \<Longrightarrow> unat (of_nat n :: u8) = n"
  by (simp add: unsigned_of_nat take_bit_nat_eq_self)

lemma of_nat_u8_less: "n < 128 \<Longrightarrow> (of_nat n :: u8) < 128"
  by (simp add: word_less_nat_alt unat_of_nat_u8)

text \<open>
  C32. Unwrapping inverts the DER encoding for every point of fewer than 256 bytes, except the
  one length (63) at which the encoding is as long as a bare P-256 point and cannot be told
  from it; and a bare uncompressed P-256 point is returned as it is. The wrapped P-256 point
  of 65 bytes is among the former.
\<close>

theorem unwrap_der_round_trip:
  assumes "length p < 256"
  shows "(length p \<noteq> 63 \<longrightarrow> unwrap_der_octet_string (der_octet_string p) = Ok p)
       \<and> (length p = 65 \<and> hd p = 0x04 \<longrightarrow> unwrap_der_octet_string p = Ok p)"
proof (intro conjI impI)
  assume n: "length p \<noteq> 63"
  show "unwrap_der_octet_string (der_octet_string p) = Ok p"
  proof (cases "length p < 128")
    case True
    with n show ?thesis
      by (simp add: unwrap_der_octet_string_def der_octet_string_def of_nat_u8_less unat_of_nat_u8)
  next
    case False
    with assms show ?thesis
      by (simp add: unwrap_der_octet_string_def der_octet_string_def unat_of_nat_u8 numeral_3_eq_3)
  qed
next
  assume "length p = 65 \<and> hd p = 0x04"
  then show "unwrap_der_octet_string p = Ok p"
    by (cases p) (simp_all add: unwrap_der_octet_string_def)
qed

theorem unwrap_der_round_trip_witness:
  "unwrap_der_octet_string (der_octet_string (4 # replicate 64 9)) = Ok (4 # replicate 64 9)"
  using unwrap_der_round_trip [of "4 # replicate 64 9"] by simp

end
