(* ===== verification/Token_Session.thy ===== *)
theory Token_Session
  imports Cryptoki
begin

text \<open>
  Opening, authenticating to and searching a token, \<open>pkcs11/session.rs\<close>. Values that go out
  of scope on an early return are dropped: a session is closed and the module context is
  finalised, exactly where the code drops them.
\<close>

section \<open>Trimming text\<close>

text \<open>
  \<open>str::trim\<close> removes leading and trailing characters with the Unicode property
  \<open>White_Space\<close>. Text is UTF-8, so the characters are given by their encodings; no encoding
  is a prefix of another.
\<close>

definition white_space :: "string list" where
  "white_space =
     [[CHR 0x09], [CHR 0x0A], [CHR 0x0B], [CHR 0x0C], [CHR 0x0D], [CHR 0x20], [CHR 0xC2, CHR 0x85],
      [CHR 0xC2, CHR 0xA0], [CHR 0xE1, CHR 0x9A, CHR 0x80], [CHR 0xE2, CHR 0x80, CHR 0x80],
      [CHR 0xE2, CHR 0x80, CHR 0x81], [CHR 0xE2, CHR 0x80, CHR 0x82], [CHR 0xE2, CHR 0x80, CHR 0x83],
      [CHR 0xE2, CHR 0x80, CHR 0x84], [CHR 0xE2, CHR 0x80, CHR 0x85], [CHR 0xE2, CHR 0x80, CHR 0x86],
      [CHR 0xE2, CHR 0x80, CHR 0x87], [CHR 0xE2, CHR 0x80, CHR 0x88], [CHR 0xE2, CHR 0x80, CHR 0x89],
      [CHR 0xE2, CHR 0x80, CHR 0x8A], [CHR 0xE2, CHR 0x80, CHR 0xA8], [CHR 0xE2, CHR 0x80, CHR 0xA9],
      [CHR 0xE2, CHR 0x80, CHR 0xAF], [CHR 0xE2, CHR 0x81, CHR 0x9F], [CHR 0xE3, CHR 0x80, CHR 0x80]]"

definition strip_prefix :: "string list \<Rightarrow> string \<Rightarrow> string option" where
  "strip_prefix ps s =
     (case filter (\<lambda>p. p \<noteq> [] \<and> take (length p) s = p) ps of
        [] \<Rightarrow> None
      | p # _ \<Rightarrow> Some (drop (length p) s))"

lemma strip_prefix_shorter: "strip_prefix ps s = Some t \<Longrightarrow> length t < length s"
  by (cases s) (auto simp: strip_prefix_def filter_eq_Cons_iff split: list.splits)

function trim_left :: "string list \<Rightarrow> string \<Rightarrow> string" where
  "trim_left ps s = (case strip_prefix ps s of None \<Rightarrow> s | Some t \<Rightarrow> trim_left ps t)"
  by pat_completeness auto

termination
  by (relation "measure (\<lambda>(ps, s). length s)") (auto simp: strip_prefix_shorter)

declare trim_left.simps [simp del]

lemma trim_left_stop: "strip_prefix ps s = None \<Longrightarrow> trim_left ps s = s"
  by (subst trim_left.simps) simp

lemma trim_left_skip: "strip_prefix ps s = Some t \<Longrightarrow> trim_left ps s = trim_left ps t"
  by (subst trim_left.simps) simp

definition trim :: "string \<Rightarrow> string" where
  "trim s = rev (trim_left (map rev white_space) (rev (trim_left white_space s)))"

section \<open>Configuration\<close>

record token_config =
  tc_module_path :: string
  tc_token_label :: string
  tc_user_pin :: string

text \<open>The fields the \<open>Debug\<close> implementation prints.\<close>

definition token_config_debug :: "token_config \<Rightarrow> (string \<times> string) list" where
  "token_config_debug config =
     [(''module_path'', tc_module_path config), (''token_label'', tc_token_label config),
      (''user_pin'', ''<redacted>'')]"

definition token_config_from_env :: "environ \<Rightarrow> (token_config, failure) result" where
  "token_config_from_env env =
     result_map
       (\<lambda>pin. \<lparr> tc_module_path = unwrap_or ''/usr/lib/softhsm/libsofthsm2.so'' (env ''PKCS11_MODULE''),
                tc_token_label = unwrap_or ''grpc-low-latency'' (env ''TOKEN_LABEL''),
                tc_user_pin = pin \<rparr>)
       (with_context ''USER_PIN is not set; refusing to guess a PIN''
          (ok_or (anyhow_msg ''environment variable not found'') (env ''USER_PIN'')))"

section \<open>Module and sessions\<close>

text \<open>\<open>Iterator::find\<close> over the slots: the labels are read in order until one matches.\<close>

fun find_slot :: "'w cryptoki \<Rightarrow> string \<Rightarrow> slot list \<Rightarrow> 'w \<Rightarrow> slot option \<times> 'w" where
  "find_slot ck label [] w = (None, w)"
| "find_slot ck label (slot # slots) w =
     (case ck_token_label ck slot w of
        (Ok l, w1) \<Rightarrow> if trim l = label then (Some slot, w1) else find_slot ck label slots w1
      | (Err _, w1) \<Rightarrow> find_slot ck label slots w1)"

text \<open>Run after a failure: drop a value that was in scope.\<close>

definition on_error :: "('w \<Rightarrow> 'w) \<Rightarrow> ('w, 'a, 'e) io \<Rightarrow> ('w, 'a, 'e) io" where
  "on_error cleanup m = (\<lambda>w. case m w of (Ok x, w1) \<Rightarrow> (Ok x, w1) | (Err e, w1) \<Rightarrow> (Err e, cleanup w1))"

definition locate_slot :: "'w cryptoki \<Rightarrow> string \<Rightarrow> ('w, slot, failure) io" where
  "locate_slot ck label =
     io_bind (io_result (ck_context ''C_GetSlotList failed'') (ck_get_slots_with_token ck))
       (\<lambda>slots w.
          let (found, w1) = find_slot ck label slots w in
          (ok_or (anyhow_msg (''no slot holds a token labelled '' @ quote @ label @ quote
                     @ ''; has softhsm-init run?'')) found, w1))"

definition load_module :: "'w cryptoki \<Rightarrow> token_config \<Rightarrow> ('w, slot, failure) io" where
  "load_module ck config =
     io_bind (io_result (ck_context (''failed to load PKCS#11 module '' @ tc_module_path config))
                (ck_new ck (tc_module_path config)))
       (\<lambda>_. on_error (ck_drop_context ck)
          (io_bind (io_result (ck_context ''C_Initialize(CKF_OS_LOCKING_OK) failed'') (ck_initialize ck))
             (\<lambda>_. locate_slot ck (tc_token_label config))))"

definition login_session :: "'w cryptoki \<Rightarrow> slot \<Rightarrow> token_config \<Rightarrow> ('w, session, failure) io" where
  "login_session ck slot config =
     io_bind (io_result (ck_context ''C_OpenSession(CKF_RW_SESSION) failed'') (ck_open_rw_session ck slot))
       (\<lambda>session. on_error (ck_drop_session ck session)
          (io_bind (io_result (ck_context ''C_Login(CKU_USER) failed -- wrong USER_PIN?'')
                      (ck_login ck session (tc_user_pin config)))
             (\<lambda>_. io_return session)))"

definition open_token :: "'w cryptoki \<Rightarrow> token_config \<Rightarrow> ('w, slot \<times> session, failure) io" where
  "open_token ck config =
     io_bind (load_module ck config)
       (\<lambda>slot. on_error (ck_drop_context ck)
          (io_bind (login_session ck slot config) (\<lambda>session. io_return (slot, session))))"

section \<open>Searching\<close>

definition find_object ::
    "'w cryptoki \<Rightarrow> session \<Rightarrow> object_class \<Rightarrow> string \<Rightarrow> ('w, object_handle option, failure) io" where
  "find_object ck session class label =
     io_result (result_map (\<lambda>hs. case hs of [] \<Rightarrow> None | h # _ \<Rightarrow> Some h))
       (io_result (ck_context ''C_FindObjects failed'')
          (ck_find_objects ck session [AClass class, ALabel (as_bytes label)]))"

definition find_object_pair ::
    "'w cryptoki \<Rightarrow> session \<Rightarrow> string \<Rightarrow> ('w, (object_handle \<times> object_handle) option, failure) io" where
  "find_object_pair ck session label =
     io_bind (find_object ck session PRIVATE_KEY label)
       (\<lambda>private. io_bind (find_object ck session PUBLIC_KEY label)
          (\<lambda>public. io_return
             (case (private, public) of (Some p, Some q) \<Rightarrow> Some (p, q) | _ \<Rightarrow> None)))"

end
