(* ===== verification/Jobs.thy ===== *)
theory Jobs
  imports Crypto Token_Session
begin

text \<open>
  The unit of work handed to a pool worker, the errors that cross the pool boundary and the
  pool counters: \<open>pkcs11/job.rs\<close>, \<open>pkcs11/errors.rs\<close>, \<open>pkcs11/metrics.rs\<close>.
\<close>

section \<open>Errors\<close>

datatype pool_error =
    KeyNotFound string
  | InvalidRequest string
  | Overloaded
  | Timeout
  | ShuttingDown
  | Hsm string ck_error
  | InternalError string

fun show_pool_error :: "'w cryptoki \<Rightarrow> pool_error \<Rightarrow> string" where
  "show_pool_error ck (KeyNotFound label) = ''no key labelled '' @ quote @ label @ quote @ '' on the token''"
| "show_pool_error ck (InvalidRequest m) = ''invalid request: '' @ m"
| "show_pool_error ck Overloaded = ''overloaded: the request queue is full''"
| "show_pool_error ck Timeout = ''timed out waiting for a worker''"
| "show_pool_error ck ShuttingDown = ''the worker pool is shutting down''"
| "show_pool_error ck (Hsm operation source) = operation @ '' failed: '' @ ck_show_error ck source"
| "show_pool_error ck (InternalError m) = m"

fun is_session_fatal :: "ck_error \<Rightarrow> bool" where
  "is_session_fatal (Pkcs11 rv _) \<longleftrightarrow>
     rv \<in> {SessionHandleInvalid, SessionClosed, DeviceError, DeviceRemoved, TokenNotPresent, UserNotLoggedIn}"
| "is_session_fatal (OtherError _) \<longleftrightarrow> False"

section \<open>Jobs\<close>

datatype key_kind = PrivateKind | PublicKind | SecretKind

datatype job_request =
    JobSign string sign_algorithm bytes
  | JobVerify string sign_algorithm bytes bytes
  | JobEncrypt string bytes bytes bytes
  | JobDecrypt string bytes bytes bytes
  | JobGetPublicKey string

fun job_operation :: "job_request \<Rightarrow> string" where
  "job_operation (JobSign _ _ _) = ''sign''"
| "job_operation (JobVerify _ _ _ _) = ''verify''"
| "job_operation (JobEncrypt _ _ _ _) = ''encrypt''"
| "job_operation (JobDecrypt _ _ _ _) = ''decrypt''"
| "job_operation (JobGetPublicKey _) = ''get_public_key''"

datatype job_response =
    Signature bytes
  | Verified bool
  | Ciphertext bytes
  | Plaintext bytes
  | PublicKey bytes string

text \<open>A responder is the identity of the one-shot channel the caller waits on.\<close>

record job =
  jb_request :: job_request
  jb_responder :: nat
  jb_enqueued_at :: instant

section \<open>Counters\<close>

record pool_metrics =
  pm_jobs_submitted :: u64
  pm_jobs_completed :: u64
  pm_jobs_failed :: u64
  pm_jobs_rejected_queue_full :: u64
  pm_jobs_timed_out :: u64
  pm_queue_wait_nanos_total :: u64
  pm_service_nanos_total :: u64
  pm_session_resets :: u64
  pm_handle_cache_hits :: u64
  pm_handle_cache_misses :: u64

definition pool_metrics_default :: pool_metrics where
  "pool_metrics_default =
     \<lparr> pm_jobs_submitted = 0, pm_jobs_completed = 0, pm_jobs_failed = 0,
       pm_jobs_rejected_queue_full = 0, pm_jobs_timed_out = 0, pm_queue_wait_nanos_total = 0,
       pm_service_nanos_total = 0, pm_session_resets = 0, pm_handle_cache_hits = 0,
       pm_handle_cache_misses = 0 \<rparr>"

definition mean_queue_wait_micros :: "pool_metrics \<Rightarrow> u64" where
  "mean_queue_wait_micros m =
     (if pm_jobs_completed m = 0 then 0
      else pm_queue_wait_nanos_total m div pm_jobs_completed m div 1000)"

definition mean_service_micros :: "pool_metrics \<Rightarrow> u64" where
  "mean_service_micros m =
     (if pm_jobs_completed m = 0 then 0
      else pm_service_nanos_total m div pm_jobs_completed m div 1000)"

end
