(* ===== verification/F64.thy ===== *)
theory F64
  imports Complex_Main "HOL-Library.Log_Nat" Hsm_Prelude
begin

text \<open>
  The part of \<open>f64\<close> arithmetic the programs use: conversion of a \<open>u64\<close>, addition,
  multiplication, division and comparison, with IEEE rounding to nearest, ties to even. A finite value is kept as the
  rational it denotes; the two zeros are identified, since no number the code divides by or prints
  is ever negative. Rounding is computed, so that every use of it evaluates.
\<close>

section \<open>Rounding\<close>

text \<open>The exponent of the binade of a positive rational: \<open>2\<^sup>k \<le> q < 2\<^sup>k\<^sup>+\<^sup>1\<close>.\<close>

definition ilog2 :: "rat \<Rightarrow> int" where
  "ilog2 q =
     (let (n, d) = quotient_of q; k = bitlen n - bitlen d
      in if 2 powi k \<le> q then k else k - 1)"

definition round_half_even :: "rat \<Rightarrow> int" where
  "round_half_even q =
     (let r = \<lfloor>q\<rfloor>; f = q - of_int r
      in if f < 1/2 then r else if f > 1/2 then r + 1 else if even r then r else r + 1)"

text \<open>
  The exponent of the last significand bit: 52 below the binade, but never below that of the
  smallest subnormal number.
\<close>

definition ulp_exp :: "rat \<Rightarrow> int" where
  "ulp_exp q = max (ilog2 q - 52) (- 1074)"

definition rnd :: "rat \<Rightarrow> rat" where
  "rnd q =
     (if q = 0 then 0
      else of_int (round_half_even (q / 2 powi ulp_exp q)) * 2 powi ulp_exp q)"

datatype f64 = NaN | Inf bool | Fin rat

text \<open>\<open>Inf True\<close> is negative infinity. A magnitude of at least \<open>2\<^sup>1\<^sup>0\<^sup>2\<^sup>4\<close> overflows.\<close>

definition f64_of_rat :: "rat \<Rightarrow> f64" where
  "f64_of_rat q =
     (let v = (if q < 0 then - rnd (- q) else rnd q)
      in if \<bar>v\<bar> \<ge> 2 powi 1024 then Inf (q < 0) else Fin v)"

definition u64_as_f64 :: "u64 \<Rightarrow> f64" where
  "u64_as_f64 n = f64_of_rat (of_nat (unat n))"

text \<open>Division, for a divisor that may be zero and operands that may be special.\<close>

fun f64_div :: "f64 \<Rightarrow> f64 \<Rightarrow> f64" where
  "f64_div (Fin a) (Fin b) =
     (if b = 0 then (if a = 0 then NaN else Inf (a < 0)) else f64_of_rat (a / b))"
| "f64_div (Fin a) (Inf s) = Fin 0"
| "f64_div (Inf s) (Fin b) = Inf (s \<noteq> (b < 0))"
| "f64_div _ _ = NaN"

fun f64_add :: "f64 \<Rightarrow> f64 \<Rightarrow> f64" where
  "f64_add (Fin a) (Fin b) = f64_of_rat (a + b)"
| "f64_add (Inf s) (Fin b) = Inf s"
| "f64_add (Fin a) (Inf s) = Inf s"
| "f64_add (Inf s) (Inf t) = (if s = t then Inf s else NaN)"
| "f64_add _ _ = NaN"

fun f64_mul :: "f64 \<Rightarrow> f64 \<Rightarrow> f64" where
  "f64_mul (Fin a) (Fin b) = f64_of_rat (a * b)"
| "f64_mul (Inf s) (Fin b) = (if b = 0 then NaN else Inf (s \<noteq> (b < 0)))"
| "f64_mul (Fin a) (Inf s) = (if a = 0 then NaN else Inf (s \<noteq> (a < 0)))"
| "f64_mul (Inf s) (Inf t) = Inf (s \<noteq> t)"
| "f64_mul _ _ = NaN"

text \<open>\<open>a >= b\<close> is false as soon as one side is not a number.\<close>

fun f64_ge :: "f64 \<Rightarrow> f64 \<Rightarrow> bool" where
  "f64_ge (Fin a) (Fin b) \<longleftrightarrow> a \<ge> b"
| "f64_ge (Inf s) (Inf t) \<longleftrightarrow> s \<longrightarrow> t"
| "f64_ge (Inf s) (Fin b) \<longleftrightarrow> \<not> s"
| "f64_ge (Fin a) (Inf t) \<longleftrightarrow> t"
| "f64_ge _ _ \<longleftrightarrow> False"

fun f64_eq :: "f64 \<Rightarrow> f64 \<Rightarrow> bool" where
  "f64_eq NaN _ \<longleftrightarrow> False"
| "f64_eq _ NaN \<longleftrightarrow> False"
| "f64_eq a b \<longleftrightarrow> a = b"

section \<open>Reading a number from text\<close>

text \<open>
  \<open>f64::from_str\<close>: an optional sign, then \<open>inf\<close>, \<open>infinity\<close> or \<open>nan\<close> in any case, or
  decimal digits with an optional point and an optional exponent; the value is the exact
  decimal, rounded once.
\<close>

definition to_ascii_lowercase :: "string \<Rightarrow> string" where
  "to_ascii_lowercase s =
     map (\<lambda>c. if 65 \<le> (of_char c :: nat) \<and> (of_char c :: nat) \<le> 90
               then char_of ((of_char c :: nat) + 32) else c) s"

definition split_sign :: "string \<Rightarrow> bool \<times> string" where
  "split_sign s =
     (case s of [] \<Rightarrow> (False, [])
      | c # cs \<Rightarrow> if c = CHR ''-'' then (True, cs)
                  else if c = CHR ''+'' then (False, cs) else (False, s))"

definition parse_exponent :: "string \<Rightarrow> int option" where
  "parse_exponent s =
     (case s of [] \<Rightarrow> Some 0
      | c # cs \<Rightarrow>
          if c = CHR ''e'' \<or> c = CHR ''E'' then
            (let (neg, ds) = split_sign cs in
             if ds \<noteq> [] \<and> list_all is_digit ds
             then Some (if neg then - int (dec_val 0 ds) else int (dec_val 0 ds)) else None)
          else None)"

definition parse_decimal :: "string \<Rightarrow> rat option" where
  "parse_decimal s =
     (let ip = takeWhile is_digit s; r = dropWhile is_digit s;
          pt = r \<noteq> [] \<and> hd r = CHR ''.'';
          fp = (if pt then takeWhile is_digit (tl r) else []);
          r' = (if pt then dropWhile is_digit (tl r) else r)
      in if ip = [] \<and> fp = [] then None
         else map_option (\<lambda>e. of_nat (dec_val 0 (ip @ fp)) * 10 powi (e - int (length fp)))
                (parse_exponent r'))"

definition parse_f64 :: "string \<Rightarrow> f64 option" where
  "parse_f64 s =
     (let (neg, t) = split_sign s; l = to_ascii_lowercase t in
      if l = ''nan'' then Some NaN
      else if l = ''inf'' \<or> l = ''infinity'' then Some (Inf neg)
      else map_option (\<lambda>q. f64_of_rat (if neg then - q else q)) (parse_decimal t))"

section \<open>Rounding is monotone and keeps representable values\<close>

lemma powi_split:
  assumes "k = k1 + k2"
  shows "(2::rat) powi k = 2 powi k1 * 2 powi k2"
  using assms by (simp add: power_int_add)

lemma powi_pos [simp]: "0 < (2::rat) powi k"
  by (simp add: zero_less_power_int)

lemma powi_of_int: "0 \<le> k \<Longrightarrow> (2::rat) powi k = of_int (2 ^ nat k)"
  by (simp add: power_int_def)

lemma bitlen_powi:
  assumes "0 < n"
  shows "2 powi (bitlen n - 1) \<le> (of_int n :: rat)" and "(of_int n :: rat) < 2 powi bitlen n"
proof -
  have pos: "0 < bitlen n" using assms by (simp add: bitlen_alt_def)
  have "of_int (2 ^ nat (bitlen n - 1)) \<le> (of_int n :: rat)"
    using bitlen_bounds [OF assms] by (simp only: of_int_le_iff)
  then show "2 powi (bitlen n - 1) \<le> (of_int n :: rat)"
    using pos by (simp only: powi_of_int)
  have "(of_int n :: rat) < of_int (2 ^ nat (bitlen n))"
    using bitlen_bounds [OF assms] by (simp only: of_int_less_iff)
  then show "(of_int n :: rat) < 2 powi bitlen n"
    using pos by (simp only: powi_of_int)
qed

lemma ilog2_bounds:
  assumes "0 < q"
  shows "2 powi ilog2 q \<le> q" and "q < 2 powi (ilog2 q + 1)"
proof -
  obtain n d where nd: "quotient_of q = (n, d)" by (cases "quotient_of q")
  then have d: "0 < d" and q: "q = of_int n / of_int d"
    by (auto dest: quotient_of_denom_pos quotient_of_div)
  with assms have n: "0 < n" by (simp add: zero_less_divide_iff)
  define a where "a = bitlen n"
  define b where "b = bitlen d"
  have ln: "2 powi (a - 1) \<le> (of_int n :: rat)" and un: "(of_int n :: rat) < 2 powi a"
    using bitlen_powi [OF n] by (simp_all add: a_def)
  have ld: "2 powi (b - 1) \<le> (of_int d :: rat)" and ud: "(of_int d :: rat) < 2 powi b"
    using bitlen_powi [OF d] by (simp_all add: b_def)
  have dq: "0 < (of_int d :: rat)" using d by simp
  have up: "q < 2 powi (a - b + 1)"
  proof -
    have "(of_int n :: rat) < 2 powi (a - b + 1) * 2 powi (b - 1)"
      using un by (simp add: powi_split [of a "a - b + 1" "b - 1"])
    also have "\<dots> \<le> 2 powi (a - b + 1) * of_int d"
      using ld by simp
    finally show ?thesis using dq by (simp add: q field_simps)
  qed
  have low: "2 powi (a - b - 1) \<le> q"
  proof -
    have "2 powi (a - b - 1) * of_int d \<le> (2 powi (a - b - 1) * 2 powi b :: rat)"
      using ud by simp
    also have "\<dots> = 2 powi (a - 1)"
      by (simp add: powi_split [of "a - 1" "a - b - 1" b])
    also have "\<dots> \<le> of_int n" by (rule ln)
    finally show ?thesis using dq by (simp add: q field_simps)
  qed
  show "2 powi ilog2 q \<le> q" "q < 2 powi (ilog2 q + 1)"
    using up low by (auto simp: ilog2_def nd Let_def a_def [symmetric] b_def [symmetric])
qed

lemma ilog2_mono:
  assumes "0 < p" "p \<le> q"
  shows "ilog2 p \<le> ilog2 q"
proof (rule ccontr)
  assume "\<not> ?thesis"
  then have "ilog2 q + 1 \<le> ilog2 p" by simp
  then have "(2::rat) powi (ilog2 q + 1) \<le> 2 powi ilog2 p"
    by (rule power_int_increasing) simp
  moreover have "2 powi ilog2 p \<le> p" and "q < 2 powi (ilog2 q + 1)"
    using assms by (auto intro: ilog2_bounds)
  ultimately show False using assms by simp
qed

lemma round_half_even_mono: "p \<le> q \<Longrightarrow> round_half_even p \<le> round_half_even q"
proof -
  assume pq: "p \<le> q"
  then have fl: "\<lfloor>p\<rfloor> \<le> \<lfloor>q\<rfloor>" by (rule floor_mono)
  show ?thesis
  proof (cases "\<lfloor>p\<rfloor> = \<lfloor>q\<rfloor>")
    case True
    with pq show ?thesis by (auto simp: round_half_even_def Let_def)
  next
    case False
    with fl have "\<lfloor>p\<rfloor> + 1 \<le> \<lfloor>q\<rfloor>" by simp
    then show ?thesis by (auto simp: round_half_even_def Let_def)
  qed
qed

lemma round_half_even_of_int [simp]: "round_half_even (of_int k) = k"
  by (simp add: round_half_even_def)

lemma round_half_even_error: "\<bar>of_int (round_half_even x) - x\<bar> \<le> 1 / 2"
proof -
  have "of_int \<lfloor>x\<rfloor> \<le> x" "x < of_int \<lfloor>x\<rfloor> + 1" by linarith+
  then show ?thesis unfolding round_half_even_def Let_def abs_le_iff by (simp split: if_split) linarith
qed

lemma round_half_even_le: "x \<le> of_int k \<Longrightarrow> (of_int (round_half_even x) :: rat) \<le> of_int k"
  using round_half_even_mono [of x "of_int k"] by (simp only: round_half_even_of_int of_int_le_iff)

lemma round_half_even_ge: "of_int k \<le> x \<Longrightarrow> (of_int k :: rat) \<le> of_int (round_half_even x)"
  using round_half_even_mono [of "of_int k" x] by (simp only: round_half_even_of_int of_int_le_iff)

lemma rnd_pos_def: "0 < q \<Longrightarrow> rnd q = of_int (round_half_even (q / 2 powi ulp_exp q)) * 2 powi ulp_exp q"
  by (simp add: rnd_def)

lemma rnd_mono:
  assumes "0 \<le> p" "p \<le> q"
  shows "rnd p \<le> rnd q"
proof (cases "p = 0")
  case True
  have "(of_int 0 :: rat) \<le> of_int (round_half_even (q / 2 powi ulp_exp q))"
    using assms by (intro round_half_even_ge) (simp add: less_imp_le)
  with True assms show ?thesis by (simp add: rnd_def less_imp_le)
next
  case False
  with assms have p: "0 < p" and q: "0 < q" by simp_all
  define e where "e = ulp_exp p"
  define e' where "e' = ulp_exp q"
  have le: "e \<le> e'"
    using ilog2_mono [OF p assms(2)] by (simp add: e_def e'_def ulp_exp_def)
  show ?thesis
  proof (cases "e = e'")
    case True
    have "p / 2 powi e \<le> q / 2 powi e"
      using assms(2) by (simp add: divide_right_mono less_imp_le)
    then have "round_half_even (p / 2 powi e) \<le> round_half_even (q / 2 powi e)"
      by (rule round_half_even_mono)
    with True show ?thesis
      by (simp add: rnd_pos_def [OF p] rnd_pos_def [OF q] e_def e'_def)
  next
    case False
    with le have lt: "e < e'" by simp
    then have e': "e' = ilog2 q - 52" and lp: "ilog2 p + 1 \<le> e' + 52"
      by (auto simp: e_def e'_def ulp_exp_def)
    have "p < 2 powi (ilog2 p + 1)" by (rule ilog2_bounds [OF p])
    also have "(2::rat) powi (ilog2 p + 1) \<le> 2 powi (e' + 52)"
      using lp by (intro power_int_increasing) simp_all
    finally have "p / 2 powi e \<le> 2 powi (e' + 52) / 2 powi e"
      by (simp add: divide_right_mono less_imp_le)
    also have "\<dots> = of_int (2 ^ nat (e' + 52 - e))"
      using lt by (simp add: power_int_diff [symmetric] powi_of_int)
    finally have "of_int (round_half_even (p / 2 powi e)) \<le> (of_int (2 ^ nat (e' + 52 - e)) :: rat)"
      by (rule round_half_even_le)
    also have "\<dots> = 2 powi (e' + 52 - e)"
      using lt by (simp add: powi_of_int)
    finally have "of_int (round_half_even (p / 2 powi e)) \<le> (2 powi (e' + 52 - e) :: rat)" .
    then have "rnd p \<le> 2 powi (e' + 52 - e) * 2 powi e"
      by (simp add: rnd_pos_def [OF p] e_def [symmetric])
    also have "\<dots> = 2 powi (e' + 52)"
      by (simp add: powi_split [of "e' + 52" "e' + 52 - e" e])
    also have "\<dots> \<le> rnd q"
    proof -
      have "2 powi (e' + 52) \<le> q" using ilog2_bounds(1) [OF q] e' by simp
      then have "2 powi (e' + 52) / 2 powi e' \<le> q / 2 powi e'"
        by (simp add: divide_right_mono less_imp_le)
      moreover have "(2::rat) powi (e' + 52) / 2 powi e' = of_int (2 ^ 52)"
        by (simp add: powi_split [of "e' + 52" e' 52])
      ultimately have "(of_int (2 ^ 52) :: rat) \<le> of_int (round_half_even (q / 2 powi e'))"
        by (intro round_half_even_ge) simp
      then have "(2 ^ 52 :: rat) \<le> of_int (round_half_even (q / 2 powi e'))"
        by simp
      then have "(2 ^ 52 :: rat) * 2 powi e' \<le> of_int (round_half_even (q / 2 powi e')) * 2 powi e'"
        by (rule mult_right_mono) (simp add: less_imp_le)
      then show ?thesis
        by (simp add: rnd_pos_def [OF q] e'_def [symmetric] powi_split [of "e' + 52" 52 e'])
    qed
    finally show ?thesis .
  qed
qed

lemma rnd_zero [simp]: "rnd 0 = 0"
  by (simp add: rnd_def)

lemma rnd_representable:
  assumes "0 \<le> m" "m < 2 ^ 53" "- 1074 \<le> e"
  shows "rnd (of_int m * 2 powi e) = of_int m * 2 powi e"
proof (cases "m = 0")
  case True
  then show ?thesis by simp
next
  case False
  define q :: rat where "q = of_int m * 2 powi e"
  from False assms have q: "0 < q" by (simp add: q_def)
  have le: "ulp_exp q \<le> e"
  proof (rule ccontr)
    assume "\<not> ?thesis"
    with assms have "e + 53 \<le> ilog2 q" by (auto simp: ulp_exp_def)
    then have "(2::rat) powi (e + 53) \<le> 2 powi ilog2 q"
      by (rule power_int_increasing) simp
    also have "\<dots> \<le> q" by (rule ilog2_bounds [OF q])
    finally have "(2::rat) powi (53 + e) \<le> of_int m * 2 powi e" by (simp add: q_def add.commute)
    then have "(2::rat) ^ 53 \<le> of_int m"
      by (simp add: powi_split [of "53 + e" 53 e])
    then have "(of_int (2 ^ 53) :: rat) \<le> of_int m" by simp
    with assms show False by (simp only: of_int_le_iff)
  qed
  have "q / 2 powi ulp_exp q = of_int m * (2 powi e / 2 powi ulp_exp q)"
    by (simp add: q_def)
  also have "2 powi e / 2 powi ulp_exp q = (of_int (2 ^ nat (e - ulp_exp q)) :: rat)"
    using le by (simp add: power_int_diff [symmetric] powi_of_int)
  finally have "q / 2 powi ulp_exp q = of_int (m * 2 ^ nat (e - ulp_exp q))" by simp
  then have "round_half_even (q / 2 powi ulp_exp q) = m * 2 ^ nat (e - ulp_exp q)"
    by (simp only: round_half_even_of_int)
  then have "rnd q = of_int (m * 2 ^ nat (e - ulp_exp q)) * 2 powi ulp_exp q"
    by (simp only: rnd_pos_def [OF q])
  also have "\<dots> = q"
    using \<open>q / 2 powi ulp_exp q = of_int (m * 2 ^ nat (e - ulp_exp q))\<close> [symmetric] by simp
  finally show ?thesis by (simp add: q_def)
qed

lemma rnd_nat: "n < 2 ^ 53 \<Longrightarrow> rnd (of_nat n) = of_nat n"
  using rnd_representable [of "int n" 0] by simp

lemma rnd_one [simp]: "rnd 1 = 1"
  using rnd_nat [of 1] by simp

lemma f64_of_rat_unit:
  assumes "0 \<le> q" "q \<le> 1"
  shows "f64_of_rat q = Fin (rnd q)"
proof -
  have "rnd q \<le> 1" and "0 \<le> rnd q"
    using rnd_mono [of q 1] rnd_mono [of 0 q] assms by simp_all
  moreover have "(1::rat) < 2 powi 1024" by (simp add: power_int_def)
  ultimately show ?thesis using assms by (simp add: f64_of_rat_def Let_def)
qed

lemma f64_of_rat_nat:
  assumes "k < 2 ^ 53"
  shows "f64_of_rat (of_nat k) = Fin (of_nat k)"
proof -
  have "(of_nat k :: rat) < of_nat (2 ^ 53)"
    using assms by (simp only: of_nat_less_iff)
  also have "(of_nat (2 ^ 53) :: rat) < 2 powi 1024" by (simp add: power_int_def)
  finally show ?thesis
    using assms by (simp add: f64_of_rat_def Let_def rnd_nat)
qed

lemma u64_as_f64_exact: "unat n < 2 ^ 53 \<Longrightarrow> u64_as_f64 n = Fin (of_nat (unat n))"
  unfolding u64_as_f64_def by (rule f64_of_rat_nat)

text \<open>A rounded value is a small integer times a power of two, so rounding again does nothing.\<close>

lemma rnd_form:
  assumes "0 < q"
  obtains m e where "rnd q = of_int m * 2 powi e" "0 \<le> m" "m \<le> 2 ^ 53" "- 1074 \<le> e"
proof -
  define e where "e = ulp_exp q"
  define m where "m = round_half_even (q / 2 powi e)"
  have le: "ilog2 q + 1 \<le> e + 53" "- 1074 \<le> e" by (simp_all add: e_def ulp_exp_def)
  have "q < 2 powi (ilog2 q + 1)" by (rule ilog2_bounds [OF assms])
  also have "(2::rat) powi (ilog2 q + 1) \<le> 2 powi (e + 53)" using le by (intro power_int_increasing) simp_all
  finally have "q / 2 powi e \<le> 2 powi (e + 53) / 2 powi e" by (simp add: divide_right_mono less_imp_le)
  also have "\<dots> = of_int (2 ^ 53)" by (simp add: powi_split [of "e + 53" e 53])
  finally have "(of_int m :: rat) \<le> of_int (2 ^ 53)" unfolding m_def by (rule round_half_even_le)
  then have "m \<le> 2 ^ 53" by (simp only: of_int_le_iff)
  moreover have "(of_int 0 :: rat) \<le> of_int m"
    unfolding m_def using assms by (intro round_half_even_ge) (simp add: less_imp_le)
  ultimately show thesis using that [of m e] le by (simp add: rnd_pos_def [OF assms] m_def e_def)
qed

lemma rnd_nonneg [simp]: "0 \<le> q \<Longrightarrow> 0 \<le> rnd q"
  using rnd_mono [of 0 q] by simp

lemma rnd_idem:
  assumes "0 \<le> q"
  shows "rnd (rnd q) = rnd q"
proof (cases "q = 0")
  case False
  with assms obtain m e where f: "rnd q = of_int m * 2 powi e" "0 \<le> m" "m \<le> 2 ^ 53" "- 1074 \<le> e"
    using rnd_form [of q] by auto
  show ?thesis
  proof (cases "m = 2 ^ 53")
    case True
    then have "rnd q = of_int 1 * 2 powi (e + 53)" by (simp add: f(1) powi_split [of "e + 53" e 53])
    then show ?thesis using rnd_representable [of 1 "e + 53"] f(4) by simp
  next
    case False
    then show ?thesis using rnd_representable [of m e] f by simp
  qed
qed simp

lemma f64_of_rat_finite:
  assumes "0 \<le> q" "q \<le> 2 ^ 70"
  shows "f64_of_rat q = Fin (rnd q)"
proof -
  have "rnd q \<le> rnd (2 ^ 70)" using rnd_mono assms by blast
  also have "rnd (2 ^ 70) = 2 ^ 70" using rnd_representable [of 1 70] by simp
  also have "(2::rat) ^ 70 < 2 powi 1024" by (simp add: power_int_def)
  finally show ?thesis using assms by (simp add: f64_of_rat_def Let_def abs_of_nonneg)
qed

lemma u64_as_f64_finite:
  obtains q where "u64_as_f64 n = Fin q" "0 \<le> q" "q \<le> 2 ^ 64" "rnd q = q"
proof -
  define k where "k = unat n"
  have "(of_nat k :: rat) \<le> of_nat (2 ^ 64)" using unat_u64_bound [of n] unfolding k_def by (intro of_nat_mono) simp
  then have b: "(of_nat k :: rat) \<le> 2 ^ 64" by simp
  also have "(2::rat) ^ 64 \<le> 2 ^ 70" by simp
  finally have "u64_as_f64 n = Fin (rnd (of_nat k))"
    unfolding u64_as_f64_def k_def [symmetric] by (intro f64_of_rat_finite) simp_all
  moreover have "rnd (of_nat k) \<le> 2 ^ 64"
    using rnd_mono [of "of_nat k" "2 ^ 64"] b rnd_representable [of 1 64] by simp
  ultimately show thesis using that rnd_idem by simp
qed

text \<open>The quotient of two finite numbers, the smaller by the larger, stays within one.\<close>

lemma f64_div_unit:
  assumes "0 \<le> a" "a \<le> b" "0 < b"
  shows "\<exists>q. f64_div (Fin a) (Fin b) = Fin q \<and> 0 \<le> q \<and> q \<le> 1"
proof -
  have "0 \<le> a / b" "a / b \<le> 1" using assms by simp_all
  then show ?thesis
    using f64_of_rat_unit [of "a / b"] rnd_mono [of "a / b" 1] assms by auto
qed

section \<open>A ratio of two counts against a threshold\<close>

text \<open>
  A ratio that reaches a threshold still reaches it after both are rounded, so a threshold
  written in decimal behaves as written.
\<close>

lemma f64_ratio_reaches:
  assumes "0 \<le> t" "t \<le> of_nat a / of_nat b" "a \<le> b" "0 < b"
  shows "f64_ge (f64_div (Fin (of_nat a)) (Fin (of_nat b))) (f64_of_rat t)"
proof -
  have r: "0 \<le> (of_nat a / of_nat b :: rat)" "(of_nat a / of_nat b :: rat) \<le> 1"
    using assms by (simp_all add: divide_le_eq)
  then have "t \<le> 1" using assms(2) by linarith
  then have "f64_of_rat t = Fin (rnd t)"
    using assms(1) by (intro f64_of_rat_unit)
  moreover have "f64_of_rat (of_nat a / of_nat b) = Fin (rnd (of_nat a / of_nat b))"
    using r by (rule f64_of_rat_unit)
  moreover have "rnd t \<le> rnd (of_nat a / of_nat b)"
    using assms by (intro rnd_mono)
  ultimately show ?thesis using assms(4) by simp
qed

text \<open>
  For the threshold one half the rounded comparison is exact as long as the counts
  themselves are exact: no ratio below one half is rounded up to it.
\<close>

lemma rnd_below_half:
  assumes "2 * a < b" "b < 2 ^ 53"
  shows "rnd (of_nat a / of_nat b) < 1 / 2"
proof -
  define p :: rat where "p = of_int (2 ^ 53 - 1) * 2 powi (- 54)"
  have b: "0 < (of_nat b :: rat)" using assms by simp
  have "(of_nat (2 * a + 1) :: rat) \<le> of_nat b"
    using assms(1) by (simp only: of_nat_le_iff)
  then have "(of_nat a / of_nat b :: rat) \<le> 1 / 2 - 1 / (2 * of_nat b)"
    using b by (simp add: field_simps)
  also have "(1 / 2 - 1 / (2 * of_nat b) :: rat) \<le> p"
  proof -
    have "(of_nat b :: rat) \<le> of_nat (2 ^ 53)"
      using assms(2) by (simp only: of_nat_le_iff)
    then have "1 / (2 * 2 ^ 53) \<le> (1 / (2 * of_nat b) :: rat)"
      using b by (intro divide_left_mono) simp_all
    moreover have "p = 1 / 2 - 1 / (2 * 2 ^ 53)"
      by (simp add: p_def power_int_def field_simps)
    ultimately show ?thesis by simp
  qed
  finally have "rnd (of_nat a / of_nat b) \<le> rnd p"
    using b by (intro rnd_mono) simp_all
  also have "rnd p = p"
    unfolding p_def by (rule rnd_representable) simp_all
  also have "p < 1 / 2" by (simp add: p_def power_int_def power_one_over)
  finally show ?thesis .
qed

lemma f64_ratio_half:
  assumes "a \<le> b" "0 < b" "b < 2 ^ 53"
  shows "f64_ge (f64_div (Fin (of_nat a)) (Fin (of_nat b))) (Fin (1 / 2)) \<longleftrightarrow> b \<le> 2 * a"
proof -
  have r: "0 \<le> (of_nat a / of_nat b :: rat)" "(of_nat a / of_nat b :: rat) \<le> 1"
    using assms by (simp_all add: divide_le_eq)
  have half: "rnd (1 / 2) = 1 / 2"
    using rnd_representable [of 1 "- 1"] by (simp add: power_int_def)
  have "rnd (of_nat a / of_nat b) \<ge> 1 / 2 \<longleftrightarrow> b \<le> 2 * a"
  proof
    assume "rnd (of_nat a / of_nat b) \<ge> 1 / 2"
    then show "b \<le> 2 * a" using rnd_below_half [of a b] assms(3) by fastforce
  next
    assume "b \<le> 2 * a"
    then have "(of_nat b :: rat) \<le> of_nat (2 * a)" by (simp only: of_nat_le_iff)
    then have "1 / 2 \<le> (of_nat a / of_nat b :: rat)"
      using assms(2) by (simp add: field_simps)
    then show "rnd (of_nat a / of_nat b) \<ge> 1 / 2"
      using rnd_mono [of "1 / 2" "of_nat a / of_nat b"] half by simp
  qed
  then show ?thesis using assms(2) f64_of_rat_unit [OF r] by simp
qed

end
