(* ===== verification/Recorder.thy ===== *)
theory Recorder
  imports F64
begin

text \<open>
  Metric names of \<open>telemetry/metrics.rs\<close> and the calls the program makes on the metrics
  recorder (crate \<open>metrics\<close>), as a log of events.
\<close>

section \<open>Names\<close>

definition REQUESTS_TOTAL :: string where "REQUESTS_TOTAL = ''hsm_requests_total''"
definition REQUEST_DURATION :: string where "REQUEST_DURATION = ''hsm_request_duration_seconds''"
definition QUEUE_WAIT :: string where "QUEUE_WAIT = ''hsm_queue_wait_seconds''"
definition HSM_SERVICE :: string where "HSM_SERVICE = ''hsm_service_duration_seconds''"
definition QUEUE_DEPTH :: string where "QUEUE_DEPTH = ''hsm_queue_depth''"
definition WORKERS :: string where "WORKERS = ''hsm_workers''"
definition CACHE_HITS :: string where "CACHE_HITS = ''hsm_cache_hits_total''"
definition CACHE_MISSES :: string where "CACHE_MISSES = ''hsm_cache_misses_total''"
definition CACHE_ENTRIES :: string where "CACHE_ENTRIES = ''hsm_cache_entries''"
definition AUTHZ_DENIED :: string where "AUTHZ_DENIED = ''hsm_authz_denied_total''"
definition AUTHZ_ALLOWED :: string where "AUTHZ_ALLOWED = ''hsm_authz_allowed_total''"
definition UNAUTHENTICATED :: string where "UNAUTHENTICATED = ''hsm_unauthenticated_total''"
definition SHED_TOTAL :: string where "SHED_TOTAL = ''hsm_shed_total''"
definition RATE_LIMITED :: string where "RATE_LIMITED = ''hsm_rate_limited_total''"
definition BREAKER_STATE :: string where "BREAKER_STATE = ''hsm_circuit_breaker_state''"
definition BREAKER_TRIPS :: string where "BREAKER_TRIPS = ''hsm_circuit_breaker_trips_total''"
definition SESSION_RESETS :: string where "SESSION_RESETS = ''hsm_session_resets_total''"

named_theorems metric_names

lemmas metric_name_defs [metric_names] =
  REQUESTS_TOTAL_def REQUEST_DURATION_def QUEUE_WAIT_def HSM_SERVICE_def QUEUE_DEPTH_def WORKERS_def
  CACHE_HITS_def CACHE_MISSES_def CACHE_ENTRIES_def AUTHZ_DENIED_def AUTHZ_ALLOWED_def
  UNAUTHENTICATED_def SHED_TOTAL_def RATE_LIMITED_def BREAKER_STATE_def BREAKER_TRIPS_def
  SESSION_RESETS_def

section \<open>Events\<close>

type_synonym labels = "(string \<times> string) list"

datatype metric_event =
    CounterIncrement string labels u64
  | CounterAbsolute string u64
  | GaugeSet string f64
  | HistogramRecord string labels f64

text \<open>\<open>Duration::as_secs_f64\<close>: whole seconds plus nanoseconds over $10^9$, each rounded.\<close>

definition as_secs_f64 :: "duration \<Rightarrow> f64" where
  "as_secs_f64 d =
     f64_add (u64_as_f64 (of_nat (d div 1000000000)))
       (f64_div (u64_as_f64 (of_nat (d mod 1000000000))) (Fin 1000000000))"

text \<open>
  What a counter shows after a log of events, as the recorder documents it: increments add up
  modulo $2^{64}$, and an absolute value raises the counter to at least that value.
\<close>

fun counter_after :: "string \<Rightarrow> metric_event list \<Rightarrow> u64 \<Rightarrow> u64" where
  "counter_after name [] n = n"
| "counter_after name (CounterIncrement c _ d # es) n =
     counter_after name es (if c = name then n + d else n)"
| "counter_after name (CounterAbsolute c d # es) n =
     counter_after name es (if c = name then max n d else n)"
| "counter_after name (GaugeSet _ _ # es) n = counter_after name es n"
| "counter_after name (HistogramRecord _ _ _ # es) n = counter_after name es n"

lemma counter_after_append: "counter_after name (es @ fs) n = counter_after name fs (counter_after name es n)"
  by (induction name es n rule: counter_after.induct) simp_all

end
