(* ===== verification/Sample_Token.thy ===== *)
theory Sample_Token
  imports Cryptoki
begin

text \<open>
  A small software token that behaves as PKCS#11 prescribes: sessions with unique numbers, one
  login state for all of them that ends with the last session, private objects visible only
  when logged in, and sessions that can be killed from outside. Signatures and ciphertexts
  are tagged copies of their input. It is the module on which the witnesses of the
  development evaluate.
\<close>

record soft_token =
  tk_next :: u64
  tk_open :: "session list"
  tk_dead :: "session list"
  tk_removed :: bool
  tk_logged :: bool
  tk_objects :: "(object_handle \<times> attribute list) list"

definition tk_fail :: "rv_error \<Rightarrow> string \<Rightarrow> (soft_token, 'a, ck_error) io" where
  "tk_fail rv f = io_throw (Pkcs11 rv f)"

definition tk_live :: "session \<Rightarrow> soft_token \<Rightarrow> bool" where
  "tk_live s w \<longleftrightarrow> s \<in> set (tk_open w) \<and> s \<notin> set (tk_dead w)"

definition tk_guard :: "session \<Rightarrow> (soft_token, 'a, ck_error) io \<Rightarrow> (soft_token, 'a, ck_error) io" where
  "tk_guard s m = (\<lambda>w. if tk_live s w then m w else tk_fail SessionHandleInvalid ''session'' w)"

definition tk_open_session :: "slot \<Rightarrow> (soft_token, session, ck_error) io" where
  "tk_open_session sl = (\<lambda>w.
     if tk_removed w then tk_fail DeviceRemoved ''C_OpenSession'' w
     else (Ok (tk_next w), w\<lparr>tk_next := tk_next w + 1, tk_open := tk_next w # tk_open w\<rparr>))"

definition tk_close_session :: "session \<Rightarrow> soft_token \<Rightarrow> soft_token" where
  "tk_close_session s w =
     (let rest = filter (\<lambda>x. x \<noteq> s) (tk_open w) in
      w\<lparr>tk_open := rest, tk_logged := (tk_logged w \<and> rest \<noteq> [])\<rparr>)"

definition tk_do_login :: "session \<Rightarrow> string \<Rightarrow> (soft_token, unit, ck_error) io" where
  "tk_do_login s pin = tk_guard s (\<lambda>w.
     if tk_logged w then tk_fail UserAlreadyLoggedIn ''C_Login'' w
     else if pin \<noteq> ''1234'' then tk_fail (OtherRv 160) ''C_Login'' w
     else (Ok (), w\<lparr>tk_logged := True\<rparr>))"

definition tk_visible :: "soft_token \<Rightarrow> attribute list \<Rightarrow> bool" where
  "tk_visible w attrs \<longleftrightarrow> tk_logged w \<or> APrivate True \<notin> set attrs"

definition tk_find :: "session \<Rightarrow> attribute list \<Rightarrow> (soft_token, object_handle list, ck_error) io" where
  "tk_find s template = tk_guard s (\<lambda>w.
     (Ok (map fst (filter (\<lambda>(h, attrs). tk_visible w attrs \<and> set template \<subseteq> set attrs) (tk_objects w))), w))"

fun attribute_has_type :: "attribute_type \<Rightarrow> attribute \<Rightarrow> bool" where
  "attribute_has_type TKeyType a = (case a of AKeyType _ \<Rightarrow> True | _ \<Rightarrow> False)"
| "attribute_has_type TEcPoint a = (case a of AEcPoint _ \<Rightarrow> True | _ \<Rightarrow> False)"
| "attribute_has_type TModulus a = (case a of AModulus _ \<Rightarrow> True | _ \<Rightarrow> False)"
| "attribute_has_type TPublicExponent a = (case a of APublicExponent _ \<Rightarrow> True | _ \<Rightarrow> False)"
| "attribute_has_type TSensitive a = (case a of ASensitive _ \<Rightarrow> True | _ \<Rightarrow> False)"
| "attribute_has_type TExtractable a = (case a of AExtractable _ \<Rightarrow> True | _ \<Rightarrow> False)"

definition tk_object :: "object_handle \<Rightarrow> (attribute list \<Rightarrow> (soft_token, 'a, ck_error) io) \<Rightarrow> (soft_token, 'a, ck_error) io" where
  "tk_object h f = (\<lambda>w. case map_of (tk_objects w) h of
       None \<Rightarrow> tk_fail (OtherRv 130) ''object'' w
     | Some attrs \<Rightarrow> f attrs w)"

definition tk_get_attributes ::
    "session \<Rightarrow> object_handle \<Rightarrow> attribute_type list \<Rightarrow> (soft_token, attribute list, ck_error) io" where
  "tk_get_attributes s h ts = tk_guard s (tk_object h (\<lambda>attrs.
     io_return (concat (map (\<lambda>t. filter (attribute_has_type t) attrs) ts))))"

text \<open>The tag of a key is the length of its label, the same for both halves of a pair.\<close>

fun tk_tag :: "attribute list \<Rightarrow> u8" where
  "tk_tag [] = 0"
| "tk_tag (ALabel l # _) = of_nat (length l)"
| "tk_tag (_ # attrs) = tk_tag attrs"

definition tk_sign :: "session \<Rightarrow> ck_mechanism \<Rightarrow> object_handle \<Rightarrow> bytes \<Rightarrow> (soft_token, bytes, ck_error) io" where
  "tk_sign s m h payload = tk_guard s (tk_object h (\<lambda>attrs. io_return (tk_tag attrs # payload)))"

definition tk_verify ::
    "session \<Rightarrow> ck_mechanism \<Rightarrow> object_handle \<Rightarrow> bytes \<Rightarrow> bytes \<Rightarrow> (soft_token, unit, ck_error) io" where
  "tk_verify s m h payload sig = tk_guard s (tk_object h (\<lambda>attrs.
     if sig = tk_tag attrs # payload then io_return () else tk_fail SignatureInvalid ''C_Verify''))"

definition tk_encrypt :: "session \<Rightarrow> ck_mechanism \<Rightarrow> object_handle \<Rightarrow> bytes \<Rightarrow> (soft_token, bytes, ck_error) io" where
  "tk_encrypt s m h plaintext = tk_guard s (tk_object h (\<lambda>attrs. io_return (tk_tag attrs # plaintext)))"

definition tk_decrypt :: "session \<Rightarrow> ck_mechanism \<Rightarrow> object_handle \<Rightarrow> bytes \<Rightarrow> (soft_token, bytes, ck_error) io" where
  "tk_decrypt s m h ciphertext = tk_guard s (tk_object h (\<lambda>attrs.
     case ciphertext of
       [] \<Rightarrow> tk_fail EncryptedDataLenRange ''C_Decrypt''
     | t # plaintext \<Rightarrow>
         if t = tk_tag attrs then io_return plaintext else tk_fail EncryptedDataInvalid ''C_Decrypt''))"

definition tk_add :: "attribute list \<Rightarrow> soft_token \<Rightarrow> object_handle \<times> soft_token" where
  "tk_add attrs w =
     (let h = of_nat (length (tk_objects w)) + 100 in (h, w\<lparr>tk_objects := tk_objects w @ [(h, attrs)]\<rparr>))"

definition tk_key_pair ::
    "session \<Rightarrow> ck_mechanism \<Rightarrow> attribute list \<Rightarrow> attribute list
     \<Rightarrow> (soft_token, object_handle \<times> object_handle, ck_error) io" where
  "tk_key_pair s m pub priv = tk_guard s (\<lambda>w.
     let (hp, w1) = tk_add (AClass PUBLIC_KEY # pub) w; (hs, w2) = tk_add (AClass PRIVATE_KEY # priv) w1
     in (Ok (hp, hs), w2))"

definition tk_secret_key ::
    "session \<Rightarrow> ck_mechanism \<Rightarrow> attribute list \<Rightarrow> (soft_token, object_handle, ck_error) io" where
  "tk_secret_key s m template = tk_guard s (\<lambda>w.
     let (h, w1) = tk_add (AClass SECRET_KEY # template) w in (Ok h, w1))"

definition soft_ck :: "soft_token cryptoki" where
  "soft_ck =
     \<lparr> ck_new = (\<lambda>_. io_return ()),
       ck_initialize = io_return (),
       ck_drop_context = (\<lambda>w. w\<lparr>tk_open := [], tk_logged := False\<rparr>),
       ck_get_slots_with_token = io_return [3, 5],
       ck_token_label = (\<lambda>sl. if sl = 5 then io_return ''t '' else io_return ''u''),
       ck_open_rw_session = tk_open_session,
       ck_drop_session = tk_close_session,
       ck_login = tk_do_login,
       ck_logout = (\<lambda>s. tk_guard s (\<lambda>w. (Ok (), w\<lparr>tk_logged := False\<rparr>))),
       ck_find_objects = tk_find,
       ck_get_attributes = tk_get_attributes,
       ck_sign = tk_sign,
       ck_verify = tk_verify,
       ck_encrypt = tk_encrypt,
       ck_decrypt = tk_decrypt,
       ck_generate_key_pair = tk_key_pair,
       ck_generate_key = tk_secret_key,
       ck_create_object = (\<lambda>s attrs. tk_guard s (\<lambda>w. let (h, w1) = tk_add attrs w in (Ok h, w1))),
       ck_destroy_object = (\<lambda>s h. tk_guard s (\<lambda>w.
         (Ok (), w\<lparr>tk_objects := filter (\<lambda>(x, _). x \<noteq> h) (tk_objects w)\<rparr>))),
       ck_gcm_params = (\<lambda>iv aad bits.
         if iv = [] then Err (OtherError ''empty iv'')
         else Ok \<lparr> gp_iv = iv, gp_aad = aad, gp_tag_bits = bits \<rparr>),
       ck_show_error = (\<lambda>_. ''pkcs11 error''),
       ck_debug_attribute = (\<lambda>_. ''attribute'') \<rparr>"

definition blank_token :: soft_token where
  "blank_token = \<lparr> tk_next = 1, tk_open = [], tk_dead = [], tk_removed = False, tk_logged = False, tk_objects = [] \<rparr>"

definition demo_objects :: "(object_handle \<times> attribute list) list" where
  "demo_objects =
     [(20, [AClass PRIVATE_KEY, APrivate True, ALabel (as_bytes ''ec''), AKeyType EC]),
      (21, [AClass PUBLIC_KEY, APrivate False, ALabel (as_bytes ''ec''), AKeyType EC, AEcPoint (4 # replicate 64 9)]),
      (22, [AClass SECRET_KEY, APrivate True, ALabel (as_bytes ''aes''), AKeyType AES])]"

named_theorems soft_token_simps

lemmas soft_token_defs [soft_token_simps] =
  soft_ck_def tk_fail_def tk_live_def tk_guard_def tk_open_session_def tk_close_session_def
  tk_do_login_def tk_visible_def tk_find_def tk_object_def tk_get_attributes_def tk_sign_def
  tk_verify_def tk_encrypt_def tk_decrypt_def tk_add_def tk_key_pair_def tk_secret_key_def
  io_return_def io_throw_def

end
