(* ===== verification/Worker.thy ===== *)
theory Worker
  imports Jobs Recorder Sample_Token
begin

text \<open>
  A pool worker, \<open>pkcs11/worker.rs\<close>: one thread, one session, one handle cache. Its methods
  act on an environment that holds the worker itself, the token, the counters shared by all
  workers and the log of metric events, so that what a method changed stays changed when it
  returns an error.
\<close>

section \<open>State\<close>

definition GCM_TAG_BITS :: u64 where
  "GCM_TAG_BITS = 128"

record key_handles =
  kh_private :: "object_handle option"
  kh_public :: "object_handle option"
  kh_secret :: "object_handle option"

definition key_handles_default :: key_handles where
  "key_handles_default = \<lparr> kh_private = None, kh_public = None, kh_secret = None \<rparr>"

fun key_handles_get :: "key_handles \<Rightarrow> key_kind \<Rightarrow> object_handle option" where
  "key_handles_get h PrivateKind = kh_private h"
| "key_handles_get h PublicKind = kh_public h"
| "key_handles_get h SecretKind = kh_secret h"

fun key_handles_set :: "key_kind \<Rightarrow> object_handle \<Rightarrow> key_handles \<Rightarrow> key_handles" where
  "key_handles_set PrivateKind x h = h\<lparr>kh_private := Some x\<rparr>"
| "key_handles_set PublicKind x h = h\<lparr>kh_public := Some x\<rparr>"
| "key_handles_set SecretKind x h = h\<lparr>kh_secret := Some x\<rparr>"

fun kind_object_class :: "key_kind \<Rightarrow> object_class" where
  "kind_object_class PrivateKind = PRIVATE_KEY"
| "kind_object_class PublicKind = PUBLIC_KEY"
| "kind_object_class SecretKind = SECRET_KEY"

record worker =
  wk_id :: nat
  wk_slot :: slot
  wk_token :: token_config
  wk_session :: session
  wk_handles :: "(string, key_handles) hash_map"

record 'w worker_env =
  wv_worker :: worker
  wv_world :: 'w
  wv_metrics :: pool_metrics
  wv_events :: "metric_event list"

text \<open>A call into the module from a worker.\<close>

definition on_world :: "('w, 'a, 'e) io \<Rightarrow> ('w worker_env, 'a, 'e) io" where
  "on_world m = (\<lambda>v. let (r, w) = m (wv_world v) in (r, v\<lparr>wv_world := w\<rparr>))"

section \<open>Sessions\<close>

fun already_logged_in :: "failure \<Rightarrow> bool" where
  "already_logged_in (AnyError _ (CkCause (Pkcs11 UserAlreadyLoggedIn _))) = True"
| "already_logged_in _ = False"

definition open_worker_session :: "'w cryptoki \<Rightarrow> slot \<Rightarrow> token_config \<Rightarrow> ('w, session, pool_error) io" where
  "open_worker_session ck slot token =
     io_case (login_session ck slot token)
       (\<lambda>r. case r of
          Ok session \<Rightarrow> io_return session
        | Err err \<Rightarrow>
            if already_logged_in err
            then io_result (map_err (Hsm ''C_OpenSession'')) (ck_open_rw_session ck slot)
            else io_throw (InternalError (show_chain (show_cause ck) err)))"

definition worker_new :: "'w cryptoki \<Rightarrow> nat \<Rightarrow> slot \<Rightarrow> token_config \<Rightarrow> ('w, worker, pool_error) io" where
  "worker_new ck wid slot token =
     io_bind (open_worker_session ck slot token)
       (\<lambda>session. io_return \<lparr> wk_id = wid, wk_slot = slot, wk_token = token,
                               wk_session = session, wk_handles = [] \<rparr>)"

text \<open>Replacing the session drops the old one, which closes it.\<close>

definition reset_session :: "'w cryptoki \<Rightarrow> 'w worker_env \<Rightarrow> 'w worker_env" where
  "reset_session ck v =
     (let v1 = v\<lparr>wv_worker := (wv_worker v)\<lparr>wk_handles := []\<rparr>,
                 wv_metrics := (wv_metrics v)\<lparr>pm_session_resets := pm_session_resets (wv_metrics v) + 1\<rparr>\<rparr> in
      case open_worker_session ck (wk_slot (wv_worker v1)) (wk_token (wv_worker v1)) (wv_world v1) of
        (Ok session, w) \<Rightarrow>
          v1\<lparr>wv_world := ck_drop_session ck (wk_session (wv_worker v1)) w,
             wv_worker := (wv_worker v1)\<lparr>wk_session := session\<rparr>\<rparr>
      | (Err _, w) \<Rightarrow> v1\<lparr>wv_world := w\<rparr>)"

section \<open>Handles\<close>

definition cached_handle :: "key_kind \<Rightarrow> string \<Rightarrow> worker \<Rightarrow> object_handle option" where
  "cached_handle kind label wk =
     Option.bind (map_of (wk_handles wk) label) (\<lambda>h. key_handles_get h kind)"

definition store_handle :: "key_kind \<Rightarrow> string \<Rightarrow> object_handle \<Rightarrow> worker \<Rightarrow> worker" where
  "store_handle kind label handle wk =
     wk\<lparr>wk_handles := entry_or key_handles_default (key_handles_set kind handle) label (wk_handles wk)\<rparr>"

definition worker_handle ::
    "'w cryptoki \<Rightarrow> key_kind \<Rightarrow> string \<Rightarrow> ('w worker_env, object_handle, pool_error) io" where
  "worker_handle ck kind label v =
     (case cached_handle kind label (wv_worker v) of
        Some handle \<Rightarrow>
          (Ok handle, v\<lparr>wv_metrics := (wv_metrics v)\<lparr>pm_handle_cache_hits := pm_handle_cache_hits (wv_metrics v) + 1\<rparr>\<rparr>)
      | None \<Rightarrow>
          (let v1 = v\<lparr>wv_metrics := (wv_metrics v)\<lparr>pm_handle_cache_misses := pm_handle_cache_misses (wv_metrics v) + 1\<rparr>\<rparr> in
           io_bind
             (io_result (map_err (\<lambda>e. InternalError (show_anyhow (show_cause ck) e)))
                (on_world (find_object ck (wk_session (wv_worker v1)) (kind_object_class kind) label)))
             (\<lambda>found v2. case found of
                None \<Rightarrow> (Err (KeyNotFound label), v2)
              | Some handle \<Rightarrow> (Ok handle, v2\<lparr>wv_worker := store_handle kind label handle (wv_worker v2)\<rparr>))
             v1))"

section \<open>Jobs\<close>

text \<open>The session a call uses is the worker's current one.\<close>

definition with_session ::
    "(session \<Rightarrow> ('w, 'a, 'e) io) \<Rightarrow> ('w worker_env, 'a, 'e) io" where
  "with_session f = (\<lambda>v. on_world (f (wk_session (wv_worker v))) v)"

definition gcm_mechanism :: "'w cryptoki \<Rightarrow> bytes \<Rightarrow> bytes \<Rightarrow> (ck_mechanism, pool_error) result" where
  "gcm_mechanism ck iv aad =
     result_map MAesGcm
       (map_err (\<lambda>e. InvalidRequest (ck_show_error ck e)) (ck_gcm_params ck iv aad GCM_TAG_BITS))"

fun verify_outcome :: "(unit, ck_error) result \<Rightarrow> (job_response, pool_error) result" where
  "verify_outcome (Ok ()) = Ok (Verified True)"
| "verify_outcome (Err (Pkcs11 SignatureInvalid _)) = Ok (Verified False)"
| "verify_outcome (Err (Pkcs11 SignatureLenRange _)) = Ok (Verified False)"
| "verify_outcome (Err e) = Err (Hsm ''C_Verify'' e)"

fun decrypt_outcome :: "(bytes, ck_error) result \<Rightarrow> (job_response, pool_error) result" where
  "decrypt_outcome (Ok plaintext) = Ok (Plaintext plaintext)"
| "decrypt_outcome (Err (Pkcs11 EncryptedDataInvalid _)) =
     Err (InvalidRequest ''ciphertext failed authentication'')"
| "decrypt_outcome (Err (Pkcs11 EncryptedDataLenRange _)) =
     Err (InvalidRequest ''ciphertext failed authentication'')"
| "decrypt_outcome (Err e) = Err (Hsm ''C_Decrypt'' e)"

fun dispatch ::
    "'w cryptoki \<Rightarrow> ('k, 'sg, 'r) crypto_lib \<Rightarrow> job_request \<Rightarrow> ('w worker_env, job_response, pool_error) io" where
  "dispatch ck lib (JobSign key_label algorithm payload) =
     io_bind (worker_handle ck PrivateKind key_label)
       (\<lambda>key. io_result (\<lambda>r. result_map Signature (map_err (Hsm ''C_Sign'') r))
          (with_session (\<lambda>s. ck_sign ck s (algorithm_mechanism algorithm) key payload)))"
| "dispatch ck lib (JobVerify key_label algorithm payload signature) =
     io_bind (worker_handle ck PublicKind key_label)
       (\<lambda>key. io_result verify_outcome
          (with_session (\<lambda>s. ck_verify ck s (algorithm_mechanism algorithm) key payload signature)))"
| "dispatch ck lib (JobEncrypt key_label plaintext associated_data iv) =
     io_bind (worker_handle ck SecretKind key_label)
       (\<lambda>key. io_bind (io_lift (gcm_mechanism ck iv associated_data))
          (\<lambda>mechanism. io_result (\<lambda>r. result_map Ciphertext (map_err (Hsm ''C_Encrypt'') r))
             (with_session (\<lambda>s. ck_encrypt ck s mechanism key plaintext))))"
| "dispatch ck lib (JobDecrypt key_label ciphertext associated_data iv) =
     io_bind (worker_handle ck SecretKind key_label)
       (\<lambda>key. io_bind (io_lift (gcm_mechanism ck iv associated_data))
          (\<lambda>mechanism. io_result decrypt_outcome
             (with_session (\<lambda>s. ck_decrypt ck s mechanism key ciphertext))))"
| "dispatch ck lib (JobGetPublicKey key_label) =
     io_bind (worker_handle ck PublicKind key_label)
       (\<lambda>key. io_result
          (\<lambda>r. result_map (\<lambda>(spki_der, key_type). PublicKey spki_der key_type)
             (map_err (\<lambda>e. InternalError (show_anyhow (show_cause ck) e)) r))
          (with_session (\<lambda>s. public_key_to_spki_der ck lib s key)))"

definition execute ::
    "'w cryptoki \<Rightarrow> ('k, 'sg, 'r) crypto_lib \<Rightarrow> job_request \<Rightarrow> ('w worker_env, job_response, pool_error) io" where
  "execute ck lib request v =
     (let (result, v1) = dispatch ck lib request v in
      case result of
        Err (Hsm _ source) \<Rightarrow>
          if is_session_fatal source then (result, reset_session ck v1) else (result, v1)
      | _ \<Rightarrow> (result, v1))"

text \<open>
  One iteration of \<open>run\<close>, up to the send on the responder: \<open>t1\<close> is the reading at which the
  job was taken, \<open>t2\<close> the one before and \<open>t3\<close> the one after it was executed.
\<close>

definition run_job ::
    "'w cryptoki \<Rightarrow> ('k, 'sg, 'r) crypto_lib \<Rightarrow> instant \<Rightarrow> instant \<Rightarrow> instant \<Rightarrow> job \<Rightarrow> 'w worker_env
     \<Rightarrow> (job_response, pool_error) result \<times> 'w worker_env" where
  "run_job ck lib t1 t2 t3 jb v =
     (let queue_wait = elapsed t1 (jb_enqueued_at jb);
          (result, v1) = execute ck lib (jb_request jb) v;
          service = elapsed t3 t2;
          m = wv_metrics v1;
          m1 = m\<lparr>pm_queue_wait_nanos_total := pm_queue_wait_nanos_total m + as_nanos_u64 queue_wait,
                 pm_service_nanos_total := pm_service_nanos_total m + as_nanos_u64 service\<rparr>;
          events = [HistogramRecord QUEUE_WAIT [] (as_secs_f64 queue_wait),
                    HistogramRecord HSM_SERVICE [(''operation'', job_operation (jb_request jb))]
                      (as_secs_f64 service)];
          m2 = (case result of
                  Ok _ \<Rightarrow> m1\<lparr>pm_jobs_completed := pm_jobs_completed m1 + 1\<rparr>
                | Err _ \<Rightarrow> m1\<lparr>pm_jobs_completed := pm_jobs_completed m1 + 1,
                              pm_jobs_failed := pm_jobs_failed m1 + 1\<rparr>)
      in (result, v1\<lparr>wv_metrics := m2, wv_events := wv_events v1 @ events\<rparr>))"

text \<open>After the channel closed: log out and drop the session.\<close>

definition worker_exit :: "'w cryptoki \<Rightarrow> worker \<Rightarrow> 'w \<Rightarrow> 'w" where
  "worker_exit ck wk w = ck_drop_session ck (wk_session wk) (snd (ck_logout ck (wk_session wk) w))"

section \<open>What a job touches\<close>

fun request_key :: "job_request \<Rightarrow> key_kind \<times> string" where
  "request_key (JobSign label _ _) = (PrivateKind, label)"
| "request_key (JobVerify label _ _ _) = (PublicKind, label)"
| "request_key (JobEncrypt label _ _ _) = (SecretKind, label)"
| "request_key (JobDecrypt label _ _ _) = (SecretKind, label)"
| "request_key (JobGetPublicKey label) = (PublicKind, label)"

lemma with_session_worker [simp]:
  "wv_worker (snd (with_session f v)) = wv_worker v"
  "wv_metrics (snd (with_session f v)) = wv_metrics v"
  "wv_events (snd (with_session f v)) = wv_events v"
  by (simp_all add: with_session_def on_world_def case_prod_beta Let_def)

lemma io_result_simps [simp]:
  "snd (io_result g m v) = snd (m v)"
  "fst (io_result g m v) = g (fst (m v))"
  by (simp_all add: io_result_def case_prod_beta Let_def)

lemma io_lift_simps [simp]: "snd (io_lift r v) = v" "fst (io_lift r v) = r"
  by (simp_all add: io_lift_def)

lemma snd_io_bind: "snd (io_bind m f v) = (case fst (m v) of Ok x \<Rightarrow> snd (f x (snd (m v))) | Err e \<Rightarrow> snd (m v))"
  by (simp add: io_bind_def split: prod.splits result.splits)

lemma fst_io_bind: "fst (io_bind m f v) = (case fst (m v) of Ok x \<Rightarrow> fst (f x (snd (m v))) | Err e \<Rightarrow> Err e)"
  by (simp add: io_bind_def split: prod.splits result.splits)

text \<open>After the key is found, a job changes nothing but the world.\<close>

lemma dispatch_frame:
  fixes ck v
  assumes "request_key request = (kind, label)"
  defines "h \<equiv> worker_handle ck kind label v"
  shows "wv_worker (snd (dispatch ck lib request v)) = wv_worker (snd h)
       \<and> wv_metrics (snd (dispatch ck lib request v)) = wv_metrics (snd h)
       \<and> wv_events (snd (dispatch ck lib request v)) = wv_events (snd h)"
  using assms(1) unfolding h_def
  by (cases request) (simp_all add: snd_io_bind split: result.splits)

lemma dispatch_no_key:
  assumes "request_key request = (kind, label)" and "fst (worker_handle ck kind label v) = Err e"
  shows "dispatch ck lib request v = (Err e, snd (worker_handle ck kind label v))"
  using assms by (cases request) (simp_all add: prod_eq_iff snd_io_bind fst_io_bind)

text \<open>Looking a handle up leaves everything of the worker but its cache alone.\<close>

lemma worker_handle_frame:
  "wv_worker (snd (worker_handle ck kind label v))
     = (wv_worker v)\<lparr>wk_handles := wk_handles (wv_worker (snd (worker_handle ck kind label v)))\<rparr>"
  by (simp add: worker_handle_def on_world_def io_simps store_handle_def Let_def
      split: option.splits prod.splits result.splits)

lemma worker_handle_metrics:
  "pm_session_resets (wv_metrics (snd (worker_handle ck kind label v))) = pm_session_resets (wv_metrics v)
   \<and> pm_jobs_completed (wv_metrics (snd (worker_handle ck kind label v))) = pm_jobs_completed (wv_metrics v)
   \<and> pm_jobs_failed (wv_metrics (snd (worker_handle ck kind label v))) = pm_jobs_failed (wv_metrics v)
   \<and> wv_events (snd (worker_handle ck kind label v)) = wv_events v"
  by (simp add: worker_handle_def on_world_def io_simps store_handle_def Let_def
      split: option.splits prod.splits result.splits)

section \<open>The handle cache\<close>

lemma key_handles_get_default [simp]: "key_handles_get key_handles_default kind = None"
  by (cases kind) (simp_all add: key_handles_default_def)

lemma key_handles_get_set [simp]:
  "key_handles_get (key_handles_set kind x h) kind' = (if kind' = kind then Some x else key_handles_get h kind')"
  by (cases kind; cases kind') simp_all

lemma store_handle_session [simp]: "wk_session (store_handle kind label x wk) = wk_session wk"
  by (simp add: store_handle_def)

lemma cached_store [simp]:
  "cached_handle kind' label' (store_handle kind label x wk) =
     (if kind' = kind \<and> label' = label then Some x else cached_handle kind' label' wk)"
  by (cases "map_of (wk_handles wk) label")
     (simp_all add: cached_handle_def store_handle_def)

lemma worker_handle_miss:
  fixes ck
  assumes "cached_handle kind label (wv_worker v) = None"
  defines "r \<equiv> find_object ck (wk_session (wv_worker v)) (kind_object_class kind) label (wv_world v)"
  shows "fst (worker_handle ck kind label v)
           = and_then (map_err (\<lambda>e. InternalError (show_anyhow (show_cause ck) e)) (fst r)) (ok_or (KeyNotFound label))
    \<and> wv_worker (snd (worker_handle ck kind label v))
           = (case fst r of Ok (Some h) \<Rightarrow> store_handle kind label h (wv_worker v) | _ \<Rightarrow> wv_worker v)"
  using assms(1) unfolding r_def
  by (auto simp: worker_handle_def on_world_def io_simps Let_def split: option.splits prod.splits result.splits)

lemma worker_handle_session [simp]:
  "wk_session (wv_worker (snd (worker_handle ck kind label v))) = wk_session (wv_worker v)"
  by (subst worker_handle_frame) simp

lemma dispatch_session [simp]: "wk_session (wv_worker (snd (dispatch ck lib request v))) = wk_session (wv_worker v)"
  using dispatch_frame [of request "fst (request_key request)" "snd (request_key request)", where ck = ck and v = v and lib = lib]
  by simp

lemma reset_session_handles [simp]: "wk_handles (wv_worker (reset_session ck v)) = []"
  by (simp add: reset_session_def Let_def split: prod.splits result.splits)

lemma execute_cases:
  obtains (fatal) op e where "fst (dispatch ck lib request v) = Err (Hsm op e)" "is_session_fatal e"
      "execute ck lib request v = (Err (Hsm op e), reset_session ck (snd (dispatch ck lib request v)))"
    | (plain) "\<forall>op e. fst (dispatch ck lib request v) = Err (Hsm op e) \<longrightarrow> \<not> is_session_fatal e"
      "execute ck lib request v = dispatch ck lib request v"
proof -
  obtain r v1 where d: "dispatch ck lib request v = (r, v1)" by fastforce
  show thesis
  proof (cases "\<exists>op e. r = Err (Hsm op e) \<and> is_session_fatal e")
    case True
    then show ?thesis using that(1) by (auto simp: execute_def d)
  next
    case False
    then have "execute ck lib request v = dispatch ck lib request v"
      by (simp add: execute_def d split: result.splits pool_error.splits)
    with False show ?thesis using that(2) by (simp add: d)
  qed
qed

text \<open>A worker that serves one request after another.\<close>

fun execute_all ::
    "'w cryptoki \<Rightarrow> ('k, 'sg, 'r) crypto_lib \<Rightarrow> job_request list \<Rightarrow> 'w worker_env
     \<Rightarrow> (job_response, pool_error) result list \<times> 'w worker_env" where
  "execute_all ck lib [] v = ([], v)"
| "execute_all ck lib (q # qs) v =
     (let (r, v1) = execute ck lib q v; (rs, v2) = execute_all ck lib qs v1 in (r # rs, v2))"

lemma execute_all_append:
  "snd (execute_all ck lib (qs @ rs) v) = snd (execute_all ck lib rs (snd (execute_all ck lib qs v)))"
  by (induction qs arbitrary: v) (simp_all add: case_prod_beta Let_def)

lemma execute_all_snoc:
  "execute_all ck lib (qs @ [q]) v =
     (fst (execute_all ck lib qs v) @ [fst (execute ck lib q (snd (execute_all ck lib qs v)))],
      snd (execute ck lib q (snd (execute_all ck lib qs v))))"
  by (induction qs arbitrary: v) (simp_all add: case_prod_beta Let_def)

section \<open>Where a cached handle comes from\<close>

text \<open>The errors after which PKCS#11 says that handles obtained in the session are no longer good.\<close>

definition session_lost :: "(job_response, pool_error) result \<Rightarrow> bool" where
  "session_lost r \<longleftrightarrow> (\<exists>op rv f. r = Err (Hsm op (Pkcs11 rv f))
     \<and> rv \<in> {SessionHandleInvalid, SessionClosed, DeviceError, DeviceRemoved, TokenNotPresent, UserNotLoggedIn})"

lemma session_lost_iff: "session_lost r \<longleftrightarrow> (\<exists>op e. r = Err (Hsm op e) \<and> is_session_fatal e)"
  unfolding session_lost_def
  by (metis is_session_fatal.simps ck_error.exhaust)

text \<open>
  The handle was found by a search for the same kind and label, in the session the worker still has, by
  the job \<open>q\<close>; from then on the worker reset nothing and no job saw the session fail.
\<close>

definition found_earlier ::
    "'w cryptoki \<Rightarrow> ('k, 'sg, 'r) crypto_lib \<Rightarrow> job_request list \<Rightarrow> 'w worker_env \<Rightarrow> key_kind \<Rightarrow> string
     \<Rightarrow> object_handle \<Rightarrow> bool" where
  "found_earlier ck lib requests v kind label h \<longleftrightarrow>
     (\<exists>pre q post vp w. requests = pre @ q # post
        \<and> vp = snd (execute_all ck lib pre v) \<and> request_key q = (kind, label)
        \<and> find_object ck (wk_session (wv_worker vp)) (kind_object_class kind) label (wv_world vp) = (Ok (Some h), w)
        \<and> wk_session (wv_worker (snd (execute_all ck lib requests v))) = wk_session (wv_worker vp)
        \<and> pm_session_resets (wv_metrics (snd (execute_all ck lib requests v))) = pm_session_resets (wv_metrics vp)
        \<and> (\<forall>r \<in> set (fst (execute_all ck lib (q # post) vp)). \<not> session_lost r))"

lemma dispatch_resets:
  "pm_session_resets (wv_metrics (snd (dispatch ck lib q v))) = pm_session_resets (wv_metrics v)"
  using dispatch_frame [of q "fst (request_key q)" "snd (request_key q)", where ck = ck and v = v and lib = lib]
    worker_handle_metrics [of ck "fst (request_key q)" "snd (request_key q)" v] by simp

lemma dispatch_cached:
  assumes "cached_handle kind label (wv_worker (snd (dispatch ck lib q v))) = Some h"
  shows "cached_handle kind label (wv_worker v) = Some h
    \<or> request_key q = (kind, label)
      \<and> (\<exists>w. find_object ck (wk_session (wv_worker v)) (kind_object_class kind) label (wv_world v) = (Ok (Some h), w))"
proof -
  obtain k l where q: "request_key q = (k, l)" by (cases "request_key q")
  with dispatch_frame [OF q, where ck = ck and v = v and lib = lib] assms
  have *: "cached_handle kind label (wv_worker (snd (worker_handle ck k l v))) = Some h" by simp
  show ?thesis
  proof (cases "cached_handle k l (wv_worker v)")
    case (Some g)
    then show ?thesis using * by (simp add: worker_handle_def)
  next
    case None
    obtain r w where r: "find_object ck (wk_session (wv_worker v)) (kind_object_class k) l (wv_world v) = (r, w)" by fastforce
    show ?thesis
      using * worker_handle_miss [OF None, of ck] q
      by (auto simp: r split: result.splits option.splits if_splits)
  qed
qed

lemma plain_not_lost:
  "\<forall>op e. r = Err (Hsm op e) \<longrightarrow> \<not> is_session_fatal e \<Longrightarrow> \<not> session_lost r"
  by (auto simp: session_lost_iff)

lemma found_earlier_snoc:
  assumes "found_earlier ck lib qs v kind label h"
    and "execute ck lib q (snd (execute_all ck lib qs v)) = dispatch ck lib q (snd (execute_all ck lib qs v))"
    and "\<not> session_lost (fst (dispatch ck lib q (snd (execute_all ck lib qs v))))"
  shows "found_earlier ck lib (qs @ [q]) v kind label h"
proof -
  from assms(1) obtain pre q' post vp w where *: "qs = pre @ q' # post"
    "vp = snd (execute_all ck lib pre v)" "request_key q' = (kind, label)"
    "find_object ck (wk_session (wv_worker vp)) (kind_object_class kind) label (wv_world vp) = (Ok (Some h), w)"
    "wk_session (wv_worker (snd (execute_all ck lib qs v))) = wk_session (wv_worker vp)"
    "pm_session_resets (wv_metrics (snd (execute_all ck lib qs v))) = pm_session_resets (wv_metrics vp)"
    "\<forall>r \<in> set (fst (execute_all ck lib (q' # post) vp)). \<not> session_lost r"
    unfolding found_earlier_def by blast
  have split: "snd (execute_all ck lib (q' # post) vp) = snd (execute_all ck lib qs v)"
    using execute_all_append [of ck lib pre "q' # post" v] *(1,2) by simp
  have "\<forall>r \<in> set (fst (execute_all ck lib (q' # post @ [q]) vp)). \<not> session_lost r"
    using execute_all_snoc [of ck lib "q' # post" q vp] *(7) split assms(2,3) by simp
  moreover have "qs @ [q] = pre @ q' # (post @ [q])" using *(1) by simp
  ultimately show ?thesis
    unfolding found_earlier_def
    using *(2-6) assms(2) dispatch_resets by (metis dispatch_session execute_all_snoc snd_conv)
qed

lemma found_earlier_now:
  assumes "execute ck lib q (snd (execute_all ck lib qs v)) = dispatch ck lib q (snd (execute_all ck lib qs v))"
    and "\<not> session_lost (fst (dispatch ck lib q (snd (execute_all ck lib qs v))))"
    and "request_key q = (kind, label)"
    and "find_object ck (wk_session (wv_worker (snd (execute_all ck lib qs v)))) (kind_object_class kind) label
           (wv_world (snd (execute_all ck lib qs v))) = (Ok (Some h), w)"
  shows "found_earlier ck lib (qs @ [q]) v kind label h"
proof -
  let ?v = "snd (execute_all ck lib qs v)"
  have "fst (execute_all ck lib [q] ?v) = [fst (dispatch ck lib q ?v)]"
    using assms(1) by (simp add: case_prod_beta Let_def)
  then show ?thesis
    unfolding found_earlier_def using assms
    by (intro exI [of _ qs] exI [of _ q] exI [of _ "[]"] exI [of _ ?v] exI [of _ w])
       (simp add: execute_all_snoc dispatch_resets)
qed

lemma cached_found_earlier:
  assumes "wk_handles (wv_worker v) = []"
    and "cached_handle kind label (wv_worker (snd (execute_all ck lib requests v))) = Some h"
  shows "found_earlier ck lib requests v kind label h"
  using assms(2)
proof (induction requests rule: rev_induct)
  case Nil
  then show ?case using assms(1) by (simp add: cached_handle_def)
next
  case (snoc q qs)
  let ?v = "snd (execute_all ck lib qs v)"
  show ?case
  proof (cases rule: execute_cases [of ck lib q ?v])
    case (fatal op e)
    then show ?thesis using snoc.prems by (simp add: execute_all_snoc cached_handle_def)
  next
    case plain
    note kept = plain(2) plain_not_lost [OF plain(1)]
    have "cached_handle kind label (wv_worker (snd (dispatch ck lib q ?v))) = Some h"
      using snoc.prems plain(2) by (simp add: execute_all_snoc)
    from dispatch_cached [OF this] show ?thesis
      using found_earlier_snoc [OF snoc.IH kept] found_earlier_now [OF kept] by blast
  qed
qed

section \<open>Correctness of the worker\<close>

text \<open>
  C7. A cached handle never outlives its session: after any sequence of jobs, session resets
  included and with no assumption on the module, a handle that resolving a label returns either was
  found by a search just now, or was found by a search for the same label and kind that an earlier
  job made in the very session the worker still holds, and since then no reset happened and no job
  was answered with an error that invalidates the handles of a session.
\<close>

theorem worker_handles_fresh:
  assumes "wk_handles (wv_worker v) = []"
    and "v' = snd (execute_all ck lib requests v)"
    and "worker_handle ck kind label v' = (Ok h, v'')"
  shows "(\<exists>w. find_object ck (wk_session (wv_worker v')) (kind_object_class kind) label (wv_world v') = (Ok (Some h), w))
    \<or> (\<exists>pre q post vp w. requests = pre @ q # post
        \<and> vp = snd (execute_all ck lib pre v) \<and> request_key q = (kind, label)
        \<and> find_object ck (wk_session (wv_worker vp)) (kind_object_class kind) label (wv_world vp) = (Ok (Some h), w)
        \<and> wk_session (wv_worker v') = wk_session (wv_worker vp)
        \<and> pm_session_resets (wv_metrics v') = pm_session_resets (wv_metrics vp)
        \<and> (\<forall>r \<in> set (fst (execute_all ck lib (q # post) vp)). \<not> session_lost r))"
proof (cases "cached_handle kind label (wv_worker v')")
  case (Some g)
  then have "g = h" using assms(3) by (simp add: worker_handle_def)
  with cached_found_earlier [OF assms(1), of kind label ck lib requests] Some assms(2) show ?thesis
    unfolding found_earlier_def by blast
next
  case None
  obtain r w where r: "find_object ck (wk_session (wv_worker v')) (kind_object_class kind) label (wv_world v') = (r, w)"
    by fastforce
  have "and_then (map_err (\<lambda>e. InternalError (show_anyhow (show_cause ck) e)) r) (ok_or (KeyNotFound label)) = Ok h"
    using worker_handle_miss [OF None, of ck] assms(3) r by simp
  then have "r = Ok (Some h)" by (cases r; cases "case r of Ok x \<Rightarrow> x | Err _ \<Rightarrow> None"; simp)
  with r show ?thesis by blast
qed


text \<open>Worlds in which every search on a session fails, and stays failing.\<close>

definition searches_fail :: "'w cryptoki \<Rightarrow> session \<Rightarrow> ('w \<Rightarrow> bool) \<Rightarrow> bool" where
  "searches_fail ck s gone \<longleftrightarrow>
     (\<forall>template w. gone w \<longrightarrow> (\<exists>e w'. ck_find_objects ck s template w = (Err e, w') \<and> gone w'))"

lemma dead_session_handle:
  assumes "searches_fail ck (wk_session (wv_worker v)) gone" and "gone (wv_world v)"
    and "wk_handles (wv_worker v) = []"
  shows "fst (worker_handle ck kind label v) = Err (InternalError ''C_FindObjects failed'')
       \<and> wv_worker (snd (worker_handle ck kind label v)) = wv_worker v
       \<and> gone (wv_world (snd (worker_handle ck kind label v)))"
proof -
  have none: "cached_handle kind label (wv_worker v) = None"
    using assms(3) by (simp add: cached_handle_def)
  obtain e w' where "ck_find_objects ck (wk_session (wv_worker v))
      [AClass (kind_object_class kind), ALabel (as_bytes label)] (wv_world v) = (Err e, w')" and "gone w'"
    using assms(1,2) unfolding searches_fail_def by blast
  then have "find_object ck (wk_session (wv_worker v)) (kind_object_class kind) label (wv_world v)
      = (Err (AnyError [''C_FindObjects failed''] (CkCause e)), w')"
    by (simp add: find_object_def prod_eq_iff)
  with none \<open>gone w'\<close> show ?thesis by (simp add: worker_handle_def on_world_def io_simps)
qed

lemma dead_session_execute:
  assumes "searches_fail ck (wk_session (wv_worker v)) gone" and "gone (wv_world v)"
    and "wk_handles (wv_worker v) = []"
  shows "fst (execute ck lib request v) = Err (InternalError ''C_FindObjects failed'')
       \<and> wv_worker (snd (execute ck lib request v)) = wv_worker v
       \<and> pm_session_resets (wv_metrics (snd (execute ck lib request v))) = pm_session_resets (wv_metrics v)
       \<and> gone (wv_world (snd (execute ck lib request v)))"
proof -
  obtain kind label where k: "request_key request = (kind, label)" by (cases "request_key request")
  note dead = dead_session_handle [OF assms, of kind label]
  have d: "dispatch ck lib request v =
      (Err (InternalError ''C_FindObjects failed''), snd (worker_handle ck kind label v))"
    by (rule dispatch_no_key [OF k conjunct1 [OF dead]])
  then show ?thesis
    using dead worker_handle_metrics [of ck kind label v] by (simp add: execute_def)
qed

text \<open>
  C37. A worker whose reset fails does not recover: once a session-fatal error was answered by
  a failed reopening, every later job on this worker, for whatever key and operation, is answered
  with the internal error of a failed search, the worker keeps the dead session, and no further
  reopening is attempted, as long as searches on that session keep failing. The errors of these searches
  may well be session fatal; they are wrapped before the code looks at them.
\<close>

theorem worker_stuck_after_failed_reset:
  assumes "dispatch ck lib request v = (Err (Hsm op e), v1)" and "is_session_fatal e"
    and "open_worker_session ck (wk_slot (wv_worker v1)) (wk_token (wv_worker v1)) (wv_world v1) = (Err e', w)"
    and dead: "searches_fail ck (wk_session (wv_worker v)) gone" and "gone w"
    and "v2 = snd (execute ck lib request v)"
  shows "fst (execute_all ck lib later v2) = replicate (length later) (Err (InternalError ''C_FindObjects failed''))
       \<and> wv_worker (snd (execute_all ck lib later v2)) = wv_worker v2
       \<and> wk_session (wv_worker v2) = wk_session (wv_worker v)
       \<and> pm_session_resets (wv_metrics (snd (execute_all ck lib later v2))) = pm_session_resets (wv_metrics v2)"
proof -
  have s1: "wk_session (wv_worker v1) = wk_session (wv_worker v)"
    using dispatch_session [of ck lib request v] by (simp add: assms(1))
  then have "wk_handles (wv_worker v2) = []" "wk_session (wv_worker v2) = wk_session (wv_worker v)" "gone (wv_world v2)"
    using assms(1-3,5,6) by (simp_all add: execute_def reset_session_def)
  then show ?thesis
  proof (induction later arbitrary: v2)
    case (Cons q qs)
    have "searches_fail ck (wk_session (wv_worker v2)) gone" using dead Cons.prems(2) by simp
    from dead_session_execute [OF this Cons.prems(3,1), of lib q]
    have ex: "fst (execute ck lib q v2) = Err (InternalError ''C_FindObjects failed'')"
      "wv_worker (snd (execute ck lib q v2)) = wv_worker v2" "gone (wv_world (snd (execute ck lib q v2)))"
      "pm_session_resets (wv_metrics (snd (execute ck lib q v2))) = pm_session_resets (wv_metrics v2)"
      by simp_all
    show ?case
      using Cons.IH [of "snd (execute ck lib q v2)"] Cons.prems ex
      by (simp add: case_prod_beta Let_def)
  qed simp
qed

section \<open>Evaluation on the software token\<close>

text \<open>A token whose first session was killed, and the worker that still holds it.\<close>

definition demo_token :: soft_token where
  "demo_token = blank_token\<lparr>tk_next := 4, tk_open := [1, 2], tk_dead := [1], tk_logged := True, tk_objects := demo_objects\<rparr>"

definition demo_config :: token_config where
  "demo_config = \<lparr> tc_module_path = ''lib'', tc_token_label = ''t'', tc_user_pin = ''1234'' \<rparr>"

definition demo_env :: "(string, key_handles) hash_map \<Rightarrow> soft_token \<Rightarrow> soft_token worker_env" where
  "demo_env handles token =
     \<lparr> wv_worker = \<lparr> wk_id = 0, wk_slot = 5, wk_token = demo_config, wk_session = 1, wk_handles = handles \<rparr>,
       wv_world = token, wv_metrics = pool_metrics_default, wv_events = [] \<rparr>"

definition ec_handles :: "(string, key_handles) hash_map" where
  "ec_handles = [(''ec'', key_handles_default\<lparr>kh_private := Some 20\<rparr>)]"

text \<open>A worker on a live session that signs twice: the second signature uses the cached handle.\<close>

abbreviation "live_env \<equiv> demo_env [] (demo_token\<lparr>tk_dead := []\<rparr>)"
abbreviation "two_signatures \<equiv> [JobSign ''ec'' Ecdsa [7], JobSign ''ec'' Ecdsa [8]]"

lemma two_signatures_handle:
  "fst (worker_handle soft_ck PrivateKind ''ec'' (snd (execute_all soft_ck sample_lib two_signatures live_env))) = Ok 20
   \<and> wk_session (wv_worker (snd (execute_all soft_ck sample_lib two_signatures live_env))) = 1"
  by (simp add: execute_def io_bind_def io_result_def worker_handle_def cached_handle_def store_handle_def demo_env_def
      key_handles_default_def with_session_def on_world_def soft_token_simps find_object_def demo_token_def
      blank_token_def demo_objects_def as_bytes_def)

theorem worker_handles_fresh_witness:
  "(\<exists>w. find_object soft_ck 1 PRIVATE_KEY ''ec''
      (wv_world (snd (execute_all soft_ck sample_lib two_signatures live_env))) = (Ok (Some 20), w))
   \<or> (\<exists>pre q post vp w. two_signatures = pre @ q # post \<and> vp = snd (execute_all soft_ck sample_lib pre live_env)
        \<and> find_object soft_ck 1 PRIVATE_KEY ''ec'' (wv_world vp) = (Ok (Some 20), w))"
proof -
  have empty: "wk_handles (wv_worker live_env) = []" by (simp add: demo_env_def)
  obtain v'' where "worker_handle soft_ck PrivateKind ''ec'' (snd (execute_all soft_ck sample_lib two_signatures live_env))
      = (Ok 20, v'')"
    using two_signatures_handle by (metis prod.collapse)
  from worker_handles_fresh [OF empty refl this] two_signatures_handle show ?thesis
    by (simp only: kind_object_class.simps conj_assoc) (elim disjE; metis)
qed

lemma demo_dispatch:
  assumes "demo_sign = dispatch soft_ck sample_lib (JobSign ''ec'' Ecdsa [7])"
    and "tk_dead token = [1]"
  shows "demo_sign (demo_env ec_handles token) =
     (Err (Hsm ''C_Sign'' (Pkcs11 SessionHandleInvalid ''session'')),
      (demo_env ec_handles token)\<lparr>wv_metrics := pool_metrics_default\<lparr>pm_handle_cache_hits := 1\<rparr>\<rparr>)"
  using assms
  by (simp add: io_bind_def io_result_def worker_handle_def cached_handle_def demo_env_def ec_handles_def
      key_handles_default_def with_session_def on_world_def soft_token_simps pool_metrics_default_def)


theorem worker_stuck_after_failed_reset_witness:
  "fst (execute_all soft_ck sample_lib [JobSign ''ec'' Ecdsa [8], JobGetPublicKey ''ec'']
      (snd (execute soft_ck sample_lib (JobSign ''ec'' Ecdsa [7]) (demo_env ec_handles (demo_token\<lparr>tk_removed := True\<rparr>)))))
   = [Err (InternalError ''C_FindObjects failed''), Err (InternalError ''C_FindObjects failed'')]"
proof -
  let ?v = "demo_env ec_handles (demo_token\<lparr>tk_removed := True\<rparr>)"
  let ?v1 = "?v\<lparr>wv_metrics := pool_metrics_default\<lparr>pm_handle_cache_hits := 1\<rparr>\<rparr>"
  have "dispatch soft_ck sample_lib (JobSign ''ec'' Ecdsa [7]) ?v =
     (Err (Hsm ''C_Sign'' (Pkcs11 SessionHandleInvalid ''session'')), ?v1)"
    by (rule demo_dispatch [OF refl]) (simp add: demo_token_def)
  moreover have "is_session_fatal (Pkcs11 SessionHandleInvalid ''session'')" by simp
  moreover have "open_worker_session soft_ck (wk_slot (wv_worker ?v1)) (wk_token (wv_worker ?v1)) (wv_world ?v1)
      = (Err (InternalError ''C_OpenSession(CKF_RW_SESSION) failed: pkcs11 error''), demo_token\<lparr>tk_removed := True\<rparr>)"
    by (simp add: open_worker_session_def login_session_def io_simps on_error_def soft_token_simps
        demo_token_def blank_token_def demo_env_def)
  moreover have "searches_fail soft_ck (wk_session (wv_worker ?v)) (\<lambda>w. \<not> tk_live 1 w)"
    by (simp add: searches_fail_def demo_env_def soft_token_simps)
  moreover have "\<not> tk_live 1 (demo_token\<lparr>tk_removed := True\<rparr>)" by (simp add: tk_live_def demo_token_def)
  ultimately show ?thesis
    using worker_stuck_after_failed_reset [of soft_ck sample_lib "JobSign ''ec'' Ecdsa [7]" ?v _ _ ?v1 _ _ _ _
        "[JobSign ''ec'' Ecdsa [8], JobGetPublicKey ''ec'']", OF _ _ _ _ _ refl]
    by simp
qed

end
