(* ===== verification/Pool.thy ===== *)
theory Pool
  imports Worker "HOL-Library.Multiset"
begin

text \<open>
  The worker pool, \<open>pkcs11/pool.rs\<close>: its configuration, start-up, submission and shutdown,
  and the pool as a transition system in which submissions, workers and timeouts interleave.
  The bounded channel (crate \<open>flume\<close>) is a parameter; what is assumed of it is \<open>flume_laws\<close>.
  Taking a job, executing it, and giving up on it are separate steps.
\<close>

section \<open>Configuration\<close>

record pool_config =
  pc_workers :: usize
  pc_queue_depth :: usize
  pc_job_timeout :: duration

text \<open>\<open>available_parallelism()\<close> is an argument, \<open>None\<close> when it fails.\<close>

definition pool_config_default :: "usize option \<Rightarrow> pool_config" where
  "pool_config_default parallelism =
     (let workers = unwrap_or 4 parallelism in
      \<lparr> pc_workers = workers, pc_queue_depth = workers * 2, pc_job_timeout = from_secs 5 \<rparr>)"

definition env_usize :: "environ \<Rightarrow> string \<Rightarrow> usize option" where
  "env_usize env key = env_parse parse_u64 env key"

definition pool_config_from_env :: "usize option \<Rightarrow> environ \<Rightarrow> pool_config" where
  "pool_config_from_env parallelism env =
     (let defaults = pool_config_default parallelism in
      \<lparr> pc_workers = unwrap_or (pc_workers defaults) (env_usize env ''HSM_WORKERS''),
        pc_queue_depth = unwrap_or (pc_queue_depth defaults) (env_usize env ''HSM_QUEUE_DEPTH''),
        pc_job_timeout = unwrap_or (pc_job_timeout defaults)
          (map_option from_millis (env_usize env ''HSM_JOB_TIMEOUT_MS'')) \<rparr>)"

section \<open>The channel\<close>

datatype send_outcome = Sent | Full | Disconnected

text \<open>What \<open>recv\<close> does now: take a job, report that all senders are gone, or wait.\<close>

datatype recv_outcome = Received job | Closed_Channel | Waits

record 'q flume =
  fl_bounded :: "usize \<Rightarrow> 'q"
  fl_try_send :: "job \<Rightarrow> 'q \<Rightarrow> send_outcome \<times> 'q"
  fl_recv :: "'q \<Rightarrow> recv_outcome \<times> 'q"
  fl_len :: "'q \<Rightarrow> usize"
  fl_drop_sender :: "'q \<Rightarrow> 'q"
  fl_clone_receiver :: "'q \<Rightarrow> 'q"
  fl_drop_receiver :: "'q \<Rightarrow> 'q"

section \<open>State\<close>

datatype worker_thread = Idle worker | Busy worker job instant | Exited

datatype caller = Waiting job_request instant | Answered job_request "(job_response, pool_error) result"

text \<open>
  \<open>ps_executed\<close> and \<open>ps_refused\<close> are history: which job was executed with which result, and
  which submission was turned away. Nothing reads them.
\<close>

record ('w, 'q) pool_sys =
  ps_world :: 'w
  ps_metrics :: pool_metrics
  ps_events :: "metric_event list"
  ps_queue :: 'q
  ps_open :: bool
  ps_threads :: "worker_thread list"
  ps_callers :: "nat \<Rightarrow> caller option"
  ps_next :: nat
  ps_now :: instant
  ps_executed :: "(nat \<times> job_request \<times> (job_response, pool_error) result) list"
  ps_refused :: "(nat \<times> pool_error) list"

section \<open>Starting\<close>

text \<open>
  The readiness loop: one message per worker, in the order the workers sent them; the channel
  ends early when a thread died without sending.
\<close>

fun collect_ready :: "nat \<Rightarrow> (unit, pool_error) result list \<Rightarrow> (unit, pool_error) result" where
  "collect_ready 0 msgs = Ok ()"
| "collect_ready (Suc n) [] = Err (InternalError ''a worker thread died during startup'')"
| "collect_ready (Suc n) (Ok _ # msgs) = collect_ready n msgs"
| "collect_ready (Suc n) (Err e # msgs) = Err e"

text \<open>
  The threads run \<open>Worker::new\<close> in the order \<open>schedule\<close>; a thread in \<open>dies\<close> panics instead.
  The messages and the workers are in that order.
\<close>

fun start_workers ::
    "'w cryptoki \<Rightarrow> slot \<Rightarrow> token_config \<Rightarrow> (nat \<Rightarrow> bool) \<Rightarrow> nat list \<Rightarrow> 'w
     \<Rightarrow> (unit, pool_error) result list \<times> worker list \<times> 'w" where
  "start_workers ck slot token dies [] w = ([], [], w)"
| "start_workers ck slot token dies (i # schedule) w =
     (if dies i then start_workers ck slot token dies schedule w
      else case worker_new ck i slot token w of
        (Ok wk, w1) \<Rightarrow>
          (let (msgs, wks, w2) = start_workers ck slot token dies schedule w1 in (Ok () # msgs, wk # wks, w2))
      | (Err e, w1) \<Rightarrow>
          (let (msgs, wks, w2) = start_workers ck slot token dies schedule w1 in (Err e # msgs, wks, w2)))"

text \<open>One receiver per worker; the original one is dropped after the loop.\<close>

definition pool_channel :: "'q flume \<Rightarrow> usize \<Rightarrow> nat \<Rightarrow> 'q" where
  "pool_channel fl depth n = fl_drop_receiver fl ((fl_clone_receiver fl ^^ n) (fl_bounded fl depth))"

text \<open>\<open>spawn_error\<close> is the first failure of \<open>thread::Builder::spawn\<close>, if there is one.\<close>

definition pool_start ::
    "'w cryptoki \<Rightarrow> 'q flume \<Rightarrow> (nat \<Rightarrow> bool) \<Rightarrow> string option \<Rightarrow> nat list \<Rightarrow> instant
     \<Rightarrow> token_config \<Rightarrow> pool_config \<Rightarrow> 'w \<Rightarrow> (('w, 'q) pool_sys, pool_error) result \<times> 'w" where
  "pool_start ck fl dies spawn_error schedule now token config w =
     (case load_module ck token w of
        (Err e, w1) \<Rightarrow>
          (Err (InternalError (''failed to open token: '' @ show_chain (show_cause ck) e)), w1)
      | (Ok slot, w1) \<Rightarrow>
          (case spawn_error of
             Some e \<Rightarrow> (Err (InternalError (''failed to spawn worker: '' @ e)), w1)
           | None \<Rightarrow>
               (let (msgs, wks, w2) = start_workers ck slot token dies schedule w1 in
                case collect_ready (unat (pc_workers config)) msgs of
                  Err e \<Rightarrow> (Err e, w2)
                | Ok _ \<Rightarrow>
                    (Ok \<lparr> ps_world = w2, ps_metrics = pool_metrics_default, ps_events = [],
                          ps_queue = pool_channel fl (pc_queue_depth config) (unat (pc_workers config)),
                          ps_open = True, ps_threads = map Idle wks, ps_callers = Map.empty, ps_next = 0,
                          ps_now = now, ps_executed = [], ps_refused = [] \<rparr>, w2))))"

section \<open>Submitting\<close>

definition answer :: "nat \<Rightarrow> job_request \<Rightarrow> (job_response, pool_error) result \<Rightarrow> ('w, 'q) pool_sys \<Rightarrow> ('w, 'q) pool_sys" where
  "answer rid request r s = s\<lparr>ps_callers := (ps_callers s)(rid \<mapsto> Answered request r)\<rparr>"

text \<open>\<open>submit\<close> up to the await.\<close>

definition pool_submit :: "'q flume \<Rightarrow> job_request \<Rightarrow> ('w, 'q) pool_sys \<Rightarrow> ('w, 'q) pool_sys" where
  "pool_submit fl request s =
     (let rid = ps_next s; m = ps_metrics s;
          m1 = m\<lparr>pm_jobs_submitted := pm_jobs_submitted m + 1\<rparr>;
          jb = \<lparr> jb_request = request, jb_responder = rid, jb_enqueued_at = ps_now s \<rparr>;
          (outcome, q) = fl_try_send fl jb (ps_queue s);
          s1 = s\<lparr>ps_next := Suc rid, ps_metrics := m1, ps_queue := q\<rparr>
      in case outcome of
           Sent \<Rightarrow> s1\<lparr>ps_callers := (ps_callers s1)(rid \<mapsto> Waiting request (ps_now s))\<rparr>
         | Full \<Rightarrow>
             answer rid request (Err Overloaded)
               (s1\<lparr>ps_metrics := m1\<lparr>pm_jobs_rejected_queue_full := pm_jobs_rejected_queue_full m1 + 1\<rparr>,
                   ps_refused := (rid, Overloaded) # ps_refused s\<rparr>)
         | Disconnected \<Rightarrow>
             answer rid request (Err ShuttingDown)
               (s1\<lparr>ps_refused := (rid, ShuttingDown) # ps_refused s\<rparr>))"

datatype await_outcome = Delivered "(job_response, pool_error) result" | SenderDropped | TimedOut

text \<open>The end of the await of \<open>submit\<close>, for a caller still waiting; others are gone.\<close>

definition pool_await :: "nat \<Rightarrow> await_outcome \<Rightarrow> ('w, 'q) pool_sys \<Rightarrow> ('w, 'q) pool_sys" where
  "pool_await rid outcome s =
     (case ps_callers s rid of
        Some (Waiting request t0) \<Rightarrow>
          (case outcome of
             Delivered r \<Rightarrow> answer rid request r s
           | SenderDropped \<Rightarrow> answer rid request (Err ShuttingDown) s
           | TimedOut \<Rightarrow>
               answer rid request (Err Timeout)
                 (s\<lparr>ps_metrics := (ps_metrics s)\<lparr>pm_jobs_timed_out := pm_jobs_timed_out (ps_metrics s) + 1\<rparr>\<rparr>))
      | _ \<Rightarrow> s)"

section \<open>Working\<close>

definition pool_take :: "nat \<Rightarrow> worker \<Rightarrow> job \<Rightarrow> 'q \<Rightarrow> ('w, 'q) pool_sys \<Rightarrow> ('w, 'q) pool_sys" where
  "pool_take i wk jb q s = s\<lparr>ps_queue := q, ps_threads := (ps_threads s)[i := Busy wk jb (ps_now s)]\<rparr>"

text \<open>Executing a job and sending its result on the responder.\<close>

definition pool_finish ::
    "'w cryptoki \<Rightarrow> ('k, 'sg, 'r) crypto_lib \<Rightarrow> nat \<Rightarrow> worker \<Rightarrow> job \<Rightarrow> instant \<Rightarrow> instant
     \<Rightarrow> ('w, 'q) pool_sys \<Rightarrow> ('w, 'q) pool_sys" where
  "pool_finish ck lib i wk jb t1 t2 s =
     (let (r, v) = run_job ck lib t1 t2 (ps_now s) jb
            \<lparr> wv_worker = wk, wv_world = ps_world s, wv_metrics = ps_metrics s, wv_events = ps_events s \<rparr>
      in pool_await (jb_responder jb) (Delivered r)
           (s\<lparr>ps_world := wv_world v, ps_metrics := wv_metrics v, ps_events := wv_events v,
              ps_threads := (ps_threads s)[i := Idle (wv_worker v)],
              ps_executed := (jb_responder jb, jb_request jb, r) # ps_executed s\<rparr>))"

definition pool_exit :: "'w cryptoki \<Rightarrow> 'q flume \<Rightarrow> nat \<Rightarrow> worker \<Rightarrow> ('w, 'q) pool_sys \<Rightarrow> ('w, 'q) pool_sys" where
  "pool_exit ck fl i wk s =
     s\<lparr>ps_world := worker_exit ck wk (ps_world s), ps_queue := fl_drop_receiver fl (ps_queue s),
       ps_threads := (ps_threads s)[i := Exited]\<rparr>"

definition pool_close :: "'q flume \<Rightarrow> ('w, 'q) pool_sys \<Rightarrow> ('w, 'q) pool_sys" where
  "pool_close fl s = s\<lparr>ps_open := False, ps_queue := fl_drop_sender fl (ps_queue s)\<rparr>"

text \<open>
  The steps of a running pool. A job is executed in one step on the shared token: the calls two workers make
  into the module are ordered job by job. A panic in the module or in a library is not a step, so a thread
  ends only when the channel is closed, and the case \<open>SenderDropped\<close> of the await is not taken.
\<close>

inductive pool_step ::
    "'w cryptoki \<Rightarrow> ('k, 'sg, 'r) crypto_lib \<Rightarrow> 'q flume \<Rightarrow> duration \<Rightarrow> ('w, 'q) pool_sys \<Rightarrow> ('w, 'q) pool_sys \<Rightarrow> bool"
  for ck lib fl job_timeout where
  tick: "ps_now s \<le> t \<Longrightarrow> pool_step ck lib fl job_timeout s (s\<lparr>ps_now := t\<rparr>)"
| submit: "ps_open s \<Longrightarrow> pool_step ck lib fl job_timeout s (pool_submit fl request s)"
| take_job:
    "i < length (ps_threads s) \<Longrightarrow> ps_threads s ! i = Idle wk \<Longrightarrow>
     fl_recv fl (ps_queue s) = (Received jb, q) \<Longrightarrow>
     pool_step ck lib fl job_timeout s (pool_take i wk jb q s)"
| finish:
    "i < length (ps_threads s) \<Longrightarrow> ps_threads s ! i = Busy wk jb t1 \<Longrightarrow> t1 \<le> t2 \<Longrightarrow> t2 \<le> ps_now s \<Longrightarrow>
     pool_step ck lib fl job_timeout s (pool_finish ck lib i wk jb t1 t2 s)"
| timeout:
    "ps_callers s rid = Some (Waiting request t0) \<Longrightarrow> t0 + job_timeout \<le> ps_now s \<Longrightarrow>
     pool_step ck lib fl job_timeout s (pool_await rid TimedOut s)"
| close: "ps_open s \<Longrightarrow> pool_step ck lib fl job_timeout s (pool_close fl s)"
| exit_thread:
    "i < length (ps_threads s) \<Longrightarrow> ps_threads s ! i = Idle wk \<Longrightarrow>
     fl_recv fl (ps_queue s) = (Closed_Channel, q) \<Longrightarrow>
     pool_step ck lib fl job_timeout s (pool_exit ck fl i wk s)"

inductive_cases pool_stepE: "pool_step ck lib fl job_timeout s t"

section \<open>What is assumed of the channel\<close>

text \<open>
  A channel is seen through its content in order, its capacity, and the number of its two
  kinds of ends: first in first out, full at its capacity, disconnected for a sender when no
  receiver is left and for a receiver when it is empty and no sender is left.
\<close>

record chan_view =
  cv_items :: "job list"
  cv_cap :: nat
  cv_senders :: nat
  cv_receivers :: nat

definition flume_laws :: "'q flume \<Rightarrow> ('q \<Rightarrow> chan_view) \<Rightarrow> bool" where
  "flume_laws fl chan \<longleftrightarrow>
     (\<forall>d. chan (fl_bounded fl d) = \<lparr> cv_items = [], cv_cap = unat d, cv_senders = 1, cv_receivers = 1 \<rparr>)
     \<and> (\<forall>j q. cv_receivers (chan q) = 0 \<longrightarrow>
          fst (fl_try_send fl j q) = Disconnected \<and> chan (snd (fl_try_send fl j q)) = chan q)
     \<and> (\<forall>j q. 0 < cv_receivers (chan q) \<and> length (cv_items (chan q)) < cv_cap (chan q) \<longrightarrow>
          fst (fl_try_send fl j q) = Sent
          \<and> chan (snd (fl_try_send fl j q)) = (chan q)\<lparr>cv_items := cv_items (chan q) @ [j]\<rparr>)
     \<and> (\<forall>j q. 0 < cv_receivers (chan q) \<and> 0 < cv_cap (chan q) \<and> cv_cap (chan q) \<le> length (cv_items (chan q)) \<longrightarrow>
          fst (fl_try_send fl j q) = Full \<and> chan (snd (fl_try_send fl j q)) = chan q)
     \<and> (\<forall>q j js. cv_items (chan q) = j # js \<longrightarrow>
          fst (fl_recv fl q) = Received j \<and> chan (snd (fl_recv fl q)) = (chan q)\<lparr>cv_items := js\<rparr>)
     \<and> (\<forall>q. cv_items (chan q) = [] \<longrightarrow>
          fst (fl_recv fl q) = (if cv_senders (chan q) = 0 then Closed_Channel else Waits)
          \<and> chan (snd (fl_recv fl q)) = chan q)
     \<and> (\<forall>q. chan (fl_drop_sender fl q) = (chan q)\<lparr>cv_senders := cv_senders (chan q) - 1\<rparr>)
     \<and> (\<forall>q. chan (fl_clone_receiver fl q) = (chan q)\<lparr>cv_receivers := cv_receivers (chan q) + 1\<rparr>)
     \<and> (\<forall>q. chan (fl_drop_receiver fl q) = (chan q)\<lparr>cv_receivers := cv_receivers (chan q) - 1\<rparr>)
     \<and> (\<forall>q. fl_len fl q = of_nat (length (cv_items (chan q))))"

lemma flume_received:
  assumes "flume_laws fl chan" and "fl_recv fl q = (Received j, q')"
  shows "\<exists>js. cv_items (chan q) = j # js \<and> chan q' = (chan q)\<lparr>cv_items := js\<rparr>"
proof (cases "cv_items (chan q)")
  case Nil
  then have "fst (fl_recv fl q) \<in> {Closed_Channel, Waits}" using assms(1) by (simp add: flume_laws_def)
  then show ?thesis using assms(2) by simp
next
  case (Cons k js)
  then have "fst (fl_recv fl q) = Received k \<and> chan (snd (fl_recv fl q)) = (chan q)\<lparr>cv_items := js\<rparr>"
    using assms(1) by (simp add: flume_laws_def)
  then show ?thesis using assms(2) Cons by simp
qed

lemma flume_closed:
  assumes "flume_laws fl chan" and "fl_recv fl q = (Closed_Channel, q')"
  shows "cv_items (chan q) = [] \<and> cv_senders (chan q) = 0"
proof (cases "cv_items (chan q)")
  case Nil
  then have "fst (fl_recv fl q) = (if cv_senders (chan q) = 0 then Closed_Channel else Waits)"
    using assms(1) by (simp add: flume_laws_def)
  then show ?thesis using assms(2) Nil by (simp split: if_splits)
next
  case (Cons k js)
  then have "fst (fl_recv fl q) = Received k" using assms(1) by (simp add: flume_laws_def)
  then show ?thesis using assms(2) by simp
qed

lemma flume_try_send:
  fixes q j
  assumes "flume_laws fl chan" and "0 < cv_cap (chan q)"
  defines "o' \<equiv> fst (fl_try_send fl j q)" and "q' \<equiv> snd (fl_try_send fl j q)"
  shows "o' = Disconnected \<and> cv_receivers (chan q) = 0 \<and> chan q' = chan q
    \<or> o' = Full \<and> cv_cap (chan q) \<le> length (cv_items (chan q)) \<and> chan q' = chan q
    \<or> o' = Sent \<and> length (cv_items (chan q)) < cv_cap (chan q)
        \<and> chan q' = (chan q)\<lparr>cv_items := cv_items (chan q) @ [j]\<rparr>"
proof -
  consider "cv_receivers (chan q) = 0"
    | "0 < cv_receivers (chan q)" "length (cv_items (chan q)) < cv_cap (chan q)"
    | "0 < cv_receivers (chan q)" "cv_cap (chan q) \<le> length (cv_items (chan q))" by linarith
  then show ?thesis
    using assms(1,2) unfolding o'_def q'_def by cases (simp_all add: flume_laws_def)
qed

lemma flume_drops:
  assumes "flume_laws fl chan"
  shows "chan (fl_drop_sender fl q) = (chan q)\<lparr>cv_senders := cv_senders (chan q) - 1\<rparr>"
    and "chan (fl_drop_receiver fl q) = (chan q)\<lparr>cv_receivers := cv_receivers (chan q) - 1\<rparr>"
    and "chan (fl_clone_receiver fl q) = (chan q)\<lparr>cv_receivers := cv_receivers (chan q) + 1\<rparr>"
    and "chan (fl_bounded fl d) = \<lparr> cv_items = [], cv_cap = unat d, cv_senders = 1, cv_receivers = 1 \<rparr>"
  using assms by (simp_all add: flume_laws_def)

section \<open>The invariant\<close>

fun thread_jobs :: "worker_thread \<Rightarrow> job multiset" where
  "thread_jobs (Busy _ jb _) = {#jb#}"
| "thread_jobs _ = {#}"

fun thread_alive :: "worker_thread \<Rightarrow> nat" where
  "thread_alive Exited = 0"
| "thread_alive _ = 1"

definition pending :: "('q \<Rightarrow> chan_view) \<Rightarrow> ('w, 'q) pool_sys \<Rightarrow> job multiset" where
  "pending chan s = mset (cv_items (chan (ps_queue s))) + sum_list (map thread_jobs (ps_threads s))"

definition accounted :: "('q \<Rightarrow> chan_view) \<Rightarrow> ('w, 'q) pool_sys \<Rightarrow> bool" where
  "accounted chan s \<longleftrightarrow>
     image_mset jb_responder (pending chan s) + mset (map fst (ps_executed s)) + mset (map fst (ps_refused s))
       = mset_set {..<ps_next s}"

definition channel_ok :: "('q \<Rightarrow> chan_view) \<Rightarrow> nat \<Rightarrow> ('w, 'q) pool_sys \<Rightarrow> bool" where
  "channel_ok chan depth s \<longleftrightarrow>
     cv_cap (chan (ps_queue s)) = depth
     \<and> cv_senders (chan (ps_queue s)) = of_bool (ps_open s)
     \<and> cv_receivers (chan (ps_queue s)) = sum_list (map thread_alive (ps_threads s))
     \<and> length (cv_items (chan (ps_queue s))) \<le> depth"

definition callers_ok :: "('q \<Rightarrow> chan_view) \<Rightarrow> ('w, 'q) pool_sys \<Rightarrow> bool" where
  "callers_ok chan s \<longleftrightarrow>
     (\<forall>rid. ps_callers s rid = None \<longleftrightarrow> ps_next s \<le> rid)
     \<and> (\<forall>jb. jb \<in># pending chan s \<longrightarrow>
          ps_callers s (jb_responder jb) = Some (Waiting (jb_request jb) (jb_enqueued_at jb))
          \<or> ps_callers s (jb_responder jb) = Some (Answered (jb_request jb) (Err Timeout)))
     \<and> (\<forall>rid req r. (rid, req, r) \<in> set (ps_executed s) \<longrightarrow>
          ps_callers s rid = Some (Answered req r) \<or> ps_callers s rid = Some (Answered req (Err Timeout)))
     \<and> (\<forall>rid e. (rid, e) \<in> set (ps_refused s) \<longrightarrow>
          e \<in> {Overloaded, ShuttingDown} \<and> (\<exists>req. ps_callers s rid = Some (Answered req (Err e))))"

definition counters_ok :: "('w, 'q) pool_sys \<Rightarrow> bool" where
  "counters_ok s \<longleftrightarrow>
     pm_jobs_submitted (ps_metrics s) = of_nat (ps_next s)
     \<and> pm_jobs_completed (ps_metrics s) = of_nat (length (ps_executed s))
     \<and> pm_jobs_failed (ps_metrics s) = of_nat (length (filter (\<lambda>(_, _, r). \<not> is_ok r) (ps_executed s)))
     \<and> pm_jobs_rejected_queue_full (ps_metrics s)
          = of_nat (length (filter (\<lambda>(_, e). e = Overloaded) (ps_refused s)))"

definition pool_inv :: "('q \<Rightarrow> chan_view) \<Rightarrow> nat \<Rightarrow> ('w, 'q) pool_sys \<Rightarrow> bool" where
  "pool_inv chan depth s \<longleftrightarrow> channel_ok chan depth s \<and> accounted chan s \<and> callers_ok chan s \<and> counters_ok s"

lemma sum_list_update_split:
  fixes f :: "'a \<Rightarrow> 'b :: comm_monoid_add"
  assumes "i < length xs"
  shows "\<exists>R. \<forall>y. sum_list (map f (xs[i := y])) = f y + R"
  using assms
  by (intro exI [where x = "sum_list (map f (take i xs)) + sum_list (map f (drop (Suc i) xs))"])
     (simp add: upd_conv_take_nth_drop ac_simps)

lemma update_thread:
  fixes f :: "'a \<Rightarrow> 'b :: comm_monoid_add"
  assumes "i < length xs"
  obtains R where "sum_list (map f xs) = f (xs ! i) + R" "\<And>y. sum_list (map f (xs[i := y])) = f y + R"
proof -
  obtain R where R: "\<forall>y. sum_list (map f (xs[i := y])) = f y + R"
    using sum_list_update_split [OF assms] by blast
  from R [rule_format, of "xs ! i"] have "sum_list (map f xs) = f (xs ! i) + R" by simp
  with R that show thesis by blast
qed

lemma unique_in_range:
  assumes "{#x#} + A + B + C = mset_set {..<n :: nat}"
  shows "x \<notin># A \<and> x \<notin># B \<and> x \<notin># C \<and> x < n"
proof -
  have "count ({#x#} + A + B + C) x \<le> 1"
    unfolding assms by (simp add: count_mset_set')
  then have "count A x = 0 \<and> count B x = 0 \<and> count C x = 0" by simp
  moreover have "x \<in># mset_set {..<n}" unfolding assms [symmetric] by simp
  ultimately show ?thesis by (simp add: count_eq_zero_iff)
qed

lemma pool_inv_tick: "pool_inv chan depth s \<Longrightarrow> pool_inv chan depth (s\<lparr>ps_now := t\<rparr>)"
  by (simp add: pool_inv_def channel_ok_def accounted_def callers_ok_def counters_ok_def pending_def)

lemma pool_inv_close:
  assumes "flume_laws fl chan" and "pool_inv chan depth s"
  shows "pool_inv chan depth (pool_close fl s)"
  using assms(2)
  by (auto simp: pool_inv_def channel_ok_def accounted_def callers_ok_def counters_ok_def pending_def
      pool_close_def flume_drops [OF assms(1)] split: if_splits)

lemma pool_inv_exit:
  assumes laws: "flume_laws fl chan" and inv: "pool_inv chan depth s"
    and i: "i < length (ps_threads s)" and idle: "ps_threads s ! i = Idle wk"
  shows "pool_inv chan depth (pool_exit ck fl i wk s)"
proof -
  obtain R where "sum_list (map thread_jobs (ps_threads s)) = thread_jobs (ps_threads s ! i) + R"
    "\<And>y. sum_list (map thread_jobs ((ps_threads s)[i := y])) = thread_jobs y + R"
    by (rule update_thread [OF i, of thread_jobs]) blast
  then have jobs: "sum_list (map thread_jobs ((ps_threads s)[i := Exited])) = sum_list (map thread_jobs (ps_threads s))"
    by (simp add: idle)
  obtain Q where "sum_list (map thread_alive (ps_threads s)) = thread_alive (ps_threads s ! i) + Q"
    "\<And>y. sum_list (map thread_alive ((ps_threads s)[i := y])) = thread_alive y + Q"
    by (rule update_thread [OF i, of thread_alive]) blast
  then have alive: "sum_list (map thread_alive ((ps_threads s)[i := Exited]))
      = sum_list (map thread_alive (ps_threads s)) - 1"
    by (simp add: idle)
  show ?thesis
    using inv
    by (simp add: pool_inv_def channel_ok_def accounted_def callers_ok_def counters_ok_def pending_def
        pool_exit_def flume_drops [OF laws] jobs alive)
qed

lemma pool_inv_take:
  assumes laws: "flume_laws fl chan" and inv: "pool_inv chan depth s"
    and i: "i < length (ps_threads s)" and idle: "ps_threads s ! i = Idle wk"
    and recv: "fl_recv fl (ps_queue s) = (Received jb, q)"
  shows "pool_inv chan depth (pool_take i wk jb q s)"
proof -
  obtain js where items: "cv_items (chan (ps_queue s)) = jb # js"
    and q: "chan q = (chan (ps_queue s))\<lparr>cv_items := js\<rparr>"
    using flume_received [OF laws recv] by blast
  obtain R where R: "sum_list (map thread_jobs (ps_threads s)) = thread_jobs (ps_threads s ! i) + R"
    "\<And>y. sum_list (map thread_jobs ((ps_threads s)[i := y])) = thread_jobs y + R"
    by (rule update_thread [OF i, of thread_jobs]) blast
  obtain Q where Q: "sum_list (map thread_alive (ps_threads s)) = thread_alive (ps_threads s ! i) + Q"
    "\<And>y. sum_list (map thread_alive ((ps_threads s)[i := y])) = thread_alive y + Q"
    by (rule update_thread [OF i, of thread_alive]) blast
  have pend: "pending chan (pool_take i wk jb q s) = pending chan s"
    using R by (simp add: pending_def pool_take_def items q idle)
  show ?thesis
    using inv Q items pend
    by (simp add: pool_inv_def channel_ok_def accounted_def callers_ok_def counters_ok_def)
       (simp add: pool_take_def q idle)
qed

lemma pool_await_frame [simp]:
  "ps_queue (pool_await rid oc s) = ps_queue s" "ps_threads (pool_await rid oc s) = ps_threads s"
  "ps_next (pool_await rid oc s) = ps_next s" "ps_executed (pool_await rid oc s) = ps_executed s"
  "ps_refused (pool_await rid oc s) = ps_refused s" "ps_open (pool_await rid oc s) = ps_open s"
  "ps_now (pool_await rid oc s) = ps_now s"
  "pending chan (pool_await rid oc s) = pending chan s"
  by (simp_all add: pool_await_def answer_def pending_def split: option.splits caller.splits await_outcome.splits)

lemma pool_await_callers:
  "ps_callers (pool_await rid oc s) rid' =
     (case ps_callers s rid of
        Some (Waiting request t0) \<Rightarrow>
          if rid' = rid then Some (Answered request
             (case oc of Delivered r \<Rightarrow> r | SenderDropped \<Rightarrow> Err ShuttingDown | TimedOut \<Rightarrow> Err Timeout))
          else ps_callers s rid'
      | _ \<Rightarrow> ps_callers s rid')"
  by (simp add: pool_await_def answer_def split: option.splits caller.splits await_outcome.splits)

lemma counters_ok_await [simp]: "counters_ok (pool_await rid oc s) = counters_ok s"
  by (simp add: counters_ok_def pool_await_def answer_def split: option.splits caller.splits await_outcome.splits)

lemma callers_okI:
  assumes "\<And>rid. ps_callers s rid = None \<longleftrightarrow> ps_next s \<le> rid"
    and "\<And>jb. jb \<in># pending chan s \<Longrightarrow>
          ps_callers s (jb_responder jb) = Some (Waiting (jb_request jb) (jb_enqueued_at jb))
          \<or> ps_callers s (jb_responder jb) = Some (Answered (jb_request jb) (Err Timeout))"
    and "\<And>rid req r. (rid, req, r) \<in> set (ps_executed s) \<Longrightarrow>
          ps_callers s rid = Some (Answered req r) \<or> ps_callers s rid = Some (Answered req (Err Timeout))"
    and "\<And>rid e. (rid, e) \<in> set (ps_refused s) \<Longrightarrow>
          e \<in> {Overloaded, ShuttingDown} \<and> (\<exists>req. ps_callers s rid = Some (Answered req (Err e)))"
  shows "callers_ok chan s"
  using assms by (simp add: callers_ok_def)

lemma callers_okD:
  assumes "callers_ok chan s"
  shows "ps_callers s rid = None \<longleftrightarrow> ps_next s \<le> rid"
    and "jb \<in># pending chan s \<Longrightarrow>
          ps_callers s (jb_responder jb) = Some (Waiting (jb_request jb) (jb_enqueued_at jb))
          \<or> ps_callers s (jb_responder jb) = Some (Answered (jb_request jb) (Err Timeout))"
    and "(rid, req, r) \<in> set (ps_executed s) \<Longrightarrow>
          ps_callers s rid = Some (Answered req r) \<or> ps_callers s rid = Some (Answered req (Err Timeout))"
    and "(rid, e) \<in> set (ps_refused s) \<Longrightarrow>
          e \<in> {Overloaded, ShuttingDown} \<and> (\<exists>req. ps_callers s rid = Some (Answered req (Err e)))"
  using assms unfolding callers_ok_def by blast+

lemma pool_inv_timeout:
  assumes inv: "pool_inv chan depth s" and wait: "ps_callers s rid = Some (Waiting request t0)"
  shows "pool_inv chan depth (pool_await rid TimedOut s)"
proof -
  have new: "ps_callers (pool_await rid TimedOut s) = (ps_callers s)(rid \<mapsto> Answered request (Err Timeout))"
    using wait by (auto simp: pool_await_callers)
  from inv have ok: "callers_ok chan s" by (simp add: pool_inv_def)
  have "callers_ok chan (pool_await rid TimedOut s)"
  proof (rule callers_okI)
    fix rid'
    show "ps_callers (pool_await rid TimedOut s) rid' = None \<longleftrightarrow> ps_next (pool_await rid TimedOut s) \<le> rid'"
      using callers_okD(1) [OF ok, of rid] callers_okD(1) [OF ok, of rid'] wait by (simp add: new)
  next
    fix jb
    assume "jb \<in># pending chan (pool_await rid TimedOut s)"
    then show "ps_callers (pool_await rid TimedOut s) (jb_responder jb) = Some (Waiting (jb_request jb) (jb_enqueued_at jb))
        \<or> ps_callers (pool_await rid TimedOut s) (jb_responder jb) = Some (Answered (jb_request jb) (Err Timeout))"
      using callers_okD(2) [OF ok, of jb] wait by (auto simp: new)
  next
    fix rid' req r
    assume "(rid', req, r) \<in> set (ps_executed (pool_await rid TimedOut s))"
    then show "ps_callers (pool_await rid TimedOut s) rid' = Some (Answered req r)
        \<or> ps_callers (pool_await rid TimedOut s) rid' = Some (Answered req (Err Timeout))"
      using callers_okD(3) [OF ok, of rid' req r] wait by (auto simp: new)
  next
    fix rid' e
    assume "(rid', e) \<in> set (ps_refused (pool_await rid TimedOut s))"
    then show "e \<in> {Overloaded, ShuttingDown}
        \<and> (\<exists>req. ps_callers (pool_await rid TimedOut s) rid' = Some (Answered req (Err e)))"
      using callers_okD(4) [OF ok, of rid' e] wait by (auto simp: new)
  qed
  then show ?thesis
    using inv by (simp add: pool_inv_def channel_ok_def accounted_def)
qed

lemma execute_counts:
  "pm_jobs_completed (wv_metrics (snd (execute ck lib request v))) = pm_jobs_completed (wv_metrics v)
   \<and> pm_jobs_failed (wv_metrics (snd (execute ck lib request v))) = pm_jobs_failed (wv_metrics v)
   \<and> pm_jobs_submitted (wv_metrics (snd (execute ck lib request v))) = pm_jobs_submitted (wv_metrics v)
   \<and> pm_jobs_rejected_queue_full (wv_metrics (snd (execute ck lib request v)))
       = pm_jobs_rejected_queue_full (wv_metrics v)"
proof -
  obtain kind label where k: "request_key request = (kind, label)" by (cases "request_key request")
  have h: "pm_jobs_completed (wv_metrics (snd (worker_handle ck kind label v))) = pm_jobs_completed (wv_metrics v)
    \<and> pm_jobs_failed (wv_metrics (snd (worker_handle ck kind label v))) = pm_jobs_failed (wv_metrics v)
    \<and> pm_jobs_submitted (wv_metrics (snd (worker_handle ck kind label v))) = pm_jobs_submitted (wv_metrics v)
    \<and> pm_jobs_rejected_queue_full (wv_metrics (snd (worker_handle ck kind label v)))
        = pm_jobs_rejected_queue_full (wv_metrics v)"
    by (simp add: worker_handle_def on_world_def io_simps Let_def split: option.splits prod.splits result.splits)
  have reset: "pm_jobs_completed (wv_metrics (reset_session ck u)) = pm_jobs_completed (wv_metrics u)
    \<and> pm_jobs_failed (wv_metrics (reset_session ck u)) = pm_jobs_failed (wv_metrics u)
    \<and> pm_jobs_submitted (wv_metrics (reset_session ck u)) = pm_jobs_submitted (wv_metrics u)
    \<and> pm_jobs_rejected_queue_full (wv_metrics (reset_session ck u))
        = pm_jobs_rejected_queue_full (wv_metrics u)" for u
    by (simp add: reset_session_def Let_def split: prod.splits result.splits)
  show ?thesis
    using dispatch_frame [OF k, where ck = ck and v = v and lib = lib] h reset
    by (cases rule: execute_cases [of ck lib request v]) simp_all
qed

lemma run_job_counts:
  fixes ck lib t1 t2 t3 jb v
  defines "m \<equiv> wv_metrics (snd (run_job ck lib t1 t2 t3 jb v))"
    and "r \<equiv> fst (run_job ck lib t1 t2 t3 jb v)"
  shows "pm_jobs_completed m = pm_jobs_completed (wv_metrics v) + 1
    \<and> pm_jobs_failed m = pm_jobs_failed (wv_metrics v) + of_bool (\<not> is_ok r)
    \<and> pm_jobs_submitted m = pm_jobs_submitted (wv_metrics v)
    \<and> pm_jobs_rejected_queue_full m = pm_jobs_rejected_queue_full (wv_metrics v)"
  using execute_counts [of ck lib "jb_request jb" v] unfolding m_def r_def
  by (cases "execute ck lib (jb_request jb) v")
     (auto simp: run_job_def Let_def split: result.splits)

text \<open>A pending job is the only trace of its submission.\<close>

lemma pending_unique:
  assumes "accounted chan s" and "pending chan s = {#jb#} + P"
  shows "jb_responder jb < ps_next s"
    and "\<And>jb'. jb' \<in># P \<Longrightarrow> jb_responder jb' \<noteq> jb_responder jb"
    and "\<And>req r. (jb_responder jb, req, r) \<notin> set (ps_executed s)"
    and "\<And>e. (jb_responder jb, e) \<notin> set (ps_refused s)"
proof -
  have "{#jb_responder jb#} + image_mset jb_responder P + mset (map fst (ps_executed s))
      + mset (map fst (ps_refused s)) = mset_set {..<ps_next s}"
    using assms by (simp add: accounted_def)
  note u = unique_in_range [OF this]
  show "jb_responder jb < ps_next s" using u by simp
  show "jb_responder jb' \<noteq> jb_responder jb" if "jb' \<in># P" for jb'
    using u that by (metis image_eqI set_image_mset)
  show "(jb_responder jb, req, r) \<notin> set (ps_executed s)" for req r
    using u by (force simp: image_iff)
  show "(jb_responder jb, e) \<notin> set (ps_refused s)" for e
    using u by (force simp: image_iff)
qed

text \<open>Delivering a result on the responder of a job that is no longer pending.\<close>

lemma deliver_callers:
  assumes ok: "callers_ok chan s" and acc: "accounted chan s" and pend: "pending chan s = {#jb#} + P"
    and same: "ps_callers s1 = ps_callers s"
  shows "rid \<noteq> jb_responder jb \<Longrightarrow>
           ps_callers (pool_await (jb_responder jb) (Delivered r) s1) rid = ps_callers s rid"
    and "ps_callers (pool_await (jb_responder jb) (Delivered r) s1) (jb_responder jb) = Some (Answered (jb_request jb) r)
       \<or> ps_callers (pool_await (jb_responder jb) (Delivered r) s1) (jb_responder jb)
           = Some (Answered (jb_request jb) (Err Timeout))"
  using callers_okD(2) [OF ok, of jb] pend by (auto simp: pool_await_callers same)

lemma callers_ok_deliver:
  assumes ok: "callers_ok chan s" and acc: "accounted chan s" and pend: "pending chan s = {#jb#} + pending chan s1"
    and same: "ps_callers s1 = ps_callers s" "ps_next s1 = ps_next s" "ps_refused s1 = ps_refused s"
      "ps_executed s1 = (jb_responder jb, jb_request jb, r) # ps_executed s"
  shows "callers_ok chan (pool_await (jb_responder jb) (Delivered r) s1)" (is "callers_ok chan ?s2")
proof (rule callers_okI)
  note u = pending_unique [OF acc pend] and d = deliver_callers [OF ok acc pend same(1)]
  fix rid
  show "ps_callers ?s2 rid = None \<longleftrightarrow> ps_next ?s2 \<le> rid"
    using d(1) [of rid r] d(2) [of r] u(1) callers_okD(1) [OF ok, of rid]
    by (cases "rid = jb_responder jb") (auto simp: same)
next
  note u = pending_unique [OF acc pend] and d = deliver_callers [OF ok acc pend same(1)]
  fix jb'
  assume "jb' \<in># pending chan ?s2"
  then show "ps_callers ?s2 (jb_responder jb') = Some (Waiting (jb_request jb') (jb_enqueued_at jb'))
      \<or> ps_callers ?s2 (jb_responder jb') = Some (Answered (jb_request jb') (Err Timeout))"
    using d(1) [OF u(2)] callers_okD(2) [OF ok, of jb'] pend by simp
next
  note u = pending_unique [OF acc pend] and d = deliver_callers [OF ok acc pend same(1)]
  fix rid req r'
  assume "(rid, req, r') \<in> set (ps_executed ?s2)"
  then consider "rid = jb_responder jb" "req = jb_request jb" "r' = r"
    | "(rid, req, r') \<in> set (ps_executed s)" "rid \<noteq> jb_responder jb"
    using u(3) by (auto simp: same)
  then show "ps_callers ?s2 rid = Some (Answered req r') \<or> ps_callers ?s2 rid = Some (Answered req (Err Timeout))"
    using d(2) [of r] d(1) [of rid r] callers_okD(3) [OF ok, of rid req r'] by cases simp_all
next
  note u = pending_unique [OF acc pend] and d = deliver_callers [OF ok acc pend same(1)]
  fix rid e
  assume "(rid, e) \<in> set (ps_refused ?s2)"
  then have e: "(rid, e) \<in> set (ps_refused s)" by (simp add: same)
  then have "rid \<noteq> jb_responder jb" using u(4) by blast
  then show "e \<in> {Overloaded, ShuttingDown} \<and> (\<exists>req. ps_callers ?s2 rid = Some (Answered req (Err e)))"
    using d(1) callers_okD(4) [OF ok e] by simp
qed

lemma pool_inv_finish:
  assumes inv: "pool_inv chan depth s"
    and i: "i < length (ps_threads s)" and busy: "ps_threads s ! i = Busy wk jb t1"
  shows "pool_inv chan depth (pool_finish ck lib i wk jb t1 t2 s)"
proof -
  let ?v = "\<lparr> wv_worker = wk, wv_world = ps_world s, wv_metrics = ps_metrics s, wv_events = ps_events s \<rparr>"
  obtain r v where run: "run_job ck lib t1 t2 (ps_now s) jb ?v = (r, v)" by fastforce
  define s1 where "s1 = s\<lparr>ps_world := wv_world v, ps_metrics := wv_metrics v, ps_events := wv_events v,
              ps_threads := (ps_threads s)[i := Idle (wv_worker v)],
              ps_executed := (jb_responder jb, jb_request jb, r) # ps_executed s\<rparr>"
  have eq: "pool_finish ck lib i wk jb t1 t2 s = pool_await (jb_responder jb) (Delivered r) s1"
    by (simp add: pool_finish_def run s1_def)
  obtain R where R: "sum_list (map thread_jobs (ps_threads s)) = thread_jobs (ps_threads s ! i) + R"
    "\<And>y. sum_list (map thread_jobs ((ps_threads s)[i := y])) = thread_jobs y + R"
    by (rule update_thread [OF i, of thread_jobs]) blast
  obtain Q where Q: "sum_list (map thread_alive (ps_threads s)) = thread_alive (ps_threads s ! i) + Q"
    "\<And>y. sum_list (map thread_alive ((ps_threads s)[i := y])) = thread_alive y + Q"
    by (rule update_thread [OF i, of thread_alive]) blast
  have pend: "pending chan s = {#jb#} + pending chan s1"
    using R by (simp add: pending_def s1_def busy)
  have acc: "accounted chan s" and ok: "callers_ok chan s" using inv by (simp_all add: pool_inv_def)
  have "accounted chan s1"
    using acc unfolding accounted_def pend by (simp add: s1_def ac_simps)
  moreover have "counters_ok s1"
    using inv run_job_counts [of ck lib t1 t2 "ps_now s" jb ?v]
    by (simp add: pool_inv_def counters_ok_def s1_def run)
  moreover have "channel_ok chan depth s1"
    using inv Q by (simp add: pool_inv_def channel_ok_def s1_def busy)
  moreover have "callers_ok chan (pool_await (jb_responder jb) (Delivered r) s1)"
    by (rule callers_ok_deliver [OF ok acc pend]) (simp_all add: s1_def)
  ultimately show ?thesis by (simp add: eq pool_inv_def channel_ok_def accounted_def)
qed

text \<open>A submission: a fresh responder, in the queue or refused.\<close>

lemma callers_ok_fresh:
  assumes ok: "callers_ok chan s" and "caller = Waiting request t \<or> caller = Answered request (Err e) \<and> e \<in> {Overloaded, ShuttingDown}"
    and same: "ps_callers s1 = (ps_callers s)(ps_next s \<mapsto> caller)" "ps_next s1 = Suc (ps_next s)"
      "ps_executed s1 = ps_executed s"
    and pend: "\<And>jb. jb \<in># pending chan s1 \<Longrightarrow> jb \<in># pending chan s
        \<or> jb_responder jb = ps_next s \<and> jb_request jb = request \<and> jb_enqueued_at jb = t \<and> caller = Waiting request t"
    and refused: "\<And>rid e'. (rid, e') \<in> set (ps_refused s1) \<Longrightarrow> (rid, e') \<in> set (ps_refused s)
        \<or> rid = ps_next s \<and> e' = e \<and> caller = Answered request (Err e)"
  shows "callers_ok chan s1"
proof (rule callers_okI)
  have fresh: "ps_callers s (ps_next s) = None" using callers_okD(1) [OF ok] by simp
  fix rid
  show "ps_callers s1 rid = None \<longleftrightarrow> ps_next s1 \<le> rid"
    using callers_okD(1) [OF ok, of rid] by (auto simp: same)
next
  have fresh: "ps_callers s (ps_next s) = None" using callers_okD(1) [OF ok] by simp
  fix jb
  assume "jb \<in># pending chan s1"
  from pend [OF this] show "ps_callers s1 (jb_responder jb) = Some (Waiting (jb_request jb) (jb_enqueued_at jb))
      \<or> ps_callers s1 (jb_responder jb) = Some (Answered (jb_request jb) (Err Timeout))"
    using callers_okD(2) [OF ok, of jb] fresh by (auto simp: same)
next
  have fresh: "ps_callers s (ps_next s) = None" using callers_okD(1) [OF ok] by simp
  fix rid req r
  assume "(rid, req, r) \<in> set (ps_executed s1)"
  then show "ps_callers s1 rid = Some (Answered req r) \<or> ps_callers s1 rid = Some (Answered req (Err Timeout))"
    using callers_okD(3) [OF ok, of rid req r] fresh by (auto simp: same)
next
  have fresh: "ps_callers s (ps_next s) = None" using callers_okD(1) [OF ok] by simp
  fix rid e'
  assume "(rid, e') \<in> set (ps_refused s1)"
  from refused [OF this] show "e' \<in> {Overloaded, ShuttingDown} \<and> (\<exists>req. ps_callers s1 rid = Some (Answered req (Err e')))"
    using callers_okD(4) [OF ok, of rid e'] fresh assms(2) by (auto simp: same)
qed

lemma mset_set_Suc: "mset_set {..<Suc n} = add_mset n (mset_set {..<n})"
  by (simp add: lessThan_Suc)

lemma pool_inv_submit:
  assumes laws: "flume_laws fl chan" and "0 < depth" and inv: "pool_inv chan depth s"
  shows "pool_inv chan depth (pool_submit fl request s)"
proof -
  let ?jb = "\<lparr> jb_request = request, jb_responder = ps_next s, jb_enqueued_at = ps_now s \<rparr>"
  obtain oc q where send: "fl_try_send fl ?jb (ps_queue s) = (oc, q)" by fastforce
  have chn: "channel_ok chan depth s" and acc: "accounted chan s" and ok: "callers_ok chan s"
    and cnt: "counters_ok s" using inv by (simp_all add: pool_inv_def)
  have "0 < cv_cap (chan (ps_queue s))" using chn assms(2) by (simp add: channel_ok_def)
  from flume_try_send [OF laws this, of ?jb]
  consider "oc = Disconnected" "chan q = chan (ps_queue s)" | "oc = Full" "chan q = chan (ps_queue s)"
    | "oc = Sent" "length (cv_items (chan (ps_queue s))) < depth"
      "chan q = (chan (ps_queue s))\<lparr>cv_items := cv_items (chan (ps_queue s)) @ [?jb]\<rparr>"
    using chn by (auto simp: send channel_ok_def)
  then show ?thesis
  proof cases
    case 1
    then have "callers_ok chan (pool_submit fl request s)"
      by (intro callers_ok_fresh [OF ok, where caller = "Answered request (Err ShuttingDown)" and e = ShuttingDown and t = 0])
         (auto simp: pool_submit_def send answer_def pending_def Let_def)
    then show ?thesis
      using 1 chn acc cnt
      by (simp add: pool_inv_def channel_ok_def accounted_def counters_ok_def pending_def pool_submit_def send
          answer_def mset_set_Suc Let_def)
  next
    case 2
    then have "callers_ok chan (pool_submit fl request s)"
      by (intro callers_ok_fresh [OF ok, where caller = "Answered request (Err Overloaded)" and e = Overloaded and t = 0])
         (auto simp: pool_submit_def send answer_def pending_def Let_def)
    then show ?thesis
      using 2 chn acc cnt
      by (simp add: pool_inv_def channel_ok_def accounted_def counters_ok_def pending_def pool_submit_def send
          answer_def mset_set_Suc Let_def)
  next
    case 3
    then have "callers_ok chan (pool_submit fl request s)"
      by (intro callers_ok_fresh [OF ok, where caller = "Waiting request (ps_now s)" and t = "ps_now s"])
         (auto simp: pool_submit_def send answer_def pending_def Let_def)
    then show ?thesis
      using 3 chn acc cnt
      by (simp add: pool_inv_def channel_ok_def accounted_def counters_ok_def pending_def pool_submit_def send
          answer_def mset_set_Suc Let_def)
  qed
qed

section \<open>Reachable states\<close>

text \<open>
  A thread that has left, or a pool without threads, leaves no job in the channel; a busy
  thread took its job in the past.
\<close>

fun thread_since :: "instant \<Rightarrow> worker_thread \<Rightarrow> bool" where
  "thread_since now (Busy _ _ t1) = (t1 \<le> now)"
| "thread_since now _ = True"

definition drain_ok :: "('q \<Rightarrow> chan_view) \<Rightarrow> ('w, 'q) pool_sys \<Rightarrow> bool" where
  "drain_ok chan s \<longleftrightarrow>
     (Exited \<in> set (ps_threads s) \<longrightarrow> \<not> ps_open s)
     \<and> (Exited \<in> set (ps_threads s) \<or> ps_threads s = [] \<longrightarrow> cv_items (chan (ps_queue s)) = [])
     \<and> (\<forall>t \<in> set (ps_threads s). thread_since (ps_now s) t)"

definition pool_sound :: "'q flume \<Rightarrow> ('q \<Rightarrow> chan_view) \<Rightarrow> nat \<Rightarrow> ('w, 'q) pool_sys \<Rightarrow> bool" where
  "pool_sound fl chan depth s \<longleftrightarrow>
     flume_laws fl chan \<and> 0 < depth \<and> pool_inv chan depth s \<and> drain_ok chan s"

text \<open>
  A pool that \<open>start\<close> returned, in whatever order its threads came up. The queue has room for at least
  one job: with depth 0 the channel of \<open>flume\<close> is a rendezvous, which \<open>flume_laws\<close> does not describe.
\<close>

definition pool_started ::
    "'w cryptoki \<Rightarrow> 'q flume \<Rightarrow> ('q \<Rightarrow> chan_view) \<Rightarrow> token_config \<Rightarrow> pool_config \<Rightarrow> ('w, 'q) pool_sys \<Rightarrow> bool" where
  "pool_started ck fl chan token config s \<longleftrightarrow>
     flume_laws fl chan \<and> 0 < pc_queue_depth config
     \<and> (\<exists>dies spawn_error schedule now w w'.
          mset schedule = mset [0..<unat (pc_workers config)]
          \<and> pool_start ck fl dies spawn_error schedule now token config w = (Ok s, w'))"

lemma start_workers_length:
  "start_workers ck slot token dies schedule w = (msgs, wks, w') \<Longrightarrow>
     length wks = length (filter is_ok msgs) \<and> length msgs \<le> length schedule"
proof (induction schedule arbitrary: w msgs wks w')
  case (Cons i schedule)
  obtain r w1 where new: "worker_new ck i slot token w = (r, w1)" by fastforce
  obtain msgs1 wks1 w2 where rest: "start_workers ck slot token dies schedule w1 = (msgs1, wks1, w2)"
    by (cases "start_workers ck slot token dies schedule w1")
  show ?case
    using Cons.prems Cons.IH [OF rest] Cons.IH [of w]
    by (cases r) (auto simp: new rest split: if_splits)
qed simp

lemma collect_ready_Ok:
  "collect_ready n msgs = Ok u \<Longrightarrow> length msgs \<le> n \<Longrightarrow> length (filter is_ok msgs) = n"
  by (induction n msgs rule: collect_ready.induct) auto

lemma chan_pool_channel:
  assumes "flume_laws fl chan"
  shows "chan (pool_channel fl depth n) = \<lparr> cv_items = [], cv_cap = unat depth, cv_senders = 1, cv_receivers = n \<rparr>"
proof -
  have "chan ((fl_clone_receiver fl ^^ n) q) = (chan q)\<lparr>cv_receivers := cv_receivers (chan q) + n\<rparr>" for q
    by (induction n) (simp_all add: flume_drops [OF assms])
  then show ?thesis by (simp add: pool_channel_def flume_drops [OF assms])
qed

lemma pool_started_state:
  assumes "pool_started ck fl chan token config s"
  obtains wks where "length wks = unat (pc_workers config)" "ps_threads s = map Idle wks"
    "ps_queue s = pool_channel fl (pc_queue_depth config) (unat (pc_workers config))"
    "ps_open s" "ps_callers s = Map.empty" "ps_next s = 0" "ps_executed s = []" "ps_refused s = []"
    "ps_metrics s = pool_metrics_default"
proof -
  from assms obtain dies spawn_error schedule now w w' where
    sched: "mset schedule = mset [0..<unat (pc_workers config)]"
    and start: "pool_start ck fl dies spawn_error schedule now token config w = (Ok s, w')"
    by (auto simp: pool_started_def)
  from start obtain slot w1 msgs wks w2 where
    sw: "start_workers ck slot token dies schedule w1 = (msgs, wks, w2)"
    and ready: "collect_ready (unat (pc_workers config)) msgs = Ok ()"
    and s: "s = \<lparr> ps_world = w2, ps_metrics = pool_metrics_default, ps_events = [],
                  ps_queue = pool_channel fl (pc_queue_depth config) (unat (pc_workers config)),
                  ps_open = True, ps_threads = map Idle wks, ps_callers = Map.empty, ps_next = 0,
                  ps_now = now, ps_executed = [], ps_refused = [] \<rparr>"
    by (auto simp: pool_start_def split: prod.splits result.splits option.splits)
  have "length schedule = unat (pc_workers config)" using arg_cong [OF sched, of size] by simp
  then have "length wks = unat (pc_workers config)"
    using start_workers_length [OF sw] collect_ready_Ok [OF ready] by simp
  with that show thesis by (simp add: s)
qed

lemma pool_sound_started:
  assumes "pool_started ck fl chan token config s"
  shows "pool_sound fl chan (unat (pc_queue_depth config)) s"
proof -
  have laws: "flume_laws fl chan" and depth: "0 < pc_queue_depth config"
    using assms by (simp_all add: pool_started_def)
  note chan = chan_pool_channel [OF laws]
  obtain wks where "length wks = unat (pc_workers config)" "ps_threads s = map Idle wks"
    "ps_queue s = pool_channel fl (pc_queue_depth config) (unat (pc_workers config))"
    "ps_open s" "ps_callers s = Map.empty" "ps_next s = 0" "ps_executed s = []" "ps_refused s = []"
    "ps_metrics s = pool_metrics_default"
    by (rule pool_started_state [OF assms]) blast
  moreover have "sum_list (map (thread_alive \<circ> Idle) wks) = length wks" "sum_list (map (thread_jobs \<circ> Idle) wks) = {#}"
    by (induction wks) simp_all
  ultimately show ?thesis
    using laws depth
    by (auto simp: pool_sound_def pool_inv_def channel_ok_def accounted_def callers_ok_def counters_ok_def pending_def
        drain_ok_def chan pool_metrics_default_def unat_gt_0 word_gt_0)
qed

lemma exited_update: "Exited \<in> set (xs[i := y]) \<Longrightarrow> y \<noteq> Exited \<Longrightarrow> Exited \<in> set xs"
  using set_update_subset_insert [of xs i y] by auto

lemma update_all: "\<forall>t \<in> set xs. P t \<Longrightarrow> P y \<Longrightarrow> \<forall>t \<in> set (xs[i := y]). P t"
  using set_update_subset_insert [of xs i y] by auto

lemma thread_since_mono: "thread_since now t \<Longrightarrow> now \<le> now' \<Longrightarrow> thread_since now' t"
  by (cases t) auto

lemma pool_submit_frame:
  assumes laws: "flume_laws fl chan" and depth: "0 < depth" and inv: "pool_inv chan depth s"
  shows "ps_threads (pool_submit fl request s) = ps_threads s
    \<and> ps_open (pool_submit fl request s) = ps_open s \<and> ps_now (pool_submit fl request s) = ps_now s
    \<and> (ps_threads s = [] \<longrightarrow> cv_items (chan (ps_queue (pool_submit fl request s))) = cv_items (chan (ps_queue s)))"
proof -
  let ?jb = "\<lparr> jb_request = request, jb_responder = ps_next s, jb_enqueued_at = ps_now s \<rparr>"
  obtain oc q where send: "fl_try_send fl ?jb (ps_queue s) = (oc, q)" by fastforce
  have "chan q = chan (ps_queue s)" if "ps_threads s = []"
  proof -
    have "cv_receivers (chan (ps_queue s)) = 0"
      using inv that by (simp add: pool_inv_def channel_ok_def)
    then have "fst (fl_try_send fl ?jb (ps_queue s)) = Disconnected
        \<and> chan (snd (fl_try_send fl ?jb (ps_queue s))) = chan (ps_queue s)"
      using laws by (simp add: flume_laws_def)
    then show ?thesis by (simp add: send)
  qed
  then show ?thesis
    by (cases oc) (simp_all add: pool_submit_def send answer_def Let_def)
qed

lemma pool_finish_frame:
  "ps_queue (pool_finish ck lib i wk jb t1 t2 s) = ps_queue s"
  "ps_open (pool_finish ck lib i wk jb t1 t2 s) = ps_open s"
  "ps_next (pool_finish ck lib i wk jb t1 t2 s) = ps_next s"
  "ps_refused (pool_finish ck lib i wk jb t1 t2 s) = ps_refused s"
  "ps_now (pool_finish ck lib i wk jb t1 t2 s) = ps_now s"
  "\<exists>wk'. ps_threads (pool_finish ck lib i wk jb t1 t2 s) = (ps_threads s)[i := Idle wk']"
  by (auto simp: pool_finish_def case_prod_beta Let_def)

lemma pool_sound_step:
  assumes "pool_sound fl chan depth s" and "pool_step ck lib fl job_timeout s t"
  shows "pool_sound fl chan depth t"
proof -
  have laws: "flume_laws fl chan" and depth: "0 < depth" and inv: "pool_inv chan depth s" and dr: "drain_ok chan s"
    using assms(1) by (simp_all add: pool_sound_def)
  from assms(2) have "pool_inv chan depth t \<and> drain_ok chan t"
  proof (cases rule: pool_step.cases)
    case (tick now)
    then show ?thesis using pool_inv_tick [OF inv] dr by (auto simp: drain_ok_def intro: thread_since_mono)
  next
    case (submit request)
    then show ?thesis
      using pool_inv_submit [OF laws depth inv, of request] pool_submit_frame [OF laws depth inv, of request] dr
      by (auto simp: drain_ok_def)
  next
    case (take_job i wk jb q)
    then have "cv_items (chan (ps_queue s)) \<noteq> []" using flume_received [OF laws] by fastforce
    with dr have "Exited \<notin> set (ps_threads s)" "ps_threads s \<noteq> []" by (auto simp: drain_ok_def)
    then have "drain_ok chan t"
      using dr update_all [of "ps_threads s" "thread_since (ps_now s)" "Busy wk jb (ps_now s)" i]
      by (auto simp: drain_ok_def take_job(1) pool_take_def dest: exited_update)
    then show ?thesis using pool_inv_take [OF laws inv take_job(2-4)] take_job(1) by simp
  next
    case (finish i wk jb t1 t2)
    obtain wk' where thr: "ps_threads t = (ps_threads s)[i := Idle wk']"
      using pool_finish_frame(6) [of ck lib i wk jb t1 t2 s] finish(1) by auto
    have "drain_ok chan t"
      using dr update_all [of "ps_threads s" "thread_since (ps_now s)" "Idle wk'" i] thr
      by (auto simp: drain_ok_def finish(1) pool_finish_frame(1-5) dest: exited_update)
    then show ?thesis using pool_inv_finish [OF inv finish(2,3)] finish(1) by simp
  next
    case (timeout rid request t0)
    then show ?thesis using pool_inv_timeout [OF inv timeout(2)] dr by (simp add: drain_ok_def)
  next
    case close
    then show ?thesis
      using pool_inv_close [OF laws inv] dr by (auto simp: drain_ok_def pool_close_def flume_drops [OF laws])
  next
    case (exit_thread i wk q)
    have "drain_ok chan t"
      using flume_closed [OF laws exit_thread(4)] inv dr update_all [of "ps_threads s" "thread_since (ps_now s)" Exited i]
      by (auto simp: drain_ok_def exit_thread(1) pool_exit_def flume_drops [OF laws] pool_inv_def channel_ok_def)
    then show ?thesis using pool_inv_exit [OF laws inv exit_thread(2,3)] exit_thread(1) by simp
  qed
  then show ?thesis using laws depth by (simp add: pool_sound_def)
qed

interpretation pool: inductive_invariant
    "pool_started ck fl chan token config" "pool_step ck lib fl job_timeout"
    "pool_sound fl chan (unat (pc_queue_depth config))"
    for ck fl chan token config lib job_timeout
  by unfold_locales (auto intro: pool_sound_started pool_sound_step)

section \<open>Correctness of the pool\<close>

lemma answered_origin:
  assumes inv: "pool_inv chan depth s" and ans: "ps_callers s rid = Some (Answered req r)"
  shows "(rid, req, r) \<in> set (ps_executed s) \<or> r = Err Timeout
       \<or> (\<exists>e \<in> {Overloaded, ShuttingDown}. r = Err e \<and> (rid, e) \<in> set (ps_refused s))"
proof -
  have acc: "accounted chan s" and ok: "callers_ok chan s" using inv by (simp_all add: pool_inv_def)
  have "rid < ps_next s" using callers_okD(1) [OF ok, of rid] ans by simp
  then have "rid \<in># mset_set {..<ps_next s}" by simp
  then consider jb where "jb \<in># pending chan s" "rid = jb_responder jb"
    | req' r' where "(rid, req', r') \<in> set (ps_executed s)" | e where "(rid, e) \<in> set (ps_refused s)"
    unfolding acc [unfolded accounted_def, symmetric] by auto
  then show ?thesis
    using callers_okD(2-4) [OF ok] ans by cases fastforce+
qed

lemma executed_once: "accounted chan s \<Longrightarrow> distinct (map fst (ps_executed s))"
proof -
  assume acc: "accounted chan s"
  have "count (mset (map fst (ps_executed s))) x \<le> 1" for x
  proof -
    have "count (mset (map fst (ps_executed s))) x \<le> count (mset_set {..<ps_next s}) x"
      unfolding acc [unfolded accounted_def, symmetric] by simp
    also have "\<dots> \<le> 1" by (simp add: count_mset_set')
    finally show ?thesis .
  qed
  then show ?thesis by (metis distinct_count_atmost_1 count_eq_zero_iff count_greater_zero_iff le_antisym less_one not_less set_mset_mset)
qed

text \<open>
  C5. No answer goes to the wrong caller and no job runs twice: in every reachable state of the
  pool, whatever a caller was answered is the result of executing that caller's own request,
  or a timeout, or a refusal at submission; and every job was executed at most once.
\<close>

theorem pool_answers_own_request:
  assumes "reachable (pool_started ck fl chan token config) (pool_step ck lib fl job_timeout) s"
  shows "(\<forall>rid req r. ps_callers s rid = Some (Answered req r) \<longrightarrow>
            (rid, req, r) \<in> set (ps_executed s) \<or> r = Err Timeout
            \<or> (\<exists>e \<in> {Overloaded, ShuttingDown}. r = Err e \<and> (rid, e) \<in> set (ps_refused s)))
       \<and> distinct (map fst (ps_executed s))"
proof -
  have inv: "pool_inv chan (unat (pc_queue_depth config)) s"
    using pool.inv_reachable [OF assms] by (simp add: pool_sound_def)
  then have "accounted chan s" by (simp add: pool_inv_def)
  then show ?thesis using answered_origin [OF inv] executed_once by blast
qed

text \<open>The jobs the worker threads hold, and the request a caller made.\<close>

definition busy_jobs :: "('w, 'q) pool_sys \<Rightarrow> job list" where
  "busy_jobs s = concat (map (\<lambda>t. case t of Busy _ jb _ \<Rightarrow> [jb] | _ \<Rightarrow> []) (ps_threads s))"

fun caller_request :: "caller \<Rightarrow> job_request" where
  "caller_request (Waiting req _) = req"
| "caller_request (Answered req _) = req"

lemma pending_lists: "pending chan s = mset (cv_items (chan (ps_queue s)) @ busy_jobs s)"
proof -
  have "sum_list (map thread_jobs ts) = mset (concat (map (\<lambda>t. case t of Busy _ jb _ \<Rightarrow> [jb] | _ \<Rightarrow> []) ts))" for ts
  proof (induction ts)
    case (Cons t ts)
    then show ?case by (cases t) simp_all
  qed simp
  then show ?thesis by (simp add: pending_def busy_jobs_def)
qed

lemma callers_requests:
  assumes "callers_ok chan s"
  shows "jb \<in># pending chan s \<Longrightarrow> map_option caller_request (ps_callers s (jb_responder jb)) = Some (jb_request jb)"
    and "(rid, req, r) \<in> set (ps_executed s) \<Longrightarrow> map_option caller_request (ps_callers s rid) = Some req"
  using assms unfolding callers_ok_def by fastforce+

text \<open>
  C6. Nothing is lost, swapped or duplicated and the queue is bounded: in every reachable state the
  submissions, numbered from 0 in the order they were made, are exactly the jobs waiting in the
  queue, the jobs held by a worker thread, the executed ones and the refused ones, each once; a job
  that waits, is held or was executed carries the request its caller made; the queue never holds
  more than the configured depth; and the exported counters are the lengths of these lists modulo $2^{64}$.
\<close>

theorem pool_conserves_jobs:
  assumes "reachable (pool_started ck fl chan token config) (pool_step ck lib fl job_timeout) s"
  shows "mset (map jb_responder (cv_items (chan (ps_queue s))) @ map jb_responder (busy_jobs s)
            @ map fst (ps_executed s) @ map fst (ps_refused s)) = mset [0..<ps_next s]
       \<and> (\<forall>jb \<in> set (cv_items (chan (ps_queue s)) @ busy_jobs s).
            map_option caller_request (ps_callers s (jb_responder jb)) = Some (jb_request jb))
       \<and> (\<forall>(rid, req, r) \<in> set (ps_executed s). map_option caller_request (ps_callers s rid) = Some req)
       \<and> length (cv_items (chan (ps_queue s))) \<le> unat (pc_queue_depth config)
       \<and> pm_jobs_submitted (ps_metrics s) = of_nat (ps_next s)
       \<and> pm_jobs_completed (ps_metrics s) = of_nat (length (ps_executed s))
       \<and> pm_jobs_failed (ps_metrics s) = of_nat (length (filter (\<lambda>(_, _, r). \<not> is_ok r) (ps_executed s)))
       \<and> pm_jobs_rejected_queue_full (ps_metrics s)
            = of_nat (length (filter (\<lambda>(_, e). e = Overloaded) (ps_refused s)))"
proof -
  have inv: "pool_inv chan (unat (pc_queue_depth config)) s"
    using pool.inv_reachable [OF assms] by (simp add: pool_sound_def)
  then have "mset (map jb_responder (cv_items (chan (ps_queue s))) @ map jb_responder (busy_jobs s)
            @ map fst (ps_executed s) @ map fst (ps_refused s)) = mset [0..<ps_next s]"
    by (simp add: pool_inv_def accounted_def pending_lists mset_upt atLeast0LessThan add_ac)
  moreover have callers: "callers_ok chan s" using inv by (simp add: pool_inv_def)
  have "\<forall>jb \<in> set (cv_items (chan (ps_queue s)) @ busy_jobs s).
      map_option caller_request (ps_callers s (jb_responder jb)) = Some (jb_request jb)"
    using callers_requests(1) [OF callers] unfolding pending_lists set_mset_mset by blast
  moreover have "\<forall>(rid, req, r) \<in> set (ps_executed s). map_option caller_request (ps_callers s rid) = Some req"
    using callers_requests(2) [OF callers] by blast
  ultimately show ?thesis
    using inv by (simp only: pool_inv_def channel_ok_def counters_ok_def)
qed

section \<open>Draining\<close>

text \<open>What is left to do after the channel closed.\<close>

definition drain_measure :: "('q \<Rightarrow> chan_view) \<Rightarrow> ('w, 'q) pool_sys \<Rightarrow> nat" where
  "drain_measure chan s =
     length (cv_items (chan (ps_queue s))) + size (pending chan s) + sum_list (map thread_alive (ps_threads s))"

definition drain_frame :: "('w, 'q) pool_sys \<Rightarrow> ('w, 'q) pool_sys \<Rightarrow> bool" where
  "drain_frame s t \<longleftrightarrow> ps_next t = ps_next s \<and> ps_refused t = ps_refused s \<and> \<not> ps_open t
     \<and> (\<forall>rid. map_option caller_request (ps_callers t rid) = map_option caller_request (ps_callers s rid))"

lemma pool_await_request:
  "map_option caller_request (ps_callers (pool_await rid oc s) rid') = map_option caller_request (ps_callers s rid')"
  by (auto simp: pool_await_callers split: option.splits caller.splits)

lemma thread_cases:
  obtains wk where "t = Idle wk" | wk jb t1 where "t = Busy wk jb t1" | "t = Exited"
  by (cases t) auto

definition drains :: "('q \<Rightarrow> chan_view) \<Rightarrow> ('w, 'q) pool_sys \<Rightarrow> ('w, 'q) pool_sys \<Rightarrow> bool" where
  "drains chan s t \<longleftrightarrow> drain_measure chan t < drain_measure chan s \<and> drain_frame s t"

lemma drains_exit:
  assumes laws: "flume_laws fl chan" and closed: "\<not> ps_open s"
    and i: "i < length (ps_threads s)" and idle: "ps_threads s ! i = Idle wk"
  shows "drains chan s (pool_exit ck fl i wk s)"
proof -
  obtain R where "sum_list (map thread_jobs (ps_threads s)) = thread_jobs (ps_threads s ! i) + R"
    "\<And>y. sum_list (map thread_jobs ((ps_threads s)[i := y])) = thread_jobs y + R"
    by (rule update_thread [OF i, of thread_jobs]) blast
  moreover obtain Q where "sum_list (map thread_alive (ps_threads s)) = thread_alive (ps_threads s ! i) + Q"
    "\<And>y. sum_list (map thread_alive ((ps_threads s)[i := y])) = thread_alive y + Q"
    by (rule update_thread [OF i, of thread_alive]) blast
  ultimately show ?thesis
    using closed by (simp add: drains_def drain_frame_def drain_measure_def pending_def pool_exit_def flume_drops [OF laws] idle)
qed

lemma drains_take:
  assumes laws: "flume_laws fl chan" and closed: "\<not> ps_open s"
    and i: "i < length (ps_threads s)" and idle: "ps_threads s ! i = Idle wk"
    and recv: "fl_recv fl (ps_queue s) = (Received jb, q)"
  shows "drains chan s (pool_take i wk jb q s)"
proof -
  obtain js where "cv_items (chan (ps_queue s)) = jb # js" "chan q = (chan (ps_queue s))\<lparr>cv_items := js\<rparr>"
    using flume_received [OF laws recv] by blast
  moreover obtain R where "sum_list (map thread_jobs (ps_threads s)) = thread_jobs (ps_threads s ! i) + R"
    "\<And>y. sum_list (map thread_jobs ((ps_threads s)[i := y])) = thread_jobs y + R"
    by (rule update_thread [OF i, of thread_jobs]) blast
  moreover obtain Q where "sum_list (map thread_alive (ps_threads s)) = thread_alive (ps_threads s ! i) + Q"
    "\<And>y. sum_list (map thread_alive ((ps_threads s)[i := y])) = thread_alive y + Q"
    by (rule update_thread [OF i, of thread_alive]) blast
  ultimately show ?thesis
    using closed by (simp add: drains_def drain_frame_def drain_measure_def pending_def pool_take_def idle)
qed

lemma drains_finish:
  assumes closed: "\<not> ps_open s" and i: "i < length (ps_threads s)" and busy: "ps_threads s ! i = Busy wk jb t1"
  shows "drains chan s (pool_finish ck lib i wk jb t1 t2 s)"
proof -
  obtain wk' where "ps_threads (pool_finish ck lib i wk jb t1 t2 s) = (ps_threads s)[i := Idle wk']"
    using pool_finish_frame(6) by blast
  moreover obtain R where "sum_list (map thread_jobs (ps_threads s)) = thread_jobs (ps_threads s ! i) + R"
    "\<And>y. sum_list (map thread_jobs ((ps_threads s)[i := y])) = thread_jobs y + R"
    by (rule update_thread [OF i, of thread_jobs]) blast
  moreover obtain Q where "sum_list (map thread_alive (ps_threads s)) = thread_alive (ps_threads s ! i) + Q"
    "\<And>y. sum_list (map thread_alive ((ps_threads s)[i := y])) = thread_alive y + Q"
    by (rule update_thread [OF i, of thread_alive]) blast
  moreover have "map_option caller_request (ps_callers (pool_finish ck lib i wk jb t1 t2 s) rid)
      = map_option caller_request (ps_callers s rid)" for rid
    by (simp add: pool_finish_def case_prod_beta Let_def pool_await_request)
  ultimately show ?thesis
    using closed by (simp add: drains_def drain_frame_def drain_measure_def pending_def pool_finish_frame(1-5) busy)
qed

text \<open>A closed pool with a thread left can always take a worker's step, and each of them counts down.\<close>

lemma drain_progress:
  assumes sound: "pool_sound fl chan depth s" and closed: "\<not> ps_open s"
    and i: "i < length (ps_threads s)" "ps_threads s ! i \<noteq> Exited"
  shows "\<exists>t. pool_step ck lib fl job_timeout s t \<and> drains chan s t"
proof -
  have laws: "flume_laws fl chan" and inv: "pool_inv chan depth s" and dr: "drain_ok chan s"
    using sound by (simp_all add: pool_sound_def)
  show ?thesis
  proof (cases "ps_threads s ! i" rule: thread_cases)
    case (1 wk)
    obtain rc q where recv: "fl_recv fl (ps_queue s) = (rc, q)" by fastforce
    have "cv_senders (chan (ps_queue s)) = 0" using inv closed by (simp add: pool_inv_def channel_ok_def)
    then have "fst (fl_recv fl (ps_queue s)) =
        (case cv_items (chan (ps_queue s)) of [] \<Rightarrow> Closed_Channel | jb # _ \<Rightarrow> Received jb)"
      using laws by (simp add: flume_laws_def split: list.splits)
    with recv consider "rc = Closed_Channel" | jb where "rc = Received jb" by (auto split: list.splits)
    then show ?thesis
      using recv exit_thread [OF i(1) 1] drains_exit [OF laws closed i(1) 1]
        take_job [OF i(1) 1] drains_take [OF laws closed i(1) 1] by cases blast+
  next
    case (2 wk jb t1)
    then have "t1 \<le> ps_now s" using dr i(1) by (metis drain_ok_def nth_mem thread_since.simps(1))
    then show ?thesis using finish [OF i(1) 2] drains_finish [OF closed i(1) 2] by blast
  next
    case 3
    then show ?thesis using i(2) by simp
  qed
qed

lemma drain_frame_trans: "drain_frame s t \<Longrightarrow> drain_frame t u \<Longrightarrow> drain_frame s u"
  by (simp add: drain_frame_def)

lemma drain_run:
  assumes "pool_sound fl chan depth s" and "\<not> ps_open s"
  shows "\<exists>t. (pool_step ck lib fl job_timeout)\<^sup>*\<^sup>* s t \<and> pool_sound fl chan depth t \<and> drain_frame s t
     \<and> (\<forall>th \<in> set (ps_threads t). th = Exited)"
  using assms
proof (induction "drain_measure chan s" arbitrary: s rule: less_induct)
  case less
  show ?case
  proof (cases "\<forall>th \<in> set (ps_threads s). th = Exited")
    case True
    then show ?thesis using less.prems by (intro exI [where x = s]) (simp add: drain_frame_def)
  next
    case False
    then obtain i where "i < length (ps_threads s)" "ps_threads s ! i \<noteq> Exited" by (auto simp: in_set_conv_nth)
    from drain_progress [OF less.prems this, of ck lib job_timeout]
    obtain t where t: "pool_step ck lib fl job_timeout s t" "drain_measure chan t < drain_measure chan s" "drain_frame s t"
      by (auto simp: drains_def)
    then have "pool_sound fl chan depth t" "\<not> ps_open t"
      using pool_sound_step [OF less.prems(1)] by (auto simp: drain_frame_def)
    from less.hyps [OF t(2) this] t(1,3) show ?thesis
      by (meson converse_rtranclp_into_rtranclp drain_frame_trans)
  qed
qed

text \<open>When every thread has left, every submission that was not refused has been executed.\<close>

lemma all_exited_executed:
  assumes sound: "pool_sound fl chan depth t" and gone: "\<forall>th \<in> set (ps_threads t). th = Exited"
    and caller: "ps_callers t rid = Some c" and "rid \<notin> fst ` set (ps_refused t)"
  shows "\<exists>r. (rid, caller_request c, r) \<in> set (ps_executed t)"
proof -
  have acc: "accounted chan t" and ok: "callers_ok chan t" using sound by (simp_all add: pool_sound_def pool_inv_def)
  have "cv_items (chan (ps_queue t)) = []"
    using sound gone by (cases "ps_threads t") (auto simp: pool_sound_def drain_ok_def)
  moreover have "sum_list (map thread_jobs (ps_threads t)) = {#}"
  proof -
    have "\<forall>th \<in> set ths. th = Exited \<Longrightarrow> sum_list (map thread_jobs ths) = {#}" for ths
      by (induction ths) auto
    with gone show ?thesis by blast
  qed
  ultimately have "pending chan t = {#}" by (simp add: pending_def)
  moreover have "rid \<in># mset_set {..<ps_next t}" using callers_okD(1) [OF ok, of rid] caller by simp
  ultimately have "rid \<in> fst ` set (ps_executed t)"
    using assms(4) unfolding acc [unfolded accounted_def, symmetric] by simp
  then obtain req r where ex: "(rid, req, r) \<in> set (ps_executed t)" by force
  then show ?thesis using callers_okD(3) [OF ok ex] caller by auto
qed

lemma closed_drains:
  assumes "reachable (pool_started ck fl chan token config) (pool_step ck lib fl job_timeout) s"
    and "\<not> ps_open s"
  shows "\<exists>t. (pool_step ck lib fl job_timeout)\<^sup>*\<^sup>* s t \<and> (\<forall>th \<in> set (ps_threads t). th = Exited)
     \<and> (\<forall>rid c. ps_callers s rid = Some c \<longrightarrow> rid \<notin> fst ` set (ps_refused s) \<longrightarrow>
          (\<exists>r. (rid, caller_request c, r) \<in> set (ps_executed t)))"
proof -
  obtain t where run: "(pool_step ck lib fl job_timeout)\<^sup>*\<^sup>* s t"
    and sound: "pool_sound fl chan (unat (pc_queue_depth config)) t"
    and frame: "drain_frame s t" and gone: "\<forall>th \<in> set (ps_threads t). th = Exited"
    using drain_run [OF pool.inv_reachable [OF assms(1)] assms(2)] by blast
  have "\<exists>r. (rid, caller_request c, r) \<in> set (ps_executed t)"
    if c: "ps_callers s rid = Some c" and ref: "rid \<notin> fst ` set (ps_refused s)" for rid c
  proof -
    have "map_option caller_request (ps_callers t rid) = Some (caller_request c)"
      using frame c by (simp add: drain_frame_def)
    then obtain c' where "ps_callers t rid = Some c'" "caller_request c' = caller_request c" by auto
    moreover have "rid \<notin> fst ` set (ps_refused t)" using ref frame by (simp add: drain_frame_def)
    ultimately show ?thesis using all_exited_executed [OF sound gone] by metis
  qed
  with run gone show ?thesis by blast
qed

text \<open>
  C8. Shutdown drains: from every reachable state in which the sending end has been dropped the
  threads can run to completion, and then every thread has left and every submission the
  queue had accepted has been executed, with the request it was made with.
\<close>

theorem pool_drains:
  assumes "reachable (pool_started ck fl chan token config) (pool_step ck lib fl job_timeout) s"
    and "\<not> ps_open s"
  shows "\<exists>t. (pool_step ck lib fl job_timeout)\<^sup>*\<^sup>* s t \<and> (\<forall>th \<in> set (ps_threads t). th = Exited)
     \<and> (\<forall>rid c. ps_callers s rid = Some c \<longrightarrow> rid \<notin> fst ` set (ps_refused s) \<longrightarrow>
          (\<exists>r. (rid, caller_request c, r) \<in> set (ps_executed t)))"
  using assms by (rule closed_drains)

text \<open>
  A pool configured with no workers starts, and then refuses every submission as shutting
  down.
\<close>

theorem pool_without_workers:
  assumes "pool_started ck fl chan token config s" and "pc_workers config = 0"
  shows "ps_callers (pool_submit fl request s) 0 = Some (Answered request (Err ShuttingDown))"
proof -
  have laws: "flume_laws fl chan" using assms(1) by (simp add: pool_started_def)
  let ?jb = "\<lparr> jb_request = request, jb_responder = 0, jb_enqueued_at = ps_now s \<rparr>"
  have s: "ps_queue s = pool_channel fl (pc_queue_depth config) 0" "ps_next s = 0"
    using assms by (auto elim!: pool_started_state)
  then have "cv_receivers (chan (ps_queue s)) = 0" by (simp add: chan_pool_channel [OF laws])
  then have "fst (fl_try_send fl ?jb (ps_queue s)) = Disconnected" using laws by (simp add: flume_laws_def)
  then show ?thesis
    using s by (cases "fl_try_send fl ?jb (ps_queue s)") (simp add: pool_submit_def answer_def Let_def)
qed

section \<open>Starting\<close>







section \<open>Evaluation on a list channel\<close>

definition list_flume :: "chan_view flume" where
  "list_flume =
     \<lparr> fl_bounded = (\<lambda>d. \<lparr> cv_items = [], cv_cap = unat d, cv_senders = 1, cv_receivers = 1 \<rparr>),
       fl_try_send = (\<lambda>j q. if cv_receivers q = 0 then (Disconnected, q)
          else if length (cv_items q) < cv_cap q then (Sent, q\<lparr>cv_items := cv_items q @ [j]\<rparr>) else (Full, q)),
       fl_recv = (\<lambda>q. case cv_items q of
            j # js \<Rightarrow> (Received j, q\<lparr>cv_items := js\<rparr>)
          | [] \<Rightarrow> (if cv_senders q = 0 then Closed_Channel else Waits, q)),
       fl_len = (\<lambda>q. of_nat (length (cv_items q))),
       fl_drop_sender = (\<lambda>q. q\<lparr>cv_senders := cv_senders q - 1\<rparr>),
       fl_clone_receiver = (\<lambda>q. q\<lparr>cv_receivers := cv_receivers q + 1\<rparr>),
       fl_drop_receiver = (\<lambda>q. q\<lparr>cv_receivers := cv_receivers q - 1\<rparr>) \<rparr>"

lemma list_flume_laws: "flume_laws list_flume (\<lambda>q. q)"
  by (simp add: flume_laws_def list_flume_def)

definition token_with_keys :: soft_token where
  "token_with_keys = blank_token\<lparr>tk_objects := demo_objects\<rparr>"

definition small_config :: "usize \<Rightarrow> pool_config" where
  "small_config n = \<lparr> pc_workers = n, pc_queue_depth = 2, pc_job_timeout = 10 \<rparr>"

definition demo_worker :: worker where
  "demo_worker = \<lparr> wk_id = 0, wk_slot = 5, wk_token = demo_config, wk_session = 1, wk_handles = [] \<rparr>"

definition demo_pool :: "worker list \<Rightarrow> soft_token \<Rightarrow> (soft_token, chan_view) pool_sys" where
  "demo_pool wks w =
     \<lparr> ps_world = w, ps_metrics = pool_metrics_default, ps_events = [],
       ps_queue = \<lparr> cv_items = [], cv_cap = 2, cv_senders = 1, cv_receivers = length wks \<rparr>,
       ps_open = True, ps_threads = map Idle wks, ps_callers = Map.empty, ps_next = 0, ps_now = 3,
       ps_executed = [], ps_refused = [] \<rparr>"

lemma trim_demo_label: "trim ''t '' = ''t''" "trim ''u'' = ''u''"
proof -
  have none: "strip_prefix white_space ''t '' = None" "strip_prefix white_space ''u'' = None"
    "strip_prefix (map rev white_space) ''t'' = None" "strip_prefix (map rev white_space) ''u'' = None"
    and some: "strip_prefix (map rev white_space) '' t'' = Some ''t''"
    by (simp_all add: strip_prefix_def white_space_def)
  show "trim ''t '' = ''t''" "trim ''u'' = ''u''"
    by (simp_all add: trim_def trim_left_stop [OF none(1)] trim_left_stop [OF none(2)]
        trim_left_stop [OF none(4)] trim_left_skip [OF some] trim_left_stop [OF none(3)])
qed

lemma demo_load_module: "load_module soft_ck demo_config w = (Ok 5, w)"
  by (simp add: load_module_def locate_slot_def io_simps on_error_def soft_token_simps demo_config_def trim_demo_label)

text \<open>A pool with one worker, as \<open>start\<close> returns it, and one without.\<close>

definition logged_token :: soft_token where
  "logged_token = token_with_keys\<lparr>tk_next := 2, tk_open := [1], tk_logged := True\<rparr>"

lemma pool_startedI:
  assumes "flume_laws fl chan" and "0 < pc_queue_depth config"
    and "mset schedule = mset [0..<unat (pc_workers config)]"
    and "pool_start ck fl dies spawn_error schedule now token config w = (Ok s, w')"
  shows "pool_started ck fl chan token config s"
  unfolding pool_started_def using assms by blast

lemma demo_pool_started:
  "pool_started soft_ck list_flume (\<lambda>q. q) demo_config (small_config 1) (demo_pool [demo_worker] logged_token)"
proof -
  have "worker_new soft_ck 0 5 demo_config token_with_keys = (Ok demo_worker, logged_token)"
    by (simp add: worker_new_def open_worker_session_def login_session_def io_simps
        on_error_def soft_token_simps token_with_keys_def blank_token_def demo_config_def
        demo_worker_def logged_token_def)
  then have "pool_start soft_ck list_flume (\<lambda>_. False) None [0] 3 demo_config (small_config 1) token_with_keys
      = (Ok (demo_pool [demo_worker] logged_token), logged_token)"
    by (simp add: pool_start_def demo_load_module small_config_def pool_channel_def list_flume_def demo_pool_def)
  then show ?thesis
    by (rule pool_startedI [OF list_flume_laws, rotated 2]) (simp_all add: small_config_def)
qed

lemma empty_pool_started:
  "pool_started soft_ck list_flume (\<lambda>q. q) demo_config (small_config 0) (demo_pool [] token_with_keys)"
proof -
  have "pool_start soft_ck list_flume (\<lambda>_. False) None [] 3 demo_config (small_config 0) token_with_keys
      = (Ok (demo_pool [] token_with_keys), token_with_keys)"
    by (simp add: pool_start_def demo_load_module small_config_def pool_channel_def list_flume_def demo_pool_def)
  then show ?thesis
    by (rule pool_startedI [OF list_flume_laws, rotated 2]) (simp_all add: small_config_def)
qed

theorem pool_without_workers_witness:
  "ps_callers (pool_submit list_flume (JobSign ''ec'' Ecdsa [7]) (demo_pool [] token_with_keys)) 0
     = Some (Answered (JobSign ''ec'' Ecdsa [7]) (Err ShuttingDown))"
  by (rule pool_without_workers [OF empty_pool_started]) (simp add: small_config_def)

text \<open>A signature travels through the pool.\<close>

abbreviation "demo_step \<equiv> pool_step soft_ck sample_lib list_flume 10"

abbreviation "demo_request \<equiv> JobSign ''ec'' Ecdsa [7]"

definition demo_job :: job where
  "demo_job = \<lparr> jb_request = demo_request, jb_responder = 0, jb_enqueued_at = 3 \<rparr>"

definition pool_submitted :: "(soft_token, chan_view) pool_sys" where
  "pool_submitted = pool_submit list_flume demo_request (demo_pool [demo_worker] logged_token)"

definition pool_taken :: "(soft_token, chan_view) pool_sys" where
  "pool_taken = pool_take 0 demo_worker demo_job
     \<lparr> cv_items = [], cv_cap = 2, cv_senders = 1, cv_receivers = 1 \<rparr> pool_submitted"

definition pool_finished :: "(soft_token, chan_view) pool_sys" where
  "pool_finished = pool_finish soft_ck sample_lib 0 demo_worker demo_job 3 3 pool_taken"

lemma pool_submitted_reachable:
  "reachable (pool_started soft_ck list_flume (\<lambda>q. q) demo_config (small_config 1)) demo_step pool_submitted"
proof -
  have "demo_step (demo_pool [demo_worker] logged_token) pool_submitted"
    unfolding pool_submitted_def by (rule submit) (simp add: demo_pool_def)
  then show ?thesis
    using reachable_start [where start = "pool_started soft_ck list_flume (\<lambda>q. q) demo_config (small_config 1)"]
      demo_pool_started by (metis reachable_step)
qed

lemma pool_finished_reachable:
  "reachable (pool_started soft_ck list_flume (\<lambda>q. q) demo_config (small_config 1)) demo_step pool_finished"
proof -
  have "demo_step pool_submitted pool_taken"
    unfolding pool_taken_def
    by (rule take_job) (simp_all add: pool_submitted_def pool_submit_def list_flume_def demo_pool_def demo_job_def)
  moreover have "demo_step pool_taken pool_finished"
    unfolding pool_finished_def
    by (rule finish)
       (simp_all add: pool_taken_def pool_take_def pool_submitted_def pool_submit_def list_flume_def demo_pool_def)
  ultimately show ?thesis using pool_submitted_reachable by (meson reachable_step)
qed

lemma demo_run_job:
  "fst (run_job soft_ck sample_lib 3 3 3 demo_job
     \<lparr> wv_worker = demo_worker, wv_world = logged_token, wv_metrics = m, wv_events = [] \<rparr>) = Ok (Signature [2, 7])"
  by (simp add: run_job_def execute_def demo_job_def io_bind_def io_result_def worker_handle_def cached_handle_def
      demo_worker_def with_session_def on_world_def soft_token_simps find_object_def logged_token_def
      token_with_keys_def blank_token_def demo_objects_def as_bytes_def store_handle_def Let_def)

theorem pool_answers_own_request_witness:
  "(0, demo_request, Ok (Signature [2, 7])) \<in> set (ps_executed pool_finished)"
proof -
  obtain v where run: "run_job soft_ck sample_lib 3 3 3 demo_job
      \<lparr> wv_worker = demo_worker, wv_world = logged_token,
         wv_metrics = pool_metrics_default\<lparr>pm_jobs_submitted := 1\<rparr>, wv_events = [] \<rparr> = (Ok (Signature [2, 7]), v)"
    using demo_run_job [of "pool_metrics_default\<lparr>pm_jobs_submitted := 1\<rparr>"] by (metis prod.collapse)
  have "ps_callers pool_finished 0 = Some (Answered demo_request (Ok (Signature [2, 7])))"
    by (simp add: pool_finished_def pool_finish_def pool_taken_def pool_take_def pool_submitted_def pool_submit_def
        list_flume_def demo_pool_def pool_metrics_default_def pool_await_def answer_def
        run [unfolded pool_metrics_default_def pool_metrics.simps] demo_job_def [symmetric])
       (simp add: demo_job_def)
  then show ?thesis
    using pool_answers_own_request [OF pool_finished_reachable] by auto
qed

theorem pool_conserves_jobs_witness:
  "mset (map jb_responder (cv_items (ps_queue pool_submitted)) @ map jb_responder (busy_jobs pool_submitted)
      @ map fst (ps_executed pool_submitted) @ map fst (ps_refused pool_submitted)) = mset [0..<ps_next pool_submitted]
   \<and> ps_next pool_submitted = 1 \<and> length (cv_items (ps_queue pool_submitted)) \<le> 2"
proof -
  have "unat (pc_queue_depth (small_config 1)) = 2" by (simp add: small_config_def)
  moreover have "ps_next pool_submitted = 1"
    by (simp add: pool_submitted_def pool_submit_def list_flume_def demo_pool_def)
  ultimately show ?thesis using pool_conserves_jobs [OF pool_submitted_reachable] by metis
qed

theorem pool_drains_witness:
  "\<exists>t. demo_step\<^sup>*\<^sup>* (pool_close list_flume pool_submitted) t \<and> (\<forall>th \<in> set (ps_threads t). th = Exited)
     \<and> (\<exists>r. (0, demo_request, r) \<in> set (ps_executed t))"
proof -
  have "ps_open pool_submitted" by (simp add: pool_submitted_def pool_submit_def list_flume_def demo_pool_def)
  then have "demo_step pool_submitted (pool_close list_flume pool_submitted)" by (rule close)
  from reachable_step [OF pool_submitted_reachable this]
  obtain t where "demo_step\<^sup>*\<^sup>* (pool_close list_flume pool_submitted) t" "\<forall>th \<in> set (ps_threads t). th = Exited"
    and ex: "\<And>rid c. ps_callers (pool_close list_flume pool_submitted) rid = Some c \<Longrightarrow>
        rid \<notin> fst ` set (ps_refused (pool_close list_flume pool_submitted)) \<Longrightarrow>
        \<exists>r. (rid, caller_request c, r) \<in> set (ps_executed t)"
    using pool_drains [of soft_ck list_flume "\<lambda>q. q" demo_config "small_config 1" sample_lib 10
        "pool_close list_flume pool_submitted"] by (auto simp: pool_close_def)
  moreover have "ps_callers (pool_close list_flume pool_submitted) 0 = Some (Waiting demo_request 3)"
    "ps_refused (pool_close list_flume pool_submitted) = []"
    by (simp_all add: pool_close_def pool_submitted_def pool_submit_def list_flume_def demo_pool_def)
  ultimately show ?thesis using ex [of 0 "Waiting demo_request 3"] by auto
qed







end
