(* ===== verification/Wire.thy ===== *)
theory Wire
  imports Hsm_Prelude
begin

text \<open>
  The messages of \<open>proto/hsm/v1/hsm.proto\<close> as the handlers see them: enumerations arrive as
  32-bit integers, a message field is optional, and a request carries the certificate chain of
  the peer next to its message.
\<close>

section \<open>Requests and responses\<close>

datatype signing_input_oneof = OneofMessage bytes | OneofDigest bytes

record signing_input_message =
  sm_input :: "signing_input_oneof option"

record sign_request =
  sr_key_label :: string
  sr_mechanism :: i32
  sr_input :: "signing_input_message option"

record sign_response =
  sp_signature :: bytes
  sp_key_label :: string

record verify_request =
  vr_key_label :: string
  vr_mechanism :: i32
  vr_input :: "signing_input_message option"
  vr_signature :: bytes

record verify_response =
  vp_valid :: bool
  vp_served_from_cache :: bool

record encrypt_request =
  er_key_label :: string
  er_mechanism :: i32
  er_plaintext :: bytes
  er_associated_data :: bytes

record encrypt_response =
  ep_ciphertext :: bytes
  ep_iv :: bytes

record decrypt_request =
  dr_key_label :: string
  dr_mechanism :: i32
  dr_ciphertext :: bytes
  dr_iv :: bytes
  dr_associated_data :: bytes

record decrypt_response =
  dp_plaintext :: bytes

record get_public_key_request =
  gr_key_label :: string

record get_public_key_response =
  kp_spki_der :: bytes
  kp_key_type :: string
  kp_served_from_cache :: bool

section \<open>Mechanisms on the wire\<close>

datatype cipher_mechanism = CipherUnspecified | AesGcm

definition cipher_mechanism_of :: "i32 \<Rightarrow> cipher_mechanism option" where
  "cipher_mechanism_of n = (if n = 0 then Some CipherUnspecified else if n = 1 then Some AesGcm else None)"

lemma cipher_mechanism_of_AesGcm [simp]: "cipher_mechanism_of n = Some AesGcm \<longleftrightarrow> n = 1"
  by (simp add: cipher_mechanism_of_def)

end
