(* ===== verification/Single_Service.thy ===== *)
theory Single_Service
  imports Worker Wire
begin

text \<open>
  The service behind one session and a lock, \<open>grpc/service.rs\<close>. Handlers hold the lock for
  all their calls into the module, so a handler is one function on the world; the random bytes
  of an encryption are an argument.
\<close>

section \<open>The service\<close>

definition single_gcm_iv_len :: nat where
  "single_gcm_iv_len = 12"

definition single_gcm_tag_bits :: u64 where
  "single_gcm_tag_bits = 128"

record single_service =
  ss_session :: session

definition single_connect :: "'w cryptoki \<Rightarrow> token_config \<Rightarrow> ('w, single_service, failure) io" where
  "single_connect ck config =
     io_bind (open_token ck config) (\<lambda>(slot, session). io_return \<lparr> ss_session = session \<rparr>)"

section \<open>Error mapping\<close>

definition invalid_argument :: "string \<Rightarrow> status" where
  "invalid_argument err = status_new InvalidArgument err"

definition key_not_found :: "string \<Rightarrow> status" where
  "key_not_found label = status_new NotFound (''no key labelled '' @ quote @ label @ quote @ '' on the token'')"

definition hsm_failure :: "string \<Rightarrow> status" where
  "hsm_failure operation = status_new Internal (operation @ '' failed'')"

fun to_signing_input :: "signing_input_oneof \<Rightarrow> signing_input" where
  "to_signing_input (OneofMessage message) = InputMessage message"
| "to_signing_input (OneofDigest digest) = InputDigest digest"

definition extract_input :: "signing_input_message option \<Rightarrow> (signing_input, status) result" where
  "extract_input input =
     result_map to_signing_input
       (ok_or (status_new InvalidArgument ''input must be set to either message or digest'')
          (Option.bind input sm_input))"

definition require_object ::
    "'w cryptoki \<Rightarrow> session \<Rightarrow> object_class \<Rightarrow> string \<Rightarrow> ('w, object_handle, status) io" where
  "require_object ck session class label =
     io_bind (io_result (map_err (\<lambda>_. hsm_failure ''C_FindObjects'')) (find_object ck session class label))
       (\<lambda>found. io_lift (ok_or (key_not_found label) found))"

definition require_aes_gcm :: "i32 \<Rightarrow> (unit, status) result" where
  "require_aes_gcm mechanism =
     (case cipher_mechanism_of mechanism of
        Some AesGcm \<Rightarrow> Ok ()
      | _ \<Rightarrow> Err (status_new InvalidArgument ''only CIPHER_MECHANISM_AES_GCM is supported''))"

definition iv_length_error :: "bytes \<Rightarrow> status" where
  "iv_length_error iv =
     status_new InvalidArgument
       (''iv must be '' @ show_nat single_gcm_iv_len @ '' bytes, got '' @ show_nat (length iv))"

section \<open>Handlers\<close>

definition prepare_request ::
    "'w cryptoki \<Rightarrow> ('k, 'sg, 'r) crypto_lib \<Rightarrow> i32 \<Rightarrow> signing_input \<Rightarrow> (prepared_operation, status) result" where
  "prepare_request ck lib mechanism input =
     map_err (\<lambda>e. invalid_argument (show_anyhow (show_cause ck) e)) (prepare lib mechanism input)"

definition single_sign ::
    "'w cryptoki \<Rightarrow> ('k, 'sg, 'r) crypto_lib \<Rightarrow> single_service \<Rightarrow> sign_request \<Rightarrow> ('w, sign_response, status) io" where
  "single_sign ck lib self request =
     io_bind (io_lift (extract_input (sr_input request)))
       (\<lambda>input. io_bind (io_lift (prepare_request ck lib (sr_mechanism request) input))
       (\<lambda>prepared. io_bind (require_object ck (ss_session self) PRIVATE_KEY (sr_key_label request))
       (\<lambda>private_key. io_bind
          (io_result (map_err (\<lambda>_. hsm_failure ''C_Sign''))
             (ck_sign ck (ss_session self) (algorithm_mechanism (po_algorithm prepared)) private_key (po_payload prepared)))
       (\<lambda>signature. io_return \<lparr> sp_signature = signature, sp_key_label = sr_key_label request \<rparr>))))"

fun single_verify_outcome :: "(unit, ck_error) result \<Rightarrow> (bool, status) result" where
  "single_verify_outcome (Ok ()) = Ok True"
| "single_verify_outcome (Err (Pkcs11 SignatureInvalid _)) = Ok False"
| "single_verify_outcome (Err (Pkcs11 SignatureLenRange _)) = Ok False"
| "single_verify_outcome (Err e) = Err (hsm_failure ''C_Verify'')"

definition single_verify ::
    "'w cryptoki \<Rightarrow> ('k, 'sg, 'r) crypto_lib \<Rightarrow> single_service \<Rightarrow> verify_request \<Rightarrow> ('w, verify_response, status) io" where
  "single_verify ck lib self request =
     io_bind (io_lift (extract_input (vr_input request)))
       (\<lambda>input. io_bind (io_lift (prepare_request ck lib (vr_mechanism request) input))
       (\<lambda>prepared. io_bind (require_object ck (ss_session self) PUBLIC_KEY (vr_key_label request))
       (\<lambda>public_key. io_bind
          (io_result single_verify_outcome
             (ck_verify ck (ss_session self) (algorithm_mechanism (po_algorithm prepared)) public_key
                (po_payload prepared) (vr_signature request)))
       (\<lambda>valid. io_return \<lparr> vp_valid = valid, vp_served_from_cache = False \<rparr>))))"

definition single_gcm ::
    "'w cryptoki \<Rightarrow> bytes \<Rightarrow> bytes \<Rightarrow> (ck_mechanism, status) result" where
  "single_gcm ck iv associated_data =
     result_map MAesGcm
       (map_err (\<lambda>e. invalid_argument (ck_show_error ck e))
          (ck_gcm_params ck iv associated_data single_gcm_tag_bits))"

text \<open>\<open>random n\<close> are the bytes \<open>fill_bytes\<close> puts into a buffer of length \<open>n\<close>.\<close>

definition single_encrypt ::
    "'w cryptoki \<Rightarrow> (nat \<Rightarrow> bytes) \<Rightarrow> single_service \<Rightarrow> encrypt_request \<Rightarrow> ('w, encrypt_response, status) io" where
  "single_encrypt ck random self request =
     io_bind (io_lift (require_aes_gcm (er_mechanism request)))
       (\<lambda>_. let iv = random single_gcm_iv_len in
          io_bind (require_object ck (ss_session self) SECRET_KEY (er_key_label request))
       (\<lambda>key. io_bind (io_lift (single_gcm ck iv (er_associated_data request)))
       (\<lambda>mechanism. io_bind
          (io_result (map_err (\<lambda>_. hsm_failure ''C_Encrypt''))
             (ck_encrypt ck (ss_session self) mechanism key (er_plaintext request)))
       (\<lambda>ciphertext. io_return \<lparr> ep_ciphertext = ciphertext, ep_iv = iv \<rparr>))))"

fun decrypt_failure :: "ck_error \<Rightarrow> status" where
  "decrypt_failure (Pkcs11 EncryptedDataInvalid _) = status_new InvalidArgument ''ciphertext failed authentication''"
| "decrypt_failure (Pkcs11 EncryptedDataLenRange _) = status_new InvalidArgument ''ciphertext failed authentication''"
| "decrypt_failure _ = hsm_failure ''C_Decrypt''"

definition single_decrypt ::
    "'w cryptoki \<Rightarrow> single_service \<Rightarrow> decrypt_request \<Rightarrow> ('w, decrypt_response, status) io" where
  "single_decrypt ck self request =
     io_bind (io_lift (require_aes_gcm (dr_mechanism request)))
       (\<lambda>_. if length (dr_iv request) \<noteq> single_gcm_iv_len then io_throw (iv_length_error (dr_iv request))
          else io_bind (require_object ck (ss_session self) SECRET_KEY (dr_key_label request))
       (\<lambda>key. io_bind (io_lift (single_gcm ck (dr_iv request) (dr_associated_data request)))
       (\<lambda>mechanism. io_bind
          (io_result (map_err decrypt_failure)
             (ck_decrypt ck (ss_session self) mechanism key (dr_ciphertext request)))
       (\<lambda>plaintext. io_return \<lparr> dp_plaintext = plaintext \<rparr>))))"

definition single_get_public_key ::
    "'w cryptoki \<Rightarrow> ('k, 'sg, 'r) crypto_lib \<Rightarrow> single_service \<Rightarrow> get_public_key_request
     \<Rightarrow> ('w, get_public_key_response, status) io" where
  "single_get_public_key ck lib self request =
     io_bind (require_object ck (ss_session self) PUBLIC_KEY (gr_key_label request))
       (\<lambda>public_key. io_bind
          (io_result (map_err (\<lambda>_. hsm_failure ''public key encoding''))
             (public_key_to_spki_der ck lib (ss_session self) public_key))
       (\<lambda>(spki_der, key_type). io_return
          \<lparr> kp_spki_der = spki_der, kp_key_type = key_type, kp_served_from_cache = False \<rparr>))"

lemma require_aes_gcm_ok: "require_aes_gcm m = (if m = 1 then Ok ()
    else Err (status_new InvalidArgument ''only CIPHER_MECHANISM_AES_GCM is supported''))"
  by (simp add: require_aes_gcm_def cipher_mechanism_of_def)

section \<open>Round trips\<close>

text \<open>
  What the module documents of a session that stays usable. The worlds in which the session is live, the user
  is logged in and nobody else changes the objects are a parameter, \<open>ready\<close>: in these a search on the
  session has one answer and changes nothing, and signing and encrypting leave the session
  usable. In such worlds what was encrypted decrypts under the same key and parameters, and what was
  signed with a private key verifies under the public key with the same label.
\<close>

definition quiet_session :: "'w cryptoki \<Rightarrow> session \<Rightarrow> ('w \<Rightarrow> bool) \<Rightarrow> bool" where
  "quiet_session ck s ready \<longleftrightarrow>
     (\<forall>template w w'. ready w \<longrightarrow> ready w' \<longrightarrow>
        fst (ck_find_objects ck s template w) = fst (ck_find_objects ck s template w'))
     \<and> (\<forall>template w. ready w \<longrightarrow> snd (ck_find_objects ck s template w) = w)
     \<and> (\<forall>m key payload w. ready w \<longrightarrow>
          ready (snd (ck_sign ck s m key payload w)) \<and> ready (snd (ck_encrypt ck s m key payload w)))"

definition aead_laws :: "'w cryptoki \<Rightarrow> session \<Rightarrow> ('w \<Rightarrow> bool) \<Rightarrow> bool" where
  "aead_laws ck s ready \<longleftrightarrow>
     (\<forall>m key plaintext ciphertext w w1. ready w \<longrightarrow> ck_encrypt ck s m key plaintext w = (Ok ciphertext, w1) \<longrightarrow>
        (\<exists>w2. ck_decrypt ck s m key ciphertext w1 = (Ok plaintext, w2)))"

definition signing_laws :: "'w cryptoki \<Rightarrow> session \<Rightarrow> ('w \<Rightarrow> bool) \<Rightarrow> bool" where
  "signing_laws ck s ready \<longleftrightarrow>
     (\<forall>label priv pub m payload signature w w1. ready w \<longrightarrow>
        fst (find_object ck s PRIVATE_KEY label w) = Ok (Some priv) \<longrightarrow>
        fst (find_object ck s PUBLIC_KEY label w) = Ok (Some pub) \<longrightarrow>
        ck_sign ck s m priv payload w = (Ok signature, w1) \<longrightarrow>
        (\<exists>w2. ck_verify ck s m pub payload signature w1 = (Ok (), w2)))"

lemma quiet_find_object:
  assumes "quiet_session ck s ready"
  obtains r where "\<And>w. ready w \<Longrightarrow> find_object ck s cls label w = (r, w)"
proof (cases "\<exists>w. ready w")
  case True
  then obtain w0 where w0: "ready w0" by blast
  have "find_object ck s cls label w = (fst (find_object ck s cls label w0), w)" if "ready w" for w
  proof (rule prod_eqI)
    have "fst (ck_find_objects ck s template w) = fst (ck_find_objects ck s template w0)" for template
      using assms that w0 unfolding quiet_session_def by blast
    then show "fst (find_object ck s cls label w) = fst (fst (find_object ck s cls label w0), w)"
      by (simp add: find_object_def)
  qed (use assms that in \<open>simp add: quiet_session_def find_object_def\<close>)
  then show thesis by (rule that)
next
  case False
  then show thesis using that by blast
qed

lemma quiet_require_object:
  assumes "quiet_session ck s ready"
  obtains r where "\<And>w. ready w \<Longrightarrow> require_object ck s cls label w = (r, w)"
proof -
  obtain f where "\<And>w. ready w \<Longrightarrow> find_object ck s cls label w = (f, w)" using quiet_find_object [OF assms] by metis
  then have "require_object ck s cls label w
      = (and_then (map_err (\<lambda>_. hsm_failure ''C_FindObjects'') f) (ok_or (key_not_found label)), w)" if "ready w" for w
    using that by (cases f) (simp_all add: require_object_def io_simps)
  then show thesis by (rule that)
qed

lemma quiet_stays:
  assumes "quiet_session ck s ready" and "ready w"
  shows "ck_sign ck s m key payload w = (r, w1) \<Longrightarrow> ready w1" "ck_encrypt ck s m key payload w = (r, w1) \<Longrightarrow> ready w1"
  using assms unfolding quiet_session_def by (metis snd_conv)+

text \<open>
  C14. What the service encrypts it decrypts: sending the ciphertext and the initialisation
  vector of an encryption back, with the same key label and associated data, returns the
  plaintext.
\<close>

theorem single_encrypt_decrypt:
  assumes "quiet_session ck (ss_session self) ready" and "aead_laws ck (ss_session self) ready" and "ready w"
    and "\<And>n. length (random n) = n" and "single_encrypt ck random self request w = (Ok response, w1)"
  shows "\<exists>w2. single_decrypt ck self
      \<lparr> dr_key_label = er_key_label request, dr_mechanism = er_mechanism request,
        dr_ciphertext = ep_ciphertext response, dr_iv = ep_iv response,
        dr_associated_data = er_associated_data request \<rparr> w1
    = (Ok \<lparr> dp_plaintext = er_plaintext request \<rparr>, w2)"
proof -
  let ?s = "ss_session self" and ?iv = "random single_gcm_iv_len"
  obtain r where r: "\<And>w. ready w \<Longrightarrow> require_object ck ?s SECRET_KEY (er_key_label request) w = (r, w)"
    using quiet_require_object [OF assms(1)] by metis
  from assms(5) obtain key m c where aes: "require_aes_gcm (er_mechanism request) = Ok ()" and key: "r = Ok key"
    and m: "single_gcm ck ?iv (er_associated_data request) = Ok m"
    and c: "ck_encrypt ck ?s m key (er_plaintext request) w = (Ok c, w1)"
    and resp: "response = \<lparr> ep_ciphertext = c, ep_iv = ?iv \<rparr>"
    by (auto simp: single_encrypt_def io_iffs Let_def r [OF assms(3)])
  obtain w2 where "ck_decrypt ck ?s m key c w1 = (Ok (er_plaintext request), w2)"
    using assms(2,3) c unfolding aead_laws_def by blast
  then show ?thesis
    using r [OF quiet_stays(2) [OF assms(1,3) c]]
    by (simp add: single_decrypt_def io_bind_def io_lift_def io_return_def io_result_def aes key m resp assms(4))
qed

text \<open>
  C15. What the service signs it verifies: a signature it returned for a label and an input is
  reported valid for the same label, mechanism and input, when the token holds both halves of
  the key.
\<close>

theorem single_sign_verify:
  assumes "quiet_session ck (ss_session self) ready" and "signing_laws ck (ss_session self) ready" and "ready w"
    and "single_sign ck lib self request w = (Ok response, w1)"
    and "fst (find_object ck (ss_session self) PUBLIC_KEY (sr_key_label request) w) = Ok (Some pub)"
  shows "\<exists>w2. single_verify ck lib self
      \<lparr> vr_key_label = sr_key_label request, vr_mechanism = sr_mechanism request, vr_input = sr_input request,
        vr_signature = sp_signature response \<rparr> w1
    = (Ok \<lparr> vp_valid = True, vp_served_from_cache = False \<rparr>, w2)"
proof -
  let ?s = "ss_session self" and ?l = "sr_key_label request"
  obtain f where f: "\<And>w. ready w \<Longrightarrow> find_object ck ?s PRIVATE_KEY ?l w = (f, w)"
    using quiet_find_object [OF assms(1)] by metis
  obtain g where g: "\<And>w. ready w \<Longrightarrow> find_object ck ?s PUBLIC_KEY ?l w = (g, w)"
    using quiet_find_object [OF assms(1)] by metis
  from assms(4) obtain input op key sig where input: "extract_input (sr_input request) = Ok input"
    and op: "prepare_request ck lib (sr_mechanism request) input = Ok op" and key: "f = Ok (Some key)"
    and sig: "ck_sign ck ?s (algorithm_mechanism (po_algorithm op)) key (po_payload op) w = (Ok sig, w1)"
    and resp: "response = \<lparr> sp_signature = sig, sp_key_label = ?l \<rparr>"
    by (auto simp: single_sign_def require_object_def io_iffs f [OF assms(3)])
  with assms(2,3,5) g obtain w2
    where "ck_verify ck ?s (algorithm_mechanism (po_algorithm op)) pub (po_payload op) sig w1 = (Ok (), w2)"
    unfolding signing_laws_def by (metis f [OF assms(3)] fst_conv)
  moreover have "require_object ck ?s PUBLIC_KEY ?l w1 = (Ok pub, w1)"
    using assms(5) g [OF assms(3)] g [OF quiet_stays(1) [OF assms(1,3) sig]]
    by (simp add: require_object_def io_bind_def io_lift_def io_result_def)
  ultimately show ?thesis
    by (simp add: single_verify_def io_bind_def io_lift_def io_return_def io_result_def input op resp)
qed

section \<open>Evaluation\<close>

text \<open>On the demo token session 2 is live and the user is logged in; the token never changes.\<close>

abbreviation "demo_single \<equiv> \<lparr> ss_session = 2 \<rparr>"
abbreviation "demo_ready \<equiv> \<lambda>w. w = demo_token"

lemma demo_live: "tk_live 2 demo_token" "tk_logged demo_token" "tk_objects demo_token = demo_objects"
  by (simp_all add: tk_live_def demo_token_def blank_token_def)

lemma demo_quiet: "quiet_session soft_ck 2 demo_ready"
  by (auto simp: quiet_session_def soft_ck_def tk_find_def tk_sign_def tk_encrypt_def tk_guard_def tk_object_def demo_live
      tk_fail_def io_return_def io_throw_def split: option.splits)

lemma demo_aead: "aead_laws soft_ck 2 demo_ready"
  by (auto simp: aead_laws_def soft_ck_def tk_encrypt_def tk_decrypt_def tk_guard_def tk_object_def demo_live
      tk_fail_def io_return_def io_throw_def split: option.splits)

lemma demo_find:
  "find_object soft_ck 2 cls label demo_token =
     (Ok (find (\<lambda>h. \<exists>attrs. map_of demo_objects h = Some attrs \<and> {AClass cls, ALabel (as_bytes label)} \<subseteq> set attrs) [20, 21, 22]),
      demo_token)"
  by (simp add: find_object_def soft_ck_def tk_find_def tk_guard_def tk_visible_def demo_live io_simps)
     (simp add: demo_objects_def)

lemma demo_tags:
  "map_of demo_objects h = Some attrs \<Longrightarrow> ALabel l \<in> set attrs \<Longrightarrow> tk_tag attrs = of_nat (length l)"
  by (auto simp: demo_objects_def as_bytes_def split: if_splits)

lemma demo_found:
  assumes "fst (find_object soft_ck 2 cls label demo_token) = Ok (Some h)"
  shows "\<exists>attrs. map_of demo_objects h = Some attrs \<and> tk_tag attrs = of_nat (length (as_bytes label))"
proof -
  from assms have "\<exists>attrs. map_of demo_objects h = Some attrs \<and> ALabel (as_bytes label) \<in> set attrs"
    unfolding demo_find fst_conv result.inject find_Some_iff by blast
  then show ?thesis using demo_tags by blast
qed

lemma demo_signing: "signing_laws soft_ck 2 demo_ready"
proof -
  have "ck_sign soft_ck 2 m priv payload demo_token = (Ok (of_nat (length (as_bytes label)) # payload), demo_token)
      \<and> ck_verify soft_ck 2 m pub payload (of_nat (length (as_bytes label)) # payload) demo_token = (Ok (), demo_token)"
    if "fst (find_object soft_ck 2 PRIVATE_KEY label demo_token) = Ok (Some priv)"
      and "fst (find_object soft_ck 2 PUBLIC_KEY label demo_token) = Ok (Some pub)" for label priv pub m payload
    using demo_found [OF that(1)] demo_found [OF that(2)]
    by (auto simp: soft_ck_def tk_sign_def tk_verify_def tk_guard_def tk_object_def demo_live io_return_def)
  then show ?thesis unfolding signing_laws_def by (metis prod.inject result.inject(1))
qed

theorem single_encrypt_decrypt_witness:
  "\<exists>w2. single_decrypt soft_ck demo_single
      \<lparr> dr_key_label = ''aes'', dr_mechanism = 1, dr_ciphertext = [3, 104, 105], dr_iv = replicate 12 4,
        dr_associated_data = [9] \<rparr> demo_token
    = (Ok \<lparr> dp_plaintext = [104, 105] \<rparr>, w2)"
proof -
  have "single_encrypt soft_ck (\<lambda>n. replicate n 4) demo_single
      \<lparr> er_key_label = ''aes'', er_mechanism = 1, er_plaintext = [104, 105], er_associated_data = [9] \<rparr> demo_token
    = (Ok \<lparr> ep_ciphertext = [3, 104, 105], ep_iv = replicate 12 4 \<rparr>, demo_token)"
    by (simp add: single_encrypt_def require_aes_gcm_ok require_object_def find_object_def io_simps
        soft_token_simps demo_objects_def as_bytes_def single_gcm_def single_gcm_iv_len_def single_gcm_tag_bits_def
        demo_token_def blank_token_def Let_def)
  from single_encrypt_decrypt [where ready = demo_ready, OF _ _ refl _ this] demo_quiet demo_aead show ?thesis by simp
qed

theorem single_sign_verify_witness:
  "\<exists>w2. single_verify soft_ck sample_lib demo_single
      \<lparr> vr_key_label = ''ec'', vr_mechanism = 1, vr_input = Some \<lparr> sm_input = Some (OneofDigest (replicate 32 5)) \<rparr>,
        vr_signature = 2 # replicate 32 5 \<rparr> demo_token
    = (Ok \<lparr> vp_valid = True, vp_served_from_cache = False \<rparr>, w2)"
proof -
  have "single_sign soft_ck sample_lib demo_single
      \<lparr> sr_key_label = ''ec'', sr_mechanism = 1, sr_input = Some \<lparr> sm_input = Some (OneofDigest (replicate 32 5)) \<rparr> \<rparr> demo_token
    = (Ok \<lparr> sp_signature = 2 # replicate 32 5, sp_key_label = ''ec'' \<rparr>, demo_token)"
    by (simp add: single_sign_def extract_input_def prepare_request_def prepare_def signature_mechanism_of_def
        check_digest_len_def sha256_len_def require_object_def find_object_def io_simps soft_token_simps
        demo_objects_def as_bytes_def demo_token_def blank_token_def)
  moreover have "fst (find_object soft_ck 2 PUBLIC_KEY ''ec'' demo_token) = Ok (Some 21)"
    by (simp add: demo_find demo_objects_def as_bytes_def)
  ultimately show ?thesis
    using single_sign_verify [where self = demo_single and ready = demo_ready and w = demo_token] demo_quiet demo_signing
    by fastforce
qed

end
