(* ===== verification/Policy.thy ===== *)
theory Policy
  imports Hsm_Prelude
begin

text \<open>
  The authorization policy, \<open>authz/policy.rs\<close>: identity, key label and operation. The TOML
  reader (crate \<open>toml\<close> with the derived \<open>Deserialize\<close>) is a parameter that turns text into
  the file structure; compiling that structure into nested hash maps and querying them is
  the model. The policy is shown to be exactly the set of listed triples.
\<close>

section \<open>Data\<close>

datatype operation = Sign | Verify | Encrypt | Decrypt | GetPublicKey

fun operation_as_str :: "operation \<Rightarrow> string" where
  "operation_as_str Sign = ''sign''"
| "operation_as_str Verify = ''verify''"
| "operation_as_str Encrypt = ''encrypt''"
| "operation_as_str Decrypt = ''decrypt''"
| "operation_as_str GetPublicKey = ''get_public_key''"

record grant_entry =
  ge_key_label :: string
  ge_operations :: "operation list"

record workload_entry =
  we_identity :: string
  we_description :: "string option"
  we_grants :: "grant_entry list"

record policy_file =
  pf_workloads :: "workload_entry list"

type_synonym policy = "(string, (string, operation set) hash_map) hash_map"

datatype policy_error = ReadError string | TomlError string

section \<open>Loading\<close>

definition add_grant :: "(string, operation set) hash_map \<Rightarrow> grant_entry \<Rightarrow> (string, operation set) hash_map" where
  "add_grant per_key g =
     entry_or {} (\<lambda>ops. ops \<union> set (ge_operations g)) (ge_key_label g) per_key"

definition add_workload :: "policy \<Rightarrow> workload_entry \<Rightarrow> policy" where
  "add_workload grants w =
     entry_or [] (\<lambda>per_key. foldl add_grant per_key (we_grants w)) (we_identity w) grants"

definition policy_compile :: "policy_file \<Rightarrow> policy" where
  "policy_compile file = foldl add_workload [] (pf_workloads file)"

definition policy_parse ::
    "(string \<Rightarrow> (policy_file, string) result) \<Rightarrow> string \<Rightarrow> (policy, policy_error anyhow) result" where
  "policy_parse from_toml text =
     result_map policy_compile
       (with_context ''invalid TOML'' (lift_error (map_err TomlError (from_toml text))))"

definition policy_load ::
    "(string \<Rightarrow> (policy_file, string) result) \<Rightarrow> (string \<Rightarrow> (string, string) result) \<Rightarrow> string
     \<Rightarrow> (policy, policy_error anyhow) result" where
  "policy_load from_toml read_file path =
     and_then
       (with_context (''failed to read policy file '' @ path)
          (lift_error (map_err ReadError (read_file path))))
       (\<lambda>text. with_context (''failed to parse policy file '' @ path) (policy_parse from_toml text))"

section \<open>Queries\<close>

definition is_allowed :: "policy \<Rightarrow> string \<Rightarrow> string \<Rightarrow> operation \<Rightarrow> bool" where
  "is_allowed grants identity key_label operation =
     (case Option.bind (map_of grants identity) (\<lambda>keys. map_of keys key_label) of
        None \<Rightarrow> False
      | Some ops \<Rightarrow> operation \<in> ops)"

definition identity_count :: "policy \<Rightarrow> nat" where
  "identity_count grants = length grants"

definition grant_count :: "policy \<Rightarrow> nat" where
  "grant_count grants =
     sum_list (map card (concat (map (\<lambda>keys. map snd keys) (map snd grants))))"

section \<open>Permission stores\<close>

text \<open>
  The contract a client of the policy relies on: an empty store allows nothing, and adding
  an entry allows exactly what the entry lists in addition. Everything a store built from a
  list of entries allows is then listed in one of them.
\<close>

locale permission_store =
  fixes empty :: 'p
    and add :: "'p \<Rightarrow> 'w \<Rightarrow> 'p"
    and allows :: "'p \<Rightarrow> 'q \<Rightarrow> bool"
    and lists :: "'w \<Rightarrow> 'q \<Rightarrow> bool"
  assumes allows_empty: "\<not> allows empty q"
    and allows_add: "allows (add p w) q \<longleftrightarrow> allows p q \<or> lists w q"
begin

lemma allows_foldl: "allows (foldl add p ws) q \<longleftrightarrow> allows p q \<or> (\<exists>w \<in> set ws. lists w q)"
  by (induction ws arbitrary: p) (auto simp: allows_add)

lemma allows_built: "allows (foldl add empty ws) q \<longleftrightarrow> (\<exists>w \<in> set ws. lists w q)"
  by (simp add: allows_foldl allows_empty)

end

definition grant_lists :: "grant_entry \<Rightarrow> string \<times> operation \<Rightarrow> bool" where
  "grant_lists g = (\<lambda>(key, op). ge_key_label g = key \<and> op \<in> set (ge_operations g))"

definition keys_allow :: "(string, operation set) hash_map \<Rightarrow> string \<times> operation \<Rightarrow> bool" where
  "keys_allow keys = (\<lambda>(key, op). \<exists>ops. map_of keys key = Some ops \<and> op \<in> ops)"

definition workload_lists :: "workload_entry \<Rightarrow> string \<times> string \<times> operation \<Rightarrow> bool" where
  "workload_lists w =
     (\<lambda>(identity, kq). we_identity w = identity \<and> (\<exists>g \<in> set (we_grants w). grant_lists g kq))"

definition policy_allows :: "policy \<Rightarrow> string \<times> string \<times> operation \<Rightarrow> bool" where
  "policy_allows p = (\<lambda>(identity, key, op). is_allowed p identity key op)"

lemma unwrap_or_case: "unwrap_or d v = (case v of None \<Rightarrow> d | Some x \<Rightarrow> x)"
  by (cases v) simp_all

interpretation per_key: permission_store "[]" add_grant keys_allow grant_lists
  by unfold_locales
    (auto simp: keys_allow_def grant_lists_def add_grant_def unwrap_or_case split: option.splits if_splits)

lemma policy_allows_keys:
  "policy_allows p (identity, kq) \<longleftrightarrow> (\<exists>keys. map_of p identity = Some keys \<and> keys_allow keys kq)"
  by (cases kq) (auto simp: policy_allows_def is_allowed_def keys_allow_def bind_eq_Some_conv split: option.splits)

interpretation policy_store: permission_store "[]" add_workload policy_allows workload_lists
proof unfold_locales
  fix p w q
  show "\<not> policy_allows [] q" by (cases q) (simp add: policy_allows_keys)
  show "policy_allows (add_workload p w) q \<longleftrightarrow> policy_allows p q \<or> workload_lists w q"
    by (cases q)
      (auto simp: policy_allows_keys workload_lists_def add_workload_def per_key.allows_foldl
        per_key.allows_empty unwrap_or_case split: option.splits)
qed

lemma is_allowed_compile:
  "is_allowed (policy_compile file) identity key op \<longleftrightarrow>
     (\<exists>w \<in> set (pf_workloads file). we_identity w = identity \<and>
        (\<exists>g \<in> set (we_grants w). ge_key_label g = key \<and> op \<in> set (ge_operations g)))"
  using policy_store.allows_built [of "pf_workloads file" "(identity, key, op)"]
  by (simp add: policy_allows_def policy_compile_def workload_lists_def grant_lists_def)

section \<open>Well-formedness\<close>

definition policy_wf :: "policy \<Rightarrow> bool" where
  "policy_wf p \<longleftrightarrow> hm_wf p \<and> (\<forall>keys \<in> snd ` set p. hm_wf keys)"

lemma UNIV_operation: "UNIV = {Sign, Verify, Encrypt, Decrypt, GetPublicKey}"
proof -
  have "op \<in> {Sign, Verify, Encrypt, Decrypt, GetPublicKey}" for op by (cases op) simp_all
  then show ?thesis by blast
qed

instance operation :: finite
  by standard (simp add: UNIV_operation)

lemma hm_wf_foldl_add_grant: "hm_wf keys \<Longrightarrow> hm_wf (foldl add_grant keys gs)"
  by (induction gs arbitrary: keys) (simp_all add: add_grant_def)

lemma values_update: "snd ` set (AList.update k v m) \<subseteq> insert v (snd ` set m)"
  by (induction m) auto

lemma policy_wf_add_workload:
  assumes "policy_wf p"
  shows "policy_wf (add_workload p w)"
proof -
  have "hm_wf (unwrap_or [] (map_of p (we_identity w)))"
    using assms by (force simp: policy_wf_def unwrap_or_case split: option.splits dest: map_of_SomeD)
  from hm_wf_foldl_add_grant [OF this] show ?thesis
    using assms values_update unfolding policy_wf_def add_workload_def entry_or_def
    by (metis (no_types, lifting) hm_wf_simps(2) insertE subsetD)
qed

lemma policy_wf_compile: "policy_wf (policy_compile file)"
proof -
  have "policy_wf (foldl add_workload p ws)" if "policy_wf p" for p ws
    using that by (induction ws arbitrary: p) (simp_all add: policy_wf_add_workload)
  from this [of "[]"] show ?thesis by (simp add: policy_compile_def policy_wf_def)
qed

section \<open>Counting\<close>

definition key_grants :: "(string, operation set) hash_map \<Rightarrow> (string \<times> operation) set" where
  "key_grants keys = {kq. keys_allow keys kq}"

definition policy_grants :: "policy \<Rightarrow> (string \<times> string \<times> operation) set" where
  "policy_grants p = {(identity, key, op). is_allowed p identity key op}"

lemma map_of_fresh: "k \<notin> fst ` set m \<Longrightarrow> map_of m k = None"
  by (simp add: map_of_eq_None_iff)

lemma key_grants_Cons:
  "k \<notin> fst ` set keys \<Longrightarrow> key_grants ((k, ops) # keys) = Pair k ` ops \<union> key_grants keys"
  by (auto simp: key_grants_def keys_allow_def map_of_fresh split: if_splits)

lemma card_key_grants:
  "hm_wf keys \<Longrightarrow> finite (key_grants keys) \<and> card (key_grants keys) = sum_list (map card (map snd keys))"
proof (induction keys)
  case Nil
  then show ?case by (simp add: key_grants_def keys_allow_def)
next
  case (Cons kv keys)
  obtain k ops where kv: "kv = (k, ops)" by (cases kv)
  with Cons.prems have k: "k \<notin> fst ` set keys" and wf: "hm_wf keys" by (simp_all add: hm_wf_def)
  then have "Pair k ` ops \<inter> key_grants keys = {}"
    by (auto simp: key_grants_def keys_allow_def map_of_fresh)
  then show ?case
    using Cons.IH [OF wf]
    by (simp add: kv key_grants_Cons [OF k] card_Un_disjoint card_image inj_on_def)
qed

lemma policy_grants_Cons:
  assumes "i \<notin> fst ` set p"
  shows "policy_grants ((i, keys) # p) = Pair i ` key_grants keys \<union> policy_grants p"
proof -
  have split: "policy_grants p' = {(i, kq). policy_allows p' (i, kq)}" for p'
    by (auto simp: policy_grants_def policy_allows_def)
  show ?thesis
    using assms by (auto simp: split policy_allows_keys key_grants_def map_of_fresh split: if_splits)
qed

lemma card_policy_grants:
  "policy_wf p \<Longrightarrow> finite (policy_grants p) \<and> card (policy_grants p) = grant_count p"
proof (induction p)
  case Nil
  have "policy_grants [] = {}" by (simp add: policy_grants_def is_allowed_def)
  then show ?case by (simp add: grant_count_def)
next
  case (Cons ik p)
  obtain i keys where ik: "ik = (i, keys)" by (cases ik)
  with Cons.prems have i: "i \<notin> fst ` set p" and wf: "policy_wf p" "hm_wf keys"
    by (auto simp: policy_wf_def hm_wf_def)
  then have "Pair i ` key_grants keys \<inter> policy_grants p = {}"
    by (auto simp: policy_grants_def is_allowed_def map_of_fresh)
  then show ?case
    using Cons.IH [OF wf(1)] card_key_grants [OF wf(2)]
    by (simp add: ik policy_grants_Cons [OF i] card_Un_disjoint card_image inj_on_def grant_count_def)
qed

lemma dom_compile: "dom (map_of (policy_compile file)) = we_identity ` set (pf_workloads file)"
proof -
  have "dom (map_of (foldl add_workload p ws)) = dom (map_of p) \<union> we_identity ` set ws" for p ws
    by (induction ws arbitrary: p) (auto simp: add_workload_def split: if_splits)
  then show ?thesis by (simp add: policy_compile_def)
qed

section \<open>Correctness\<close>

text \<open>
  C2. Default deny, exactly: a policy loaded from a readable, well-formed file allows an
  identity an operation on a key if and only if some workload entry of that identity has a
  grant for that key listing the operation. Duplicate entries for one identity or key merge.
\<close>

theorem policy_is_allowed_iff_listed:
  assumes "read_file path = Ok text" and "from_toml text = Ok file"
  shows "\<exists>p. policy_load from_toml read_file path = Ok p \<and>
    (\<forall>identity key op. is_allowed p identity key op \<longleftrightarrow>
      (\<exists>w \<in> set (pf_workloads file). we_identity w = identity \<and>
        (\<exists>g \<in> set (we_grants w). ge_key_label g = key \<and> op \<in> set (ge_operations g))))"
  using assms by (simp add: policy_load_def policy_parse_def is_allowed_compile)

definition sample_policy_file :: policy_file where
  "sample_policy_file =
     \<lparr> pf_workloads =
         [ \<lparr> we_identity = ''payments'', we_description = None,
             we_grants = [ \<lparr> ge_key_label = ''k'', ge_operations = [Sign, Verify] \<rparr>,
                           \<lparr> ge_key_label = ''k'', ge_operations = [Sign, Encrypt] \<rparr> ] \<rparr>,
           \<lparr> we_identity = ''batch'', we_description = None, we_grants = [] \<rparr> ] \<rparr>"

theorem policy_is_allowed_iff_listed_witness:
  "\<exists>p. policy_load (\<lambda>_. Ok sample_policy_file) (\<lambda>_. Ok ''text'') ''authz.toml'' = Ok p
     \<and> is_allowed p ''payments'' ''k'' Encrypt \<and> \<not> is_allowed p ''batch'' ''k'' Sign"
proof -
  have "(\<lambda>_. Ok ''text'') ''authz.toml'' = Ok ''text''"
    and "(\<lambda>_. Ok sample_policy_file) ''text'' = Ok sample_policy_file" by simp_all
  from policy_is_allowed_iff_listed [of "\<lambda>_. Ok ''text''" "''authz.toml''" "''text''"
      "\<lambda>_. Ok sample_policy_file", OF this]
  show ?thesis by (auto simp: sample_policy_file_def)
qed

text \<open>
  The two counts logged at start-up are those of the set of permissions: the number of
  grants is the number of distinct (identity, key, operation) triples that are allowed, and
  the number of identities is the number of distinct identities in the file.
\<close>

theorem policy_counts:
  "grant_count (policy_compile file) = card {(i, k, op). is_allowed (policy_compile file) i k op}
   \<and> identity_count (policy_compile file) = card (we_identity ` set (pf_workloads file))"
  using card_policy_grants [OF policy_wf_compile [of "file"]] policy_wf_compile [of "file"]
  by (simp add: policy_grants_def identity_count_def length_hm dom_compile policy_wf_def)

end
