(* ===== verification/Identity.thy ===== *)
theory Identity
  imports Hsm_Prelude
begin

text \<open>
  Deriving a workload identity from the client certificate, \<open>authz/identity.rs\<close>. The X.509
  parser (crate \<open>x509-parser\<close>) is a parameter that gives the parts of a certificate the code
  looks at. The extractor memoises parsed identities by the raw leaf certificate; concurrent
  requests share the memo, so its use is a transition system with the read and the write of
  the lock as separate steps.
\<close>

section \<open>Certificates\<close>

datatype general_name = URI string | OtherName

datatype parsed_extension = SubjectAlternativeName "general_name list" | OtherExtension

text \<open>A common name whose text is not a string (\<open>as_str\<close> fails) is \<open>None\<close>.\<close>

record x509_certificate =
  x_extensions :: "parsed_extension list"
  x_common_names :: "string option list"

type_synonym x509_parser = "bytes \<Rightarrow> x509_certificate option"

section \<open>Parsing an identity\<close>

fun first_uri :: "general_name list \<Rightarrow> string option" where
  "first_uri [] = None"
| "first_uri (URI uri # names) = Some uri"
| "first_uri (OtherName # names) = first_uri names"

fun first_uri_san :: "parsed_extension list \<Rightarrow> string option" where
  "first_uri_san [] = None"
| "first_uri_san (OtherExtension # exts) = first_uri_san exts"
| "first_uri_san (SubjectAlternativeName names # exts) =
     (case first_uri names of Some uri \<Rightarrow> Some uri | None \<Rightarrow> first_uri_san exts)"

definition first_common_name :: "x509_certificate \<Rightarrow> string option" where
  "first_common_name cert = (case x_common_names cert of [] \<Rightarrow> None | cn # _ \<Rightarrow> cn)"

definition parse_identity :: "x509_parser \<Rightarrow> bytes \<Rightarrow> (string, status) result" where
  "parse_identity from_der der =
     (case from_der der of
        None \<Rightarrow> Err (status_new Unauthenticated ''client certificate could not be parsed'')
      | Some cert \<Rightarrow>
          (case first_uri_san (x_extensions cert) of
             Some uri \<Rightarrow> Ok uri
           | None \<Rightarrow>
               (case first_common_name cert of
                  Some cn \<Rightarrow> Ok cn
                | None \<Rightarrow> Err (status_new Unauthenticated
                    ''client certificate carries neither a URI SAN nor a Common Name''))))"

section \<open>The extractor\<close>

definition max_cached_identities :: nat where
  "max_cached_identities = 1024"

text \<open>A poisoned lock is skipped by both \<open>read().ok()\<close> and \<open>if let Ok(..) = write()\<close>.\<close>

record identity_extractor =
  ie_cache :: "(bytes, string) hash_map"
  ie_poisoned :: bool

definition extractor_new :: identity_extractor where
  "extractor_new = \<lparr> ie_cache = [], ie_poisoned = False \<rparr>"

definition cache_lookup :: "bytes \<Rightarrow> identity_extractor \<Rightarrow> string option" where
  "cache_lookup der ie = (if ie_poisoned ie then None else map_of (ie_cache ie) der)"

definition cache_remember :: "bytes \<Rightarrow> string \<Rightarrow> identity_extractor \<Rightarrow> identity_extractor" where
  "cache_remember der identity ie =
     (if ie_poisoned ie then ie
      else (let cache = (if max_cached_identities \<le> length (ie_cache ie) then [] else ie_cache ie) in
            ie\<lparr>ie_cache := AList.update der identity cache\<rparr>))"

text \<open>\<open>request.peer_certs()\<close>: the chain the TLS layer verified, if there is one.\<close>

type_synonym peer_certs = "bytes list option"

definition leaf_certificate :: "peer_certs \<Rightarrow> (bytes, status) result" where
  "leaf_certificate certs =
     (case certs of
        None \<Rightarrow> Err (status_new Unauthenticated ''no client certificate presented; mTLS is required'')
      | Some [] \<Rightarrow> Err (status_new Unauthenticated ''empty client certificate chain'')
      | Some (leaf # _) \<Rightarrow> Ok leaf)"

definition identify ::
    "x509_parser \<Rightarrow> peer_certs \<Rightarrow> identity_extractor \<Rightarrow> (string, status) result \<times> identity_extractor" where
  "identify from_der certs ie =
     (case leaf_certificate certs of
        Err e \<Rightarrow> (Err e, ie)
      | Ok der \<Rightarrow>
          (case cache_lookup der ie of
             Some identity \<Rightarrow> (Ok identity, ie)
           | None \<Rightarrow>
               (case parse_identity from_der der of
                  Err e \<Rightarrow> (Err e, ie)
                | Ok identity \<Rightarrow> (Ok identity, cache_remember der identity ie))))"

section \<open>The memo is transparent\<close>

text \<open>Every entry is what parsing its key gives, keys are distinct and the bound holds.\<close>

definition extractor_coherent :: "x509_parser \<Rightarrow> identity_extractor \<Rightarrow> bool" where
  "extractor_coherent from_der ie \<longleftrightarrow>
     hm_wf (ie_cache ie)
     \<and> length (ie_cache ie) \<le> max_cached_identities
     \<and> (\<forall>der identity. map_of (ie_cache ie) der = Some identity \<longrightarrow>
          parse_identity from_der der = Ok identity)"

definition identity_source :: "x509_parser \<Rightarrow> peer_certs \<Rightarrow> (string, status) result" where
  "identity_source from_der certs = and_then (leaf_certificate certs) (parse_identity from_der)"

lemma extractor_coherent_new: "extractor_coherent from_der extractor_new"
  by (simp add: extractor_coherent_def extractor_new_def)

lemma cache_lookup_coherent:
  "extractor_coherent from_der ie \<Longrightarrow> cache_lookup der ie = Some identity \<Longrightarrow>
     parse_identity from_der der = Ok identity"
  by (simp add: extractor_coherent_def cache_lookup_def split: if_splits)

lemma cache_remember_coherent:
  assumes "extractor_coherent from_der ie" and "parse_identity from_der der = Ok identity"
  shows "extractor_coherent from_der (cache_remember der identity ie)"
proof -
  have "length (AList.update der identity m) \<le> max_cached_identities"
    if "length m < max_cached_identities" for m :: "(bytes, string) hash_map"
    using length_update_le [of der identity m] that by simp
  then show ?thesis
    using assms by (auto simp: extractor_coherent_def cache_remember_def Let_def max_cached_identities_def)
qed

interpretation identities: memo_table
    "identify from_der" "identity_source from_der" "extractor_coherent from_der" for from_der
proof unfold_locales
  fix ie certs
  assume coherent: "extractor_coherent from_der ie"
  show "fst (identify from_der certs ie) = identity_source from_der certs"
    using cache_lookup_coherent [OF coherent]
    by (cases "leaf_certificate certs")
       (auto simp: identify_def identity_source_def split: option.splits result.splits)
  show "extractor_coherent from_der (snd (identify from_der certs ie))"
    using coherent cache_remember_coherent [OF coherent]
    by (auto simp: identify_def split: option.splits result.splits)
qed

section \<open>Concurrent requests\<close>

text \<open>
  Requests probe the memo under the read lock, parse without a lock, and store under the
  write lock; any number of them may be between the parse and the store. An answer is
  recorded with the leaf certificate of its request.
\<close>

record identity_sys =
  is_extractor :: identity_extractor
  is_parsed :: "(bytes \<times> string) list"
  is_answers :: "(bytes \<times> (string, status) result) list"

inductive identity_step :: "x509_parser \<Rightarrow> identity_sys \<Rightarrow> identity_sys \<Rightarrow> bool" for from_der where
  probe_hit:
    "cache_lookup der (is_extractor s) = Some identity \<Longrightarrow>
     identity_step from_der s (s\<lparr>is_answers := (der, Ok identity) # is_answers s\<rparr>)"
| probe_miss:
    "cache_lookup der (is_extractor s) = None \<Longrightarrow> parse_identity from_der der = Ok identity \<Longrightarrow>
     identity_step from_der s (s\<lparr>is_parsed := (der, identity) # is_parsed s\<rparr>)"
| probe_reject:
    "cache_lookup der (is_extractor s) = None \<Longrightarrow> parse_identity from_der der = Err e \<Longrightarrow>
     identity_step from_der s (s\<lparr>is_answers := (der, Err e) # is_answers s\<rparr>)"
| store:
    "is_parsed s = pre @ (der, identity) # post \<Longrightarrow>
     identity_step from_der s
       (s\<lparr>is_extractor := cache_remember der identity (is_extractor s),
          is_parsed := pre @ post,
          is_answers := (der, Ok identity) # is_answers s\<rparr>)"

inductive_cases identity_stepE: "identity_step from_der s t"

definition identity_start :: "identity_sys \<Rightarrow> bool" where
  "identity_start s \<longleftrightarrow> is_extractor s = extractor_new \<and> is_parsed s = [] \<and> is_answers s = []"

definition identity_inv :: "x509_parser \<Rightarrow> identity_sys \<Rightarrow> bool" where
  "identity_inv from_der s \<longleftrightarrow>
     extractor_coherent from_der (is_extractor s)
     \<and> (\<forall>(der, identity) \<in> set (is_parsed s). parse_identity from_der der = Ok identity)
     \<and> (\<forall>(der, r) \<in> set (is_answers s). r = parse_identity from_der der)"

interpretation identity_sys: inductive_invariant
    identity_start "identity_step from_der" "identity_inv from_der" for from_der
proof unfold_locales
  fix s t
  show "identity_start s \<Longrightarrow> identity_inv from_der s"
    by (simp add: identity_start_def identity_inv_def extractor_coherent_new)
  assume inv: "identity_inv from_der s" and "identity_step from_der s t"
  from this(2) show "identity_inv from_der t"
    using inv
    by (cases rule: identity_step.cases)
       (auto simp: identity_inv_def cache_lookup_coherent cache_remember_coherent)
qed

section \<open>Correctness\<close>

text \<open>
  C18. The identity memo is transparent under concurrency: however requests interleave, every
  answer is what parsing the leaf certificate of that very request gives, so no caller is
  ever taken for another one, and the memo never holds more than 1024 entries.
\<close>

theorem identify_interleaved:
  assumes "reachable identity_start (identity_step from_der) s"
  shows "(\<forall>der r. (der, r) \<in> set (is_answers s) \<longrightarrow> r = parse_identity from_der der)
       \<and> length (ie_cache (is_extractor s)) \<le> 1024"
  using identity_sys.inv_reachable [OF assms]
  by (auto simp: identity_inv_def extractor_coherent_def max_cached_identities_def)

definition sample_x509 :: x509_parser where
  "sample_x509 der =
     (if der = [48] then Some \<lparr> x_extensions = [OtherExtension,
           SubjectAlternativeName [OtherName, URI ''spiffe://a'', URI ''spiffe://b'']],
           x_common_names = [Some ''cn''] \<rparr>
      else if der = [49] then Some \<lparr> x_extensions = [], x_common_names = [Some ''cn''] \<rparr>
      else None)"

definition sample_identity_run :: identity_sys where
  "sample_identity_run =
     \<lparr> is_extractor = cache_remember [48] ''spiffe://a'' extractor_new,
       is_parsed = [], is_answers = [([48], Ok ''spiffe://a''), ([48], Ok ''spiffe://a'')] \<rparr>"

lemma sample_identity_run_reachable:
  "reachable identity_start (identity_step sample_x509) sample_identity_run"
proof -
  let ?s0 = "\<lparr> is_extractor = extractor_new, is_parsed = [], is_answers = [] \<rparr>"
  let ?s1 = "?s0\<lparr>is_parsed := [([48], ''spiffe://a'')]\<rparr>"
  let ?s2 = "\<lparr> is_extractor = cache_remember [48] ''spiffe://a'' extractor_new,
               is_parsed = [], is_answers = [([48], Ok ''spiffe://a'')] \<rparr>"
  have "identity_step sample_x509 ?s0 ?s1"
    using probe_miss [of "[48]" ?s0 sample_x509 "''spiffe://a''"]
    by (simp add: cache_lookup_def extractor_new_def parse_identity_def sample_x509_def)
  moreover have "identity_step sample_x509 ?s1 ?s2"
    using store [of ?s1 "[]" "[48]" "''spiffe://a''" "[]" sample_x509] by simp
  moreover have "identity_step sample_x509 ?s2 sample_identity_run"
    using probe_hit [of "[48]" ?s2 "''spiffe://a''" sample_x509]
    by (simp add: cache_lookup_def cache_remember_def extractor_new_def sample_identity_run_def
        max_cached_identities_def)
  moreover have "identity_start ?s0" by (simp add: identity_start_def)
  ultimately show ?thesis by (meson reachable_start reachable_step)
qed

theorem identify_interleaved_witness:
  "Ok ''spiffe://a'' = parse_identity sample_x509 [48]
   \<and> length (ie_cache (is_extractor sample_identity_run)) \<le> 1024"
  using identify_interleaved [OF sample_identity_run_reachable]
  by (simp add: sample_identity_run_def)

definition name_uris :: "general_name list \<Rightarrow> string list" where
  "name_uris names = concat (map (\<lambda>n. case n of URI u \<Rightarrow> [u] | OtherName \<Rightarrow> []) names)"

definition uri_sans :: "parsed_extension list \<Rightarrow> string list" where
  "uri_sans exts =
     concat (map (\<lambda>ext. case ext of
                    SubjectAlternativeName names \<Rightarrow> name_uris names
                  | OtherExtension \<Rightarrow> []) exts)"

lemma first_uri_hd: "first_uri names = (case name_uris names of [] \<Rightarrow> None | u # _ \<Rightarrow> Some u)"
  by (induction names rule: first_uri.induct) (simp_all add: name_uris_def)

lemma uri_sans_simps:
  "uri_sans [] = []"
  "uri_sans (OtherExtension # exts) = uri_sans exts"
  "uri_sans (SubjectAlternativeName names # exts) = name_uris names @ uri_sans exts"
  by (simp_all add: uri_sans_def)

lemma first_uri_san_hd: "first_uri_san exts = (case uri_sans exts of [] \<Rightarrow> None | u # _ \<Rightarrow> Some u)"
  by (induction exts rule: first_uri_san.induct)
     (simp_all add: first_uri_hd uri_sans_simps split: list.split)

text \<open>
  The URI subject alternative name is authoritative: the identity of a certificate that
  parses is the first URI among the subject alternative names in document order; only a
  certificate without one is identified by its first common name, and one with neither is
  refused.
\<close>

theorem parse_identity_uri_first:
  assumes "from_der der = Some cert"
  shows "parse_identity from_der der =
     (case uri_sans (x_extensions cert) @ map the (filter (\<lambda>cn. cn \<noteq> None) (take 1 (x_common_names cert))) of
        identity # _ \<Rightarrow> Ok identity
      | [] \<Rightarrow> Err (status_new Unauthenticated
                ''client certificate carries neither a URI SAN nor a Common Name''))"
  using assms
  by (auto simp: parse_identity_def first_uri_san_hd first_common_name_def split: list.splits option.splits)

theorem parse_identity_uri_first_witness:
  "parse_identity sample_x509 [48] = Ok ''spiffe://a''"
  using parse_identity_uri_first [of sample_x509 "[48]"
      "\<lparr> x_extensions = [OtherExtension,
           SubjectAlternativeName [OtherName, URI ''spiffe://a'', URI ''spiffe://b'']],
         x_common_names = [Some ''cn''] \<rparr>"]
  by (simp add: sample_x509_def uri_sans_def name_uris_def)

end
