(* ===== verification/Authorizer.thy ===== *)
theory Authorizer
  imports Policy Identity
begin

text \<open>
  Identity extraction and policy evaluation bound into one check, \<open>authz/authorizer.rs\<close>.
  A request is seen through its certificate chain.
\<close>

section \<open>The check\<close>

record authz_metrics =
  am_allowed_total :: u64
  am_denied_total :: u64
  am_unauthenticated_total :: u64

record authorizer =
  az_extractor :: identity_extractor
  az_policy :: policy
  az_metrics :: authz_metrics

definition authorizer_new :: "policy \<Rightarrow> authorizer" where
  "authorizer_new policy =
     \<lparr> az_extractor = extractor_new, az_policy = policy,
       az_metrics = \<lparr> am_allowed_total = 0, am_denied_total = 0, am_unauthenticated_total = 0 \<rparr> \<rparr>"

definition denial_message :: "string \<Rightarrow> string \<Rightarrow> operation \<Rightarrow> string" where
  "denial_message identity key_label operation =
     ''identity '' @ quote @ identity @ quote @ '' is not permitted to ''
       @ operation_as_str operation @ '' key '' @ quote @ key_label @ quote"

definition authorize ::
    "x509_parser \<Rightarrow> peer_certs \<Rightarrow> string \<Rightarrow> operation \<Rightarrow> authorizer
     \<Rightarrow> (string, status) result \<times> authorizer" where
  "authorize from_der certs key_label operation az =
     (case identify from_der certs (az_extractor az) of
        (Err e, ie) \<Rightarrow>
          (Err e, az\<lparr>az_extractor := ie,
             az_metrics := (az_metrics az)\<lparr>am_unauthenticated_total :=
               am_unauthenticated_total (az_metrics az) + 1\<rparr>\<rparr>)
      | (Ok identity, ie) \<Rightarrow>
          if is_allowed (az_policy az) identity key_label operation
          then (Ok identity, az\<lparr>az_extractor := ie,
             az_metrics := (az_metrics az)\<lparr>am_allowed_total := am_allowed_total (az_metrics az) + 1\<rparr>\<rparr>)
          else (Err (status_new PermissionDenied (denial_message identity key_label operation)),
                az\<lparr>az_extractor := ie,
                   az_metrics := (az_metrics az)\<lparr>am_denied_total := am_denied_total (az_metrics az) + 1\<rparr>\<rparr>))"

section \<open>Its specification\<close>

definition authorizer_inv :: "x509_parser \<Rightarrow> policy \<Rightarrow> authorizer \<Rightarrow> bool" where
  "authorizer_inv from_der policy az \<longleftrightarrow>
     extractor_coherent from_der (az_extractor az) \<and> az_policy az = policy"

text \<open>The decision without memo, counters or state.\<close>

definition authorize_spec ::
    "x509_parser \<Rightarrow> policy \<Rightarrow> peer_certs \<times> string \<times> operation \<Rightarrow> (string, status) result" where
  "authorize_spec from_der policy = (\<lambda>(certs, key_label, operation).
     and_then (identity_source from_der certs)
       (\<lambda>identity. if is_allowed policy identity key_label operation then Ok identity
          else Err (status_new PermissionDenied (denial_message identity key_label operation))))"

definition authorize_request ::
    "x509_parser \<Rightarrow> peer_certs \<times> string \<times> operation \<Rightarrow> authorizer \<Rightarrow> (string, status) result \<times> authorizer" where
  "authorize_request from_der = (\<lambda>(certs, key_label, operation). authorize from_der certs key_label operation)"

text \<open>The authorizer is itself a memoised lookup in front of the stateless decision.\<close>

interpretation decisions: memo_table
    "authorize_request from_der" "authorize_spec from_der policy" "authorizer_inv from_der policy"
    for from_der policy
proof unfold_locales
  fix az and q :: "peer_certs \<times> string \<times> operation"
  assume inv: "authorizer_inv from_der policy az"
  obtain certs key op where q: "q = (certs, key, op)" by (cases q)
  obtain r ie where id: "identify from_der certs (az_extractor az) = (r, ie)" by fastforce
  from inv have coherent: "extractor_coherent from_der (az_extractor az)"
    and policy: "az_policy az = policy" by (simp_all add: authorizer_inv_def)
  have src: "identity_source from_der certs = r" and ie: "extractor_coherent from_der ie"
    using identities.fetch_source [OF coherent, of certs]
      identities.fetch_coherent [OF coherent, of certs] by (simp_all add: id)
  show "fst (authorize_request from_der q az) = authorize_spec from_der policy q"
    by (cases r) (simp_all add: q authorize_request_def authorize_def authorize_spec_def id src policy)
  show "authorizer_inv from_der policy (snd (authorize_request from_der q az))"
    by (cases r) (simp_all add: q authorize_request_def authorize_def authorizer_inv_def id ie policy)
qed

lemma authorizer_inv_new: "authorizer_inv from_der policy (authorizer_new policy)"
  by (simp add: authorizer_inv_def authorizer_new_def extractor_coherent_new)

lemma authorize_policy [simp]: "az_policy (snd (authorize from_der certs key op az)) = az_policy az"
  by (simp add: authorize_def split: prod.splits result.splits)

lemma authorize_decision:
  "authorizer_inv from_der policy az \<Longrightarrow>
     fst (authorize from_der certs key op az) = authorize_spec from_der policy (certs, key, op)"
  using decisions.fetch_source [of from_der policy az "(certs, key, op)"]
  by (simp add: authorize_request_def)

lemma authorize_inv:
  "authorizer_inv from_der policy az \<Longrightarrow>
     authorizer_inv from_der policy (snd (authorize from_der certs key op az))"
  using decisions.fetch_coherent [of from_der policy az "(certs, key, op)"]
  by (simp add: authorize_request_def)

section \<open>Histories of requests\<close>

fun authorizer_after ::
    "x509_parser \<Rightarrow> (peer_certs \<times> string \<times> operation) list \<Rightarrow> authorizer \<Rightarrow> authorizer" where
  "authorizer_after from_der [] az = az"
| "authorizer_after from_der ((certs, key, op) # reqs) az =
     authorizer_after from_der reqs (snd (authorize from_der certs key op az))"

lemma authorizer_after_inv:
  "authorizer_inv from_der policy az \<Longrightarrow> authorizer_inv from_der policy (authorizer_after from_der reqs az)"
  by (induction reqs arbitrary: az) (auto simp: authorize_inv)

lemma identity_source_Ok_iff:
  "identity_source from_der certs = Ok identity \<longleftrightarrow>
     (\<exists>leaf chain. certs = Some (leaf # chain) \<and> parse_identity from_der leaf = Ok identity)"
  by (auto simp: identity_source_def and_then_Ok_iff leaf_certificate_def split: option.splits list.splits)

lemma identity_source_Err: "identity_source from_der certs = Err e \<Longrightarrow> st_code e = Unauthenticated"
  by (auto simp: identity_source_def leaf_certificate_def parse_identity_def
      split: option.splits list.splits)

lemma authorize_spec_Ok_iff:
  "authorize_spec from_der policy (certs, key, op) = Ok identity \<longleftrightarrow>
     identity_source from_der certs = Ok identity \<and> is_allowed policy identity key op"
  by (auto simp: authorize_spec_def and_then_Ok_iff)

text \<open>
  C3. Authorization is sound and complete, and has no memory: whatever was asked before, a
  request is let through as \<open>identity\<close> if and only if it came with a certificate chain whose
  leaf parses to \<open>identity\<close> and the policy allows that identity the operation on the key.
\<close>

theorem authorize_exact:
  "fst (authorize from_der certs key op (authorizer_after from_der earlier (authorizer_new policy)))
       = Ok identity
   \<longleftrightarrow> (\<exists>leaf chain. certs = Some (leaf # chain) \<and> parse_identity from_der leaf = Ok identity)
       \<and> is_allowed policy identity key op"
  using authorize_decision [OF authorizer_after_inv [OF authorizer_inv_new]]
  by (simp add: authorize_spec_Ok_iff identity_source_Ok_iff)

section \<open>Accounting\<close>

definition outcome_count ::
    "(('a, status) result \<Rightarrow> bool) \<Rightarrow> ('q \<Rightarrow> ('a, status) result) \<Rightarrow> 'q list \<Rightarrow> nat" where
  "outcome_count P spec reqs = length (filter (\<lambda>q. P (spec q)) reqs)"

definition failed_with :: "code \<Rightarrow> ('a, status) result \<Rightarrow> bool" where
  "failed_with c r = (case r of Ok _ \<Rightarrow> False | Err e \<Rightarrow> st_code e = c)"

lemma authorize_counts:
  fixes from_der policy certs key op
  assumes "authorizer_inv from_der policy az"
  defines "r \<equiv> authorize_spec from_der policy (certs, key, op)"
    and "m \<equiv> az_metrics az"
  shows "az_metrics (snd (authorize from_der certs key op az)) =
    \<lparr> am_allowed_total = am_allowed_total m + of_bool (is_ok r),
      am_denied_total = am_denied_total m + of_bool (failed_with PermissionDenied r),
      am_unauthenticated_total = am_unauthenticated_total m + of_bool (failed_with Unauthenticated r) \<rparr>"
proof -
  obtain s ie where id: "identify from_der certs (az_extractor az) = (s, ie)" by fastforce
  have src: "identity_source from_der certs = s"
    using identities.fetch_source [of from_der "az_extractor az" certs] assms(1)
    by (simp add: authorizer_inv_def id)
  have policy: "az_policy az = policy" using assms(1) by (simp add: authorizer_inv_def)
  show ?thesis
    using identity_source_Err [of from_der certs]
    by (cases s) (simp_all add: authorize_def authorize_spec_def id src policy r_def m_def failed_with_def)
qed

lemma authorizer_after_counts:
  fixes from_der policy
  assumes "authorizer_inv from_der policy az"
  defines "m \<equiv> az_metrics az" and "spec \<equiv> authorize_spec from_der policy"
  shows "az_metrics (authorizer_after from_der reqs az) =
    \<lparr> am_allowed_total = am_allowed_total m + of_nat (outcome_count is_ok spec reqs),
      am_denied_total = am_denied_total m + of_nat (outcome_count (failed_with PermissionDenied) spec reqs),
      am_unauthenticated_total =
        am_unauthenticated_total m + of_nat (outcome_count (failed_with Unauthenticated) spec reqs) \<rparr>"
  using assms(1) unfolding m_def
proof (induction reqs arbitrary: az)
  case (Cons q reqs)
  obtain certs key op where q: "q = (certs, key, op)" by (cases q)
  show ?case
    using Cons.IH [OF authorize_inv [OF Cons.prems, of certs key op]] authorize_counts [OF Cons.prems, of certs key op]
    by (simp add: q outcome_count_def spec_def algebra_simps)
qed (simp add: outcome_count_def)

lemma outcome_partition:
  "outcome_count is_ok (authorize_spec from_der policy) reqs
   + outcome_count (failed_with PermissionDenied) (authorize_spec from_der policy) reqs
   + outcome_count (failed_with Unauthenticated) (authorize_spec from_der policy) reqs = length reqs"
proof (induction reqs)
  case (Cons q reqs)
  obtain certs key op where q: "q = (certs, key, op)" by (cases q)
  have "(if is_ok r then 1 else 0) + (if failed_with PermissionDenied r then 1 else 0)
      + (if failed_with Unauthenticated r then 1 else 0) = (1 :: nat)"
    if "r = authorize_spec from_der policy q" for r
    using identity_source_Err [of from_der certs] that
    by (cases "identity_source from_der certs") (simp_all add: q authorize_spec_def failed_with_def)
  from this [OF refl] Cons.IH show ?case by (simp add: outcome_count_def split: if_splits)
qed (simp add: outcome_count_def)

text \<open>
  The three counters account for every request: after any history of fewer than $2^{64}$
  requests each counter is the number of requests that were let through, denied by the
  policy, or without an identity, and together they are the length of the history.
\<close>

theorem authorize_accounting:
  fixes from_der policy and reqs :: "(peer_certs \<times> string \<times> operation) list"
  assumes "length reqs < 2 ^ 64"
  defines "m \<equiv> az_metrics (authorizer_after from_der reqs (authorizer_new policy))"
    and "spec \<equiv> authorize_spec from_der policy"
  shows "unat (am_allowed_total m) = outcome_count is_ok spec reqs
    \<and> unat (am_denied_total m) = outcome_count (failed_with PermissionDenied) spec reqs
    \<and> unat (am_unauthenticated_total m) = outcome_count (failed_with Unauthenticated) spec reqs
    \<and> unat (am_allowed_total m) + unat (am_denied_total m) + unat (am_unauthenticated_total m)
        = length reqs"
proof -
  have "az_metrics (authorizer_new policy) =
      \<lparr> am_allowed_total = 0, am_denied_total = 0, am_unauthenticated_total = 0 \<rparr>"
    by (simp add: authorizer_new_def)
  then have m: "m = \<lparr> am_allowed_total = of_nat (outcome_count is_ok spec reqs),
      am_denied_total = of_nat (outcome_count (failed_with PermissionDenied) spec reqs),
      am_unauthenticated_total = of_nat (outcome_count (failed_with Unauthenticated) spec reqs) \<rparr>"
    using authorizer_after_counts [OF authorizer_inv_new, of from_der reqs policy]
    by (simp add: m_def spec_def)
  have part: "outcome_count is_ok spec reqs + outcome_count (failed_with PermissionDenied) spec reqs
      + outcome_count (failed_with Unauthenticated) spec reqs = length reqs"
    unfolding spec_def by (rule outcome_partition)
  then have "unat (of_nat n :: u64) = n" if "n \<le> length reqs" for n
    using that assms(1) by (simp add: unsigned_of_nat take_bit_nat_eq_self)
  with part show ?thesis by (simp add: m)
qed

theorem authorize_accounting_witness:
  "length [(None, ''k'', Sign), (Some [[48]], ''k'', Sign)] < (2 :: nat) ^ 64
   \<and> unat (am_unauthenticated_total (az_metrics
        (authorizer_after sample_x509 [(None, ''k'', Sign), (Some [[48]], ''k'', Sign)] (authorizer_new [])))) = 1"
  using authorize_accounting [of "[(None, ''k'', Sign), (Some [[48]], ''k'', Sign)]" sample_x509 "[]"]
  by (simp add: outcome_count_def failed_with_def authorize_spec_def identity_source_def
      leaf_certificate_def parse_identity_def sample_x509_def is_allowed_def)

end
