(* ===== verification/Rate_Limit.thy ===== *)
theory Rate_Limit
  imports Hsm_Prelude
begin

text \<open>
  Per-identity rate limiting, \<open>resilience/ratelimit.rs\<close>. The token bucket itself (crate
  \<open>governor\<close>) and the bounded concurrent map that holds the buckets (crate \<open>moka\<close>) are
  parameters. A bucket is shared by reference, so the map holds references and the buckets
  live in a store; what is assumed of the map is the predicate \<open>bucket_map_laws\<close>.
\<close>

section \<open>Configuration\<close>

record rate_limit_config =
  rc_per_second :: u32
  rc_burst :: u32
  rc_max_identities :: u64

definition rate_limit_default :: rate_limit_config where
  "rate_limit_default = \<lparr> rc_per_second = 20000, rc_burst = 2000, rc_max_identities = 4096 \<rparr>"

definition rate_limit_from_env :: "environ \<Rightarrow> rate_limit_config option" where
  "rate_limit_from_env env =
     (case env_parse parse_u32 env ''RATE_LIMIT_PER_SECOND'' of
        None \<Rightarrow> None
      | Some per_second \<Rightarrow>
          (let d = rate_limit_default in
           Some \<lparr> rc_per_second = per_second,
                  rc_burst = unwrap_or (rc_burst d) (env_parse parse_u32 env ''RATE_LIMIT_BURST''),
                  rc_max_identities = rc_max_identities d \<rparr>))"

record quota =
  q_per_second :: u32
  q_burst :: u32

section \<open>The limiter\<close>

text \<open>
  \<open>ld_get_with c k r\<close> is \<open>get_with_by_ref\<close>: the reference stored for \<open>k\<close>, or else \<open>r\<close>,
  the fresh bucket built by the initialiser, after storing it. \<open>ld_check\<close> is \<open>governor\<close>'s
  \<open>check\<close> at a clock reading.
\<close>

record ('c, 'g) limiter_deps =
  ld_build :: "u64 \<Rightarrow> 'c"
  ld_get_with :: "'c \<Rightarrow> string \<Rightarrow> nat \<Rightarrow> nat \<times> 'c"
  ld_direct :: "quota \<Rightarrow> instant \<Rightarrow> 'g"
  ld_check :: "instant \<Rightarrow> 'g \<Rightarrow> bool \<times> 'g"

record ('c, 'g) rate_limiter =
  rl_buckets :: 'c
  rl_store :: "nat \<Rightarrow> 'g option"
  rl_next :: nat
  rl_quota :: quota
  rl_allowed :: u64
  rl_rejected :: u64

definition rate_limiter_new :: "('c, 'g) limiter_deps \<Rightarrow> rate_limit_config \<Rightarrow> ('c, 'g) rate_limiter" where
  "rate_limiter_new deps config =
     \<lparr> rl_buckets = ld_build deps (rc_max_identities config), rl_store = Map.empty, rl_next = 0,
       rl_quota = \<lparr> q_per_second = max (rc_per_second config) 1, q_burst = max (rc_burst config) 1 \<rparr>,
       rl_allowed = 0, rl_rejected = 0 \<rparr>"

text \<open>Looking a bucket up; \<open>now\<close> is the reading at which a fresh bucket starts.\<close>

definition bucket_of ::
    "('c, 'g) limiter_deps \<Rightarrow> instant \<Rightarrow> string \<Rightarrow> ('c, 'g) rate_limiter
     \<Rightarrow> nat \<times> ('c, 'g) rate_limiter" where
  "bucket_of deps now identity rl =
     (let (r, c) = ld_get_with deps (rl_buckets rl) identity (rl_next rl) in
      if r = rl_next rl
      then (r, rl\<lparr>rl_buckets := c, rl_next := Suc r,
                  rl_store := (rl_store rl)(r \<mapsto> ld_direct deps (rl_quota rl) now)\<rparr>)
      else (r, rl\<lparr>rl_buckets := c\<rparr>))"

text \<open>
  \<open>check\<close>: look the bucket up, take one token, count the answer. The reference comes from
  the map, so its bucket is in the store; the other branch is unreachable.
\<close>

definition rate_check ::
    "('c, 'g) limiter_deps \<Rightarrow> instant \<Rightarrow> string \<Rightarrow> ('c, 'g) rate_limiter
     \<Rightarrow> bool \<times> ('c, 'g) rate_limiter" where
  "rate_check deps now identity rl =
     (let (r, rl1) = bucket_of deps now identity rl in
      case rl_store rl1 r of
        None \<Rightarrow> (False, rl1)
      | Some g \<Rightarrow>
          (let (ok, g') = ld_check deps now g; rl2 = rl1\<lparr>rl_store := (rl_store rl1)(r \<mapsto> g')\<rparr> in
           if ok then (True, rl2\<lparr>rl_allowed := rl_allowed rl2 + 1\<rparr>)
           else (False, rl2\<lparr>rl_rejected := rl_rejected rl2 + 1\<rparr>)))"

section \<open>What is assumed of the bucket map\<close>

text \<open>
  \<open>held c k\<close> is the reference the map currently holds for \<open>k\<close>. A hit returns it
  and a miss returns the fresh one; either may evict entries, the one asked for included, but never rebinds one.
\<close>

definition bucket_map_laws ::
    "('c, 'g) limiter_deps \<Rightarrow> ('c \<Rightarrow> string \<Rightarrow> nat option) \<Rightarrow> bool" where
  "bucket_map_laws deps held \<longleftrightarrow>
     (\<forall>cap k. held (ld_build deps cap) k = None)
     \<and> (\<forall>c k f r. held c k = Some r \<longrightarrow>
          fst (ld_get_with deps c k f) = r
          \<and> (\<forall>k'. held (snd (ld_get_with deps c k f)) k' \<in> {None, held c k'}))
     \<and> (\<forall>c k f. held c k = None \<longrightarrow>
          fst (ld_get_with deps c k f) = f
          \<and> (\<forall>k'. held (snd (ld_get_with deps c k f)) k' \<in> {None, ((held c)(k \<mapsto> f)) k'}))"

lemma bucket_map_hit:
  "bucket_map_laws deps held \<Longrightarrow> held c k = Some r \<Longrightarrow>
     fst (ld_get_with deps c k f) = r \<and> held (snd (ld_get_with deps c k f)) k' \<in> {None, held c k'}"
  by (simp add: bucket_map_laws_def)

lemma bucket_map_miss:
  "bucket_map_laws deps held \<Longrightarrow> held c k = None \<Longrightarrow>
     fst (ld_get_with deps c k f) = f
     \<and> held (snd (ld_get_with deps c k f)) k' \<in> {None, ((held c)(k \<mapsto> f)) k'}"
  by (simp add: bucket_map_laws_def)

section \<open>Every bucket belongs to one identity\<close>

text \<open>References are allocated in order, name a stored bucket, and are not shared.\<close>

definition limiter_inv ::
    "('c \<Rightarrow> string \<Rightarrow> nat option) \<Rightarrow> ('c, 'g) rate_limiter \<Rightarrow> bool" where
  "limiter_inv held rl \<longleftrightarrow>
     (\<forall>k r. held (rl_buckets rl) k = Some r \<longrightarrow> r < rl_next rl)
     \<and> (\<forall>r. r < rl_next rl \<longrightarrow> rl_store rl r \<noteq> None)
     \<and> (\<forall>k k' r. held (rl_buckets rl) k = Some r \<longrightarrow> held (rl_buckets rl) k' = Some r \<longrightarrow> k = k')"

lemma limiter_inv_new:
  "bucket_map_laws deps held \<Longrightarrow> limiter_inv held (rate_limiter_new deps config)"
  by (simp add: limiter_inv_def rate_limiter_new_def bucket_map_laws_def)

lemma bucket_of_hit:
  assumes "bucket_map_laws deps held" and "limiter_inv held rl"
    and "held (rl_buckets rl) k = Some r"
  shows "\<exists>c. bucket_of deps now k rl = (r, rl\<lparr>rl_buckets := c\<rparr>)
    \<and> (\<forall>k'. held c k' \<in> {None, held (rl_buckets rl) k'})"
proof -
  have "r < rl_next rl" using assms(2,3) by (auto simp: limiter_inv_def)
  then show ?thesis
    using bucket_map_hit [OF assms(1,3), of "rl_next rl"]
    by (intro exI [where x = "snd (ld_get_with deps (rl_buckets rl) k (rl_next rl))"])
       (auto simp: bucket_of_def case_prod_beta Let_def)
qed

lemma bucket_of_miss:
  assumes "bucket_map_laws deps held" and "held (rl_buckets rl) k = None"
  shows "\<exists>c. bucket_of deps now k rl =
        (rl_next rl, rl\<lparr>rl_buckets := c, rl_next := Suc (rl_next rl),
           rl_store := (rl_store rl)(rl_next rl \<mapsto> ld_direct deps (rl_quota rl) now)\<rparr>)
      \<and> (\<forall>k'. held c k' \<in> {None, ((held (rl_buckets rl))(k \<mapsto> rl_next rl)) k'})"
  using bucket_map_miss [OF assms, of "rl_next rl"]
  by (intro exI [where x = "snd (ld_get_with deps (rl_buckets rl) k (rl_next rl))"])
     (simp add: bucket_of_def case_prod_beta Let_def)

lemma limiter_inv_bucket_of:
  assumes "bucket_map_laws deps held" and "limiter_inv held rl"
  shows "limiter_inv held (snd (bucket_of deps now k rl))
     \<and> rl_store (snd (bucket_of deps now k rl)) (fst (bucket_of deps now k rl)) \<noteq> None"
proof (cases "held (rl_buckets rl) k")
  case None
  from bucket_of_miss [OF assms(1) this] obtain c where
    eq: "bucket_of deps now k rl =
        (rl_next rl, rl\<lparr>rl_buckets := c, rl_next := Suc (rl_next rl),
           rl_store := (rl_store rl)(rl_next rl \<mapsto> ld_direct deps (rl_quota rl) now)\<rparr>)"
    and c: "\<And>k'. held c k' \<in> {None, ((held (rl_buckets rl))(k \<mapsto> rl_next rl)) k'}"
    by blast
  have old: "k' = k \<and> r = rl_next rl \<or> held (rl_buckets rl) k' = Some r \<and> r < rl_next rl"
    if "held c k' = Some r" for k' r
    using c [of k'] that assms(2) by (cases "k' = k") (auto simp: limiter_inv_def)
  have "\<forall>k r. held c k = Some r \<longrightarrow> r < Suc (rl_next rl)"
    using old by fastforce
  moreover have "\<forall>k1 k2 r. held c k1 = Some r \<longrightarrow> held c k2 = Some r \<longrightarrow> k1 = k2"
    using old assms(2) unfolding limiter_inv_def by (metis less_irrefl)
  ultimately show ?thesis
    using assms(2) by (auto simp: eq limiter_inv_def less_Suc_eq)
next
  case (Some r)
  from bucket_of_hit [OF assms Some, of now] obtain c where
    eq: "bucket_of deps now k rl = (r, rl\<lparr>rl_buckets := c\<rparr>)"
    and c: "\<And>k'. held c k' \<in> {None, held (rl_buckets rl) k'}"
    by blast
  have "held (rl_buckets rl) k' = Some q" if "held c k' = Some q" for k' q
    using c [of k'] that by auto
  then show ?thesis
    using assms(2) Some unfolding limiter_inv_def eq by simp metis
qed

lemma limiter_inv_check:
  assumes "bucket_map_laws deps held" and "limiter_inv held rl"
  shows "limiter_inv held (snd (rate_check deps now k rl))"
  using limiter_inv_bucket_of [OF assms, of now k]
  by (auto simp: rate_check_def limiter_inv_def case_prod_beta Let_def split: option.splits)


section \<open>Counting\<close>

lemma rate_check_counts:
  assumes "bucket_map_laws deps held" and "limiter_inv held rl"
  shows "rl_allowed (snd (rate_check deps now k rl))
           = rl_allowed rl + (if fst (rate_check deps now k rl) then 1 else 0)
       \<and> rl_rejected (snd (rate_check deps now k rl))
           = rl_rejected rl + (if fst (rate_check deps now k rl) then 0 else 1)"
proof -
  have "rl_allowed (snd (bucket_of deps now k rl)) = rl_allowed rl"
       "rl_rejected (snd (bucket_of deps now k rl)) = rl_rejected rl"
    by (simp_all add: bucket_of_def case_prod_beta Let_def)
  then show ?thesis
    using limiter_inv_bucket_of [OF assms, of now k]
    by (auto simp: rate_check_def case_prod_beta Let_def split: option.splits)
qed

section \<open>Isolation\<close>

lemma rate_check_hit:
  assumes "bucket_map_laws deps held" and "limiter_inv held rl"
    and "held (rl_buckets rl) k = Some r"
  shows "fst (rate_check deps now k rl) = fst (ld_check deps now (the (rl_store rl r)))"
proof -
  have "rl_store rl r \<noteq> None" using assms(2,3) by (auto simp: limiter_inv_def)
  then show ?thesis
    using bucket_of_hit [OF assms, of now]
    by (auto simp: rate_check_def case_prod_beta Let_def split: option.splits)
qed

text \<open>A check touches one bucket only, the one its identity is bound to.\<close>

lemma rate_check_other_bucket:
  assumes "bucket_map_laws deps held" and "limiter_inv held rl"
    and "held (rl_buckets rl) b = Some r" and "a \<noteq> b"
  shows "rl_store (snd (rate_check deps now a rl)) r = rl_store rl r"
proof -
  have r: "r < rl_next rl" using assms(2,3) by (auto simp: limiter_inv_def)
  have ra: "fst (bucket_of deps now a rl) \<noteq> r
      \<and> rl_store (snd (bucket_of deps now a rl)) r = rl_store rl r"
  proof (cases "held (rl_buckets rl) a")
    case None
    then show ?thesis using bucket_of_miss [OF assms(1) None, of now] r by auto
  next
    case (Some q)
    then have "q \<noteq> r" using assms(2-4) by (auto simp: limiter_inv_def)
    then show ?thesis using bucket_of_hit [OF assms(1,2) Some, of now] by auto
  qed
  then show ?thesis
    by (auto simp: rate_check_def case_prod_beta Let_def split: option.splits)
qed

lemma rate_check_quota [simp]: "rl_quota (snd (rate_check deps now a rl)) = rl_quota rl"
  by (simp add: rate_check_def bucket_of_def case_prod_beta Let_def split: option.splits)

fun rate_checks ::
    "('c, 'g) limiter_deps \<Rightarrow> (instant \<times> string) list \<Rightarrow> ('c, 'g) rate_limiter
     \<Rightarrow> ('c, 'g) rate_limiter" where
  "rate_checks deps [] rl = rl"
| "rate_checks deps ((now, k) # cs) rl = rate_checks deps cs (snd (rate_check deps now k rl))"

text \<open>No eviction of \<open>b\<close> happens during the calls of the others.\<close>

fun keeps_bucket ::
    "('c, 'g) limiter_deps \<Rightarrow> ('c \<Rightarrow> string \<Rightarrow> nat option) \<Rightarrow> string
     \<Rightarrow> (instant \<times> string) list \<Rightarrow> ('c, 'g) rate_limiter \<Rightarrow> bool" where
  "keeps_bucket deps held b [] rl \<longleftrightarrow> held (rl_buckets rl) b \<noteq> None"
| "keeps_bucket deps held b ((now, k) # cs) rl \<longleftrightarrow>
     held (rl_buckets rl) b \<noteq> None \<and> keeps_bucket deps held b cs (snd (rate_check deps now k rl))"

lemma rate_check_binding:
  assumes "bucket_map_laws deps held" and "limiter_inv held rl"
    and "held (rl_buckets rl) b = Some r"
    and "held (rl_buckets (snd (rate_check deps now a rl))) b \<noteq> None" and "a \<noteq> b"
  shows "held (rl_buckets (snd (rate_check deps now a rl))) b = Some r"
proof -
  have eq: "rl_buckets (snd (rate_check deps now a rl)) = rl_buckets (snd (bucket_of deps now a rl))"
    by (simp add: rate_check_def case_prod_beta Let_def split: option.splits)
  show ?thesis
  proof (cases "held (rl_buckets rl) a")
    case None
    from bucket_of_miss [OF assms(1) None, of now] obtain c where
      "rl_buckets (snd (bucket_of deps now a rl)) = c"
      and c: "\<forall>k'. held c k' \<in> {None, ((held (rl_buckets rl))(a \<mapsto> rl_next rl)) k'}"
      by auto
    then show ?thesis using assms(3-5) c [rule_format, of b] by (auto simp: eq)
  next
    case (Some q)
    from bucket_of_hit [OF assms(1,2) this, of now] obtain c where
      "rl_buckets (snd (bucket_of deps now a rl)) = c" and "held c b \<in> {None, held (rl_buckets rl) b}"
      by auto
    then show ?thesis using assms(3,4) by (auto simp: eq)
  qed
qed

lemma rate_checks_isolated:
  assumes "bucket_map_laws deps held" and "limiter_inv held rl"
    and "keeps_bucket deps held b calls rl" and "b \<notin> snd ` set calls"
    and "held (rl_buckets rl) b = Some r"
  shows "limiter_inv held (rate_checks deps calls rl)
       \<and> held (rl_buckets (rate_checks deps calls rl)) b = Some r
       \<and> rl_store (rate_checks deps calls rl) r = rl_store rl r"
  using assms(2-5)
proof (induction calls arbitrary: rl)
  case (Cons call calls)
  obtain t a where call: "call = (t, a)" by (cases call)
  let ?rl = "snd (rate_check deps t a rl)"
  have keep: "keeps_bucket deps held b calls ?rl" and ab: "a \<noteq> b" "b \<notin> snd ` set calls"
    using Cons.prems by (auto simp: call)
  then have "held (rl_buckets ?rl) b \<noteq> None" by (cases calls) auto
  with rate_check_binding [OF assms(1) Cons.prems(1,4) this] ab
  have "held (rl_buckets ?rl) b = Some r" by blast
  then show ?case
    using Cons.IH [of ?rl] keep ab limiter_inv_check [OF assms(1) Cons.prems(1)]
      rate_check_other_bucket [OF assms(1) Cons.prems(1,4)] by (simp add: call)
qed simp

text \<open>
  C24. Callers are isolated: whatever other identities do, and however many of their requests
  are made, the answer an identity gets from the limiter is the one it would have got without
  them, as long as the map does not evict its bucket.
\<close>

theorem rate_limit_isolated:
  assumes "bucket_map_laws deps held" and "limiter_inv held rl"
    and "keeps_bucket deps held b calls rl" and "b \<notin> snd ` set calls"
  shows "fst (rate_check deps now b (rate_checks deps calls rl)) = fst (rate_check deps now b rl)"
proof -
  obtain r where r: "held (rl_buckets rl) b = Some r" using assms(3) by (cases calls) auto
  note iso = rate_checks_isolated [OF assms r]
  show ?thesis
    using rate_check_hit [OF assms(1), of "rate_checks deps calls rl" b r now] iso
      rate_check_hit [OF assms(1,2) r, of now] by simp
qed

section \<open>A concrete limiter\<close>

text \<open>A counting bucket without refill over a map that never evicts.\<close>

definition plain_deps :: "((string \<Rightarrow> nat option), nat) limiter_deps" where
  "plain_deps =
     \<lparr> ld_build = (\<lambda>_. Map.empty),
       ld_get_with = (\<lambda>c k f. case c k of Some r \<Rightarrow> (r, c) | None \<Rightarrow> (f, c(k \<mapsto> f))),
       ld_direct = (\<lambda>q _. unat (q_burst q)),
       ld_check = (\<lambda>_ g. (0 < g, g - 1)) \<rparr>"

lemma plain_deps_laws: "bucket_map_laws plain_deps (\<lambda>c. c)"
  by (simp add: bucket_map_laws_def plain_deps_def)

definition plain_limiter :: "((string \<Rightarrow> nat option), nat) rate_limiter" where
  "plain_limiter =
     rate_checks plain_deps [(5, ''alice'')]
       (rate_limiter_new plain_deps \<lparr> rc_per_second = 7, rc_burst = 2, rc_max_identities = 8 \<rparr>)"

lemma plain_limiter_inv: "limiter_inv (\<lambda>c. c) plain_limiter"
  unfolding plain_limiter_def
  by (simp add: limiter_inv_check limiter_inv_new plain_deps_laws)

theorem rate_limit_isolated_witness:
  "fst (rate_check plain_deps 9 ''alice''
          (rate_checks plain_deps [(6, ''bob''), (6, ''bob''), (7, ''bob'')] plain_limiter)) = True"
proof -
  have keep: "keeps_bucket plain_deps (\<lambda>c. c) ''alice'' [(6, ''bob''), (6, ''bob''), (7, ''bob'')] plain_limiter"
    by (simp add: plain_limiter_def plain_deps_def rate_limiter_new_def rate_check_def bucket_of_def)
  have "fst (rate_check plain_deps 9 ''alice'' plain_limiter) = True"
    by (simp add: plain_limiter_def plain_deps_def rate_limiter_new_def rate_check_def bucket_of_def)
  then show ?thesis
    using rate_limit_isolated [OF plain_deps_laws plain_limiter_inv keep, of 9] by simp
qed

end
