(* ===== verification/Breaker.thy ===== *)
theory Breaker
  imports F64
begin

text \<open>
  The circuit breaker of \<open>resilience/breaker.rs\<close>: its configuration, the counting window, the
  state byte, and the operations \<open>allow\<close>, \<open>record_success\<close> and \<open>record_failure\<close>. Every
  reading of the clock is an argument. The state byte is loaded outside the lock in
  \<open>allow\<close>, so the concurrent behaviour is a step relation in which that load and the locked
  section are two steps.
\<close>

section \<open>State and configuration\<close>

datatype breaker_state = Closed | Open | HalfOpen

fun state_as_u8 :: "breaker_state \<Rightarrow> u8" where
  "state_as_u8 Closed = 0"
| "state_as_u8 Open = 1"
| "state_as_u8 HalfOpen = 2"

definition state_from_u8 :: "u8 \<Rightarrow> breaker_state" where
  "state_from_u8 v = (if v = 1 then Open else if v = 2 then HalfOpen else Closed)"

fun state_as_str :: "breaker_state \<Rightarrow> string" where
  "state_as_str Closed = ''closed''"
| "state_as_str Open = ''open''"
| "state_as_str HalfOpen = ''half_open''"

record breaker_config =
  bc_failure_ratio :: f64
  bc_minimum_requests :: u64
  bc_window :: duration
  bc_cooldown :: duration
  bc_probe_successes :: u32

definition breaker_config_default :: breaker_config where
  "breaker_config_default =
     \<lparr> bc_failure_ratio = Fin (1 / 2), bc_minimum_requests = 20,
       bc_window = from_secs 10, bc_cooldown = from_secs 5, bc_probe_successes = 3 \<rparr>"

definition breaker_config_from_env :: "environ \<Rightarrow> breaker_config" where
  "breaker_config_from_env env =
     (let d = breaker_config_default in
      \<lparr> bc_failure_ratio =
          unwrap_or (bc_failure_ratio d) (env_parse parse_f64 env ''BREAKER_FAILURE_RATIO''),
        bc_minimum_requests =
          unwrap_or (bc_minimum_requests d) (env_parse parse_u64 env ''BREAKER_MIN_REQUESTS''),
        bc_window =
          unwrap_or (bc_window d)
            (map_option from_secs (env_parse parse_u64 env ''BREAKER_WINDOW_SECS'')),
        bc_cooldown =
          unwrap_or (bc_cooldown d)
            (map_option from_secs (env_parse parse_u64 env ''BREAKER_COOLDOWN_SECS'')),
        bc_probe_successes =
          unwrap_or (bc_probe_successes d)
            (env_parse parse_u32 env ''BREAKER_PROBE_SUCCESSES'') \<rparr>)"

record window =
  w_started :: instant
  w_successes :: u64
  w_failures :: u64
  w_opened_at :: "instant option"
  w_probe_successes :: u32

record circuit_breaker =
  cb_config :: breaker_config
  cb_state :: u8
  cb_window :: window
  cb_trips :: u64
  cb_rejected :: u64

definition breaker_new :: "breaker_config \<Rightarrow> instant \<Rightarrow> circuit_breaker" where
  "breaker_new config now =
     \<lparr> cb_config = config, cb_state = state_as_u8 Closed,
       cb_window = \<lparr> w_started = now, w_successes = 0, w_failures = 0,
                     w_opened_at = None, w_probe_successes = 0 \<rparr>,
       cb_trips = 0, cb_rejected = 0 \<rparr>"

definition breaker_state :: "circuit_breaker \<Rightarrow> breaker_state" where
  "breaker_state b = state_from_u8 (cb_state b)"

section \<open>Operations\<close>

text \<open>
  The branch of \<open>allow\<close> that takes the lock; \<open>now\<close> is the reading made by \<open>elapsed\<close>. A
  poisoned lock is entered all the same, so poisoning has no effect and no place in the
  model.
\<close>

definition allow_locked :: "instant \<Rightarrow> circuit_breaker \<Rightarrow> bool \<times> circuit_breaker" where
  "allow_locked now b =
     (case w_opened_at (cb_window b) of
        Some t \<Rightarrow>
          if elapsed now t \<ge> bc_cooldown (cb_config b) then
            (True, b\<lparr>cb_window := (cb_window b)\<lparr>w_probe_successes := 0\<rparr>,
                     cb_state := state_as_u8 HalfOpen\<rparr>)
          else (False, b\<lparr>cb_rejected := cb_rejected b + 1\<rparr>)
      | None \<Rightarrow> (False, b\<lparr>cb_rejected := cb_rejected b + 1\<rparr>))"

definition allow :: "instant \<Rightarrow> circuit_breaker \<Rightarrow> bool \<times> circuit_breaker" where
  "allow now b =
     (case breaker_state b of
        Closed \<Rightarrow> (True, b)
      | HalfOpen \<Rightarrow> (True, b)
      | Open \<Rightarrow> allow_locked now b)"

definition reset_window :: "instant \<Rightarrow> window \<Rightarrow> window" where
  "reset_window now w = w\<lparr>w_started := now, w_successes := 0, w_failures := 0\<rparr>"

text \<open>\<open>t1\<close> is the reading of \<open>started.elapsed()\<close>, \<open>t2\<close> the one stored by the reset.\<close>

definition roll_if_stale :: "breaker_config \<Rightarrow> instant \<Rightarrow> instant \<Rightarrow> window \<Rightarrow> window" where
  "roll_if_stale config t1 t2 w =
     (if elapsed t1 (w_started w) \<ge> bc_window config then reset_window t2 w else w)"

definition record_success :: "instant \<Rightarrow> instant \<Rightarrow> circuit_breaker \<Rightarrow> circuit_breaker" where
  "record_success t1 t2 b =
     (case breaker_state b of
        HalfOpen \<Rightarrow>
          (let w = (cb_window b)\<lparr>w_probe_successes := w_probe_successes (cb_window b) + 1\<rparr> in
           if w_probe_successes w \<ge> bc_probe_successes (cb_config b)
           then b\<lparr>cb_window := reset_window t2 w, cb_state := state_as_u8 Closed\<rparr>
           else b\<lparr>cb_window := w\<rparr>)
      | _ \<Rightarrow>
          (let w = roll_if_stale (cb_config b) t1 t2 (cb_window b) in
           b\<lparr>cb_window := w\<lparr>w_successes := w_successes w + 1\<rparr>\<rparr>))"

text \<open>The failure ratio of a window, as the code computes it.\<close>

definition window_ratio :: "window \<Rightarrow> f64" where
  "window_ratio w =
     f64_div (u64_as_f64 (w_failures w)) (u64_as_f64 (w_successes w + w_failures w))"

text \<open>\<open>t3\<close> is the reading stored in \<open>opened_at\<close>.\<close>

definition record_failure ::
    "instant \<Rightarrow> instant \<Rightarrow> instant \<Rightarrow> circuit_breaker \<Rightarrow> circuit_breaker" where
  "record_failure t1 t2 t3 b =
     (if breaker_state b = HalfOpen then
        b\<lparr>cb_window := (cb_window b)\<lparr>w_opened_at := Some t3, w_probe_successes := 0\<rparr>,
          cb_state := state_as_u8 Open\<rparr>
      else
        (let w0 = roll_if_stale (cb_config b) t1 t2 (cb_window b);
             w = w0\<lparr>w_failures := w_failures w0 + 1\<rparr>;
             total = w_successes w + w_failures w
         in if total \<ge> bc_minimum_requests (cb_config b)
               \<and> f64_ge (window_ratio w) (bc_failure_ratio (cb_config b))
            then b\<lparr>cb_window := w\<lparr>w_opened_at := Some t3\<rparr>,
                   cb_state := state_as_u8 Open, cb_trips := cb_trips b + 1\<rparr>
            else b\<lparr>cb_window := w\<rparr>))"

section \<open>Effect of the operations on the state\<close>

lemma state_u8_roundtrip [simp]: "state_from_u8 (state_as_u8 s) = s"
  by (cases s) (simp_all add: state_from_u8_def)

lemma state_as_u8_bound [simp]: "state_as_u8 s \<le> 2"
  by (cases s) simp_all

lemma state_byte_cases: "v \<le> 2 \<Longrightarrow> v \<in> {0, 1, 2}" for v :: u8
proof -
  assume "v \<le> 2"
  then have "unat v \<le> 2" by (simp add: word_le_nat_alt)
  then consider "unat v = 0" | "unat v = 1" | "unat v = 2" by linarith
  then show ?thesis by cases (simp_all add: word_unat_eq_iff)
qed

lemma state_from_u8_codes [simp]:
  "state_from_u8 0 = Closed" "state_from_u8 1 = Open" "state_from_u8 2 = HalfOpen"
  by (simp_all add: state_from_u8_def)

lemma breaker_state_set [simp]: "breaker_state (b\<lparr>cb_state := v\<rparr>) = state_from_u8 v"
  by (simp add: breaker_state_def)

lemma breaker_state_frame [simp]:
  "breaker_state (b\<lparr>cb_window := w\<rparr>) = breaker_state b"
  "breaker_state (b\<lparr>cb_trips := k\<rparr>) = breaker_state b"
  "breaker_state (b\<lparr>cb_rejected := k\<rparr>) = breaker_state b"
  "breaker_state (b\<lparr>cb_config := c\<rparr>) = breaker_state b"
  by (simp_all add: breaker_state_def)

lemma breaker_new_state [simp]: "breaker_state (breaker_new config now) = Closed"
  by (simp add: breaker_new_def breaker_state_def)

lemma config_frame [simp]:
  "cb_config (snd (allow now b)) = cb_config b"
  "cb_config (snd (allow_locked now b)) = cb_config b"
  "cb_config (record_success t1 t2 b) = cb_config b"
  "cb_config (record_failure t1 t2 t3 b) = cb_config b"
  by (simp_all add: allow_def allow_locked_def record_success_def record_failure_def Let_def
      split: breaker_state.split option.split)

lemma roll_if_stale_frame [simp]:
  "w_opened_at (roll_if_stale c t1 t2 w) = w_opened_at w"
  "w_probe_successes (roll_if_stale c t1 t2 w) = w_probe_successes w"
  "w_opened_at (reset_window t w) = w_opened_at w"
  "w_probe_successes (reset_window t w) = w_probe_successes w"
  "w_successes (reset_window t w) = 0"
  "w_failures (reset_window t w) = 0"
  "w_started (reset_window t w) = t"
  by (simp_all add: roll_if_stale_def reset_window_def)

text \<open>A closed or half-open circuit lets the caller pass without touching anything.\<close>

lemma allow_not_open [simp]: "breaker_state b \<noteq> Open \<Longrightarrow> allow now b = (True, b)"
  by (cases "breaker_state b") (simp_all add: allow_def)

lemma allow_open:
  assumes "breaker_state b = Open" and "w_opened_at (cb_window b) = Some t"
  shows "t + bc_cooldown (cb_config b) \<le> now \<Longrightarrow>
           fst (allow now b) \<and> breaker_state (snd (allow now b)) = HalfOpen
           \<and> w_probe_successes (cb_window (snd (allow now b))) = 0"
    and "now < t + bc_cooldown (cb_config b) \<Longrightarrow> 0 < bc_cooldown (cb_config b) \<Longrightarrow>
           allow now b = (False, b\<lparr>cb_rejected := cb_rejected b + 1\<rparr>)"
  using assms by (auto simp: allow_def allow_locked_def elapsed_def)

lemma success_not_half_open_state:
  "breaker_state b \<noteq> HalfOpen \<Longrightarrow> breaker_state (record_success t1 t2 b) = breaker_state b"
  by (cases "breaker_state b") (simp_all add: record_success_def Let_def)

lemma success_half_open:
  assumes "breaker_state b = HalfOpen"
  shows "bc_probe_successes (cb_config b) \<le> w_probe_successes (cb_window b) + 1 \<Longrightarrow>
           breaker_state (record_success t1 t2 b) = Closed
           \<and> w_successes (cb_window (record_success t1 t2 b)) = 0
           \<and> w_failures (cb_window (record_success t1 t2 b)) = 0"
    and "w_probe_successes (cb_window b) + 1 < bc_probe_successes (cb_config b) \<Longrightarrow>
           breaker_state (record_success t1 t2 b) = HalfOpen
           \<and> w_probe_successes (cb_window (record_success t1 t2 b))
               = w_probe_successes (cb_window b) + 1"
  using assms by (auto simp: record_success_def Let_def)

lemma failure_half_open:
  assumes "breaker_state b = HalfOpen"
  shows "breaker_state (record_failure t1 t2 t3 b) = Open
         \<and> w_opened_at (cb_window (record_failure t1 t2 t3 b)) = Some t3"
  using assms by (simp add: record_failure_def)

section \<open>Concurrent callers\<close>

text \<open>
  \<open>bs_waiting\<close> counts the callers of \<open>allow\<close> that have read the byte as open and have not
  yet taken the lock; \<open>bs_now\<close> is the latest clock reading. The operations that hold the
  lock from start to end are single steps.
\<close>

record breaker_sys =
  bs_cb :: circuit_breaker
  bs_waiting :: nat
  bs_now :: instant

inductive breaker_step :: "breaker_sys \<Rightarrow> breaker_sys \<Rightarrow> bool" where
  load_open: "breaker_state (bs_cb s) = Open \<Longrightarrow>
     breaker_step s (s\<lparr>bs_waiting := Suc (bs_waiting s)\<rparr>)"
| locked: "bs_waiting s = Suc n \<Longrightarrow> bs_now s \<le> t \<Longrightarrow>
     breaker_step s (s\<lparr>bs_cb := snd (allow_locked t (bs_cb s)), bs_waiting := n, bs_now := t\<rparr>)"
| success: "bs_now s \<le> t1 \<Longrightarrow> t1 \<le> t2 \<Longrightarrow>
     breaker_step s (s\<lparr>bs_cb := record_success t1 t2 (bs_cb s), bs_now := t2\<rparr>)"
| failure: "bs_now s \<le> t1 \<Longrightarrow> t1 \<le> t2 \<Longrightarrow> t2 \<le> t3 \<Longrightarrow>
     breaker_step s (s\<lparr>bs_cb := record_failure t1 t2 t3 (bs_cb s), bs_now := t3\<rparr>)"

definition breaker_start :: "breaker_config \<Rightarrow> breaker_sys \<Rightarrow> bool" where
  "breaker_start config s \<longleftrightarrow>
     bs_cb s = breaker_new config (bs_now s) \<and> bs_waiting s = 0"

text \<open>
  What every interleaving keeps: the byte encodes a state; a circuit that is not closed has
  the time it opened; while probing, the count of probes stays below its target, so it can
  never wrap.
\<close>

definition breaker_inv :: "breaker_config \<Rightarrow> breaker_sys \<Rightarrow> bool" where
  "breaker_inv config s \<longleftrightarrow>
     cb_config (bs_cb s) = config
     \<and> cb_state (bs_cb s) \<le> 2
     \<and> (case w_opened_at (cb_window (bs_cb s)) of
          None \<Rightarrow> breaker_state (bs_cb s) = Closed \<and> bs_waiting s = 0
        | Some t \<Rightarrow> t \<le> bs_now s)
     \<and> (breaker_state (bs_cb s) = HalfOpen \<longrightarrow>
          w_probe_successes (cb_window (bs_cb s)) = 0
          \<or> w_probe_successes (cb_window (bs_cb s)) < bc_probe_successes config)"

lemma breaker_inv_start: "breaker_start config s \<Longrightarrow> breaker_inv config s"
  by (simp add: breaker_start_def breaker_inv_def breaker_new_def breaker_state_def)

lemma breaker_inv_load_open:
  assumes "breaker_inv config s" and "breaker_state (bs_cb s) = Open"
  shows "breaker_inv config (s\<lparr>bs_waiting := Suc (bs_waiting s)\<rparr>)"
  using assms by (auto simp: breaker_inv_def split: option.splits)

lemma breaker_inv_locked:
  assumes "breaker_inv config s" and "bs_waiting s = Suc n" and "bs_now s \<le> t"
  shows "breaker_inv config
           (s\<lparr>bs_cb := snd (allow_locked t (bs_cb s)), bs_waiting := n, bs_now := t\<rparr>)"
  using assms
  by (auto simp: breaker_inv_def allow_locked_def elapsed_def split: option.splits)

lemma breaker_inv_success:
  assumes "breaker_inv config s" and "bs_now s \<le> t1" and "t1 \<le> t2"
  shows "breaker_inv config (s\<lparr>bs_cb := record_success t1 t2 (bs_cb s), bs_now := t2\<rparr>)"
proof (cases "breaker_state (bs_cb s) = HalfOpen")
  case True
  with assms show ?thesis
    by (auto simp: breaker_inv_def record_success_def Let_def split: option.splits)
next
  case False
  then have "cb_state (record_success t1 t2 (bs_cb s)) = cb_state (bs_cb s)"
    and "w_opened_at (cb_window (record_success t1 t2 (bs_cb s))) = w_opened_at (cb_window (bs_cb s))"
    by (auto simp: record_success_def Let_def split: breaker_state.split)
  with assms False show ?thesis
    by (auto simp: breaker_inv_def success_not_half_open_state split: option.splits)
qed

lemma breaker_inv_failure:
  assumes "breaker_inv config s" and "bs_now s \<le> t1" and "t1 \<le> t2" and "t2 \<le> t3"
  shows "breaker_inv config (s\<lparr>bs_cb := record_failure t1 t2 t3 (bs_cb s), bs_now := t3\<rparr>)"
  using assms
  by (auto simp: breaker_inv_def record_failure_def Let_def split: option.splits)

lemma breaker_inv_step: "breaker_inv config s \<Longrightarrow> breaker_step s t \<Longrightarrow> breaker_inv config t"
  by (erule breaker_step.cases)
    (auto intro: breaker_inv_load_open breaker_inv_locked breaker_inv_success breaker_inv_failure)

interpretation breaker_sys: inductive_invariant "breaker_start config" breaker_step
    "breaker_inv config" for config
  by unfold_locales (auto intro: breaker_inv_start breaker_inv_step)

section \<open>When the circuit trips\<close>

lemma window_ratio_exact:
  assumes "unat (w_successes w) + unat (w_failures w) < 2 ^ 53"
  shows "window_ratio w =
     f64_div (Fin (of_nat (unat (w_failures w))))
       (Fin (of_nat (unat (w_successes w) + unat (w_failures w))))"
proof -
  have sum: "unat (w_successes w + w_failures w) = unat (w_successes w) + unat (w_failures w)"
    using assms by (intro unat_u64_add) simp
  have "u64_as_f64 (w_failures w) = Fin (of_nat (unat (w_failures w)))"
    using assms by (intro u64_as_f64_exact) simp
  moreover have "u64_as_f64 (w_successes w + w_failures w)
      = Fin (of_nat (unat (w_successes w + w_failures w)))"
    using assms sum by (intro u64_as_f64_exact) simp
  ultimately show ?thesis by (simp only: window_ratio_def sum)
qed

text \<open>The window a failure is counted in: rolled if stale, then one failure more.\<close>

definition failure_window :: "instant \<Rightarrow> instant \<Rightarrow> circuit_breaker \<Rightarrow> window" where
  "failure_window t1 t2 b =
     (let w = roll_if_stale (cb_config b) t1 t2 (cb_window b)
      in w\<lparr>w_failures := w_failures w + 1\<rparr>)"

lemma failure_window_frame [simp]:
  "w_opened_at (failure_window t1 t2 b) = w_opened_at (cb_window b)"
  "w_probe_successes (failure_window t1 t2 b) = w_probe_successes (cb_window b)"
  by (simp_all add: failure_window_def Let_def)

lemma record_failure_cases:
  assumes "breaker_state b \<noteq> HalfOpen" and "w = failure_window t1 t2 b"
  shows "record_failure t1 t2 t3 b =
     (if w_successes w + w_failures w \<ge> bc_minimum_requests (cb_config b)
         \<and> f64_ge (window_ratio w) (bc_failure_ratio (cb_config b))
      then b\<lparr>cb_window := w\<lparr>w_opened_at := Some t3\<rparr>,
             cb_state := state_as_u8 Open, cb_trips := cb_trips b + 1\<rparr>
      else b\<lparr>cb_window := w\<rparr>)"
  using assms by (simp add: record_failure_def failure_window_def Let_def)

lemma total_reaches_minimum:
  assumes "unat (w_successes w) + unat (w_failures w) < 2 ^ 64"
  shows "m \<le> w_successes w + w_failures w
         \<longleftrightarrow> unat m \<le> unat (w_successes w) + unat (w_failures w)"
  using unat_u64_add [OF assms] by (simp add: word_le_nat_alt)

definition tripped :: "instant \<Rightarrow> circuit_breaker \<Rightarrow> circuit_breaker \<Rightarrow> bool" where
  "tripped t b b' \<longleftrightarrow>
     breaker_state b' = Open \<and> w_opened_at (cb_window b') = Some t \<and> cb_trips b' = cb_trips b + 1"

definition untripped :: "circuit_breaker \<Rightarrow> circuit_breaker \<Rightarrow> bool" where
  "untripped b b' \<longleftrightarrow>
     breaker_state b' = breaker_state b
     \<and> w_opened_at (cb_window b') = w_opened_at (cb_window b) \<and> cb_trips b' = cb_trips b"

text \<open>
  C21. With the default failure ratio of one half, a failure outside the half-open state opens
  the circuit exactly when the window it falls in holds at least the minimum number of requests
  and at least half of them failed, itself included; otherwise state, opening time and trip
  count stay as they were. The comparison is the code's rounded \<open>f64\<close> division, and is exact
  while the window holds fewer than \<open>2\<^sup>5\<^sup>3\<close> requests.
\<close>

theorem breaker_trips_at_half:
  assumes "bc_failure_ratio (cb_config b) = Fin (1 / 2)"
    and "breaker_state b \<noteq> HalfOpen"
    and w: "w = failure_window t1 t2 b"
    and small: "unat (w_successes w) + unat (w_failures w) < 2 ^ 53" and "w_failures w \<noteq> 0"
  shows "if unat (bc_minimum_requests (cb_config b)) \<le> unat (w_successes w) + unat (w_failures w)
            \<and> unat (w_successes w) + unat (w_failures w) \<le> 2 * unat (w_failures w)
         then tripped t3 b (record_failure t1 t2 t3 b)
         else untripped b (record_failure t1 t2 t3 b)"
proof -
  have "0 < unat (w_failures w)" using assms(5) by (simp add: unat_gt_0)
  then have "f64_ge (window_ratio w) (Fin (1 / 2))
      \<longleftrightarrow> unat (w_successes w) + unat (w_failures w) \<le> 2 * unat (w_failures w)"
    unfolding window_ratio_exact [OF small] using small by (intro f64_ratio_half) simp_all
  moreover have "w_successes w + w_failures w \<ge> bc_minimum_requests (cb_config b)
      \<longleftrightarrow> unat (bc_minimum_requests (cb_config b)) \<le> unat (w_successes w) + unat (w_failures w)"
    using small by (intro total_reaches_minimum) simp
  ultimately show ?thesis
    using assms(1) unfolding record_failure_cases [OF assms(2) w]
    by (simp add: tripped_def untripped_def w)
qed

text \<open>
  Whatever failure ratio the configuration gives in decimal, the circuit opens once the
  window holds the minimum number of requests and the exact ratio reaches that decimal: the
  rounding of the threshold and of the division never hides a ratio that is high enough.
\<close>

theorem breaker_trips_at_threshold:
  assumes "bc_failure_ratio (cb_config b) = f64_of_rat t" and "0 \<le> t"
    and "breaker_state b \<noteq> HalfOpen"
    and w: "w = failure_window t1 t2 b"
    and small: "unat (w_successes w) + unat (w_failures w) < 2 ^ 53" and "w_failures w \<noteq> 0"
    and "unat (bc_minimum_requests (cb_config b)) \<le> unat (w_successes w) + unat (w_failures w)"
    and "t \<le> of_nat (unat (w_failures w))
              / of_nat (unat (w_successes w) + unat (w_failures w))"
  shows "tripped t3 b (record_failure t1 t2 t3 b)"
proof -
  have "0 < unat (w_failures w)" using assms(6) by (simp add: unat_gt_0)
  then have "f64_ge (window_ratio w) (f64_of_rat t)"
    unfolding window_ratio_exact [OF small] using assms(2,8) by (intro f64_ratio_reaches) simp_all
  moreover have "w_successes w + w_failures w \<ge> bc_minimum_requests (cb_config b)"
    using assms(7) small by (subst total_reaches_minimum) simp_all
  ultimately show ?thesis
    using assms(1) unfolding record_failure_cases [OF assms(3) w] by (simp add: tripped_def)
qed

section \<open>Runs of the breaker\<close>

datatype breaker_event =
    EvAllow instant
  | EvSuccess instant instant
  | EvFailure instant instant instant

text \<open>A sequence of calls, with the answers \<open>allow\<close> gave.\<close>

fun breaker_run :: "breaker_event list \<Rightarrow> circuit_breaker \<Rightarrow> bool list \<times> circuit_breaker" where
  "breaker_run [] b = ([], b)"
| "breaker_run (EvAllow t # es) b =
     (let (a, b1) = allow t b; (as, b2) = breaker_run es b1 in (a # as, b2))"
| "breaker_run (EvSuccess t1 t2 # es) b = breaker_run es (record_success t1 t2 b)"
| "breaker_run (EvFailure t1 t2 t3 # es) b = breaker_run es (record_failure t1 t2 t3 b)"

fun is_outcome :: "breaker_event \<Rightarrow> bool" where
  "is_outcome (EvAllow _) = False"
| "is_outcome _ = True"

definition outcomes :: "breaker_event list \<Rightarrow> nat" where
  "outcomes es = length (filter is_outcome es)"

lemma outcomes_simps [simp]:
  "outcomes [] = 0"
  "outcomes (EvAllow t # es) = outcomes es"
  "outcomes (EvSuccess t1 t2 # es) = Suc (outcomes es)"
  "outcomes (EvFailure t1 t2 t3 # es) = Suc (outcomes es)"
  by (simp_all add: outcomes_def)

definition window_total :: "window \<Rightarrow> nat" where
  "window_total w = unat (w_successes w) + unat (w_failures w)"

lemma window_total_roll: "window_total (roll_if_stale c t1 t2 w) \<le> window_total w"
  by (simp add: window_total_def roll_if_stale_def)

lemma unat_Suc_le: "unat (a + 1 :: u64) \<le> Suc (unat a)"
  by (simp add: unat_word_ariths)

lemma window_total_failure: "window_total (failure_window t1 t2 b) \<le> Suc (window_total (cb_window b))"
  using window_total_roll [of "cb_config b" t1 t2 "cb_window b"]
    unat_Suc_le [of "w_failures (roll_if_stale (cb_config b) t1 t2 (cb_window b))"]
  by (simp add: window_total_def failure_window_def Let_def)

lemma closed_success:
  assumes "breaker_state b = Closed"
  shows "breaker_state (record_success t1 t2 b) = Closed
         \<and> window_total (cb_window (record_success t1 t2 b)) \<le> Suc (window_total (cb_window b))"
proof -
  let ?w = "roll_if_stale (cb_config b) t1 t2 (cb_window b)"
  have "unat (w_successes ?w + 1) + unat (w_failures ?w) \<le> Suc (window_total ?w)"
    using unat_Suc_le [of "w_successes ?w"] by (simp add: window_total_def)
  then show ?thesis
    using assms window_total_roll [of "cb_config b" t1 t2 "cb_window b"]
    by (simp add: record_success_def Let_def) (simp add: window_total_def)
qed

lemma closed_failure_below_minimum:
  assumes "breaker_state b = Closed"
    and "Suc (window_total (cb_window b)) < unat (bc_minimum_requests (cb_config b))"
  shows "breaker_state (record_failure t1 t2 t3 b) = Closed
         \<and> window_total (cb_window (record_failure t1 t2 t3 b)) \<le> Suc (window_total (cb_window b))"
proof -
  let ?w = "failure_window t1 t2 b"
  have le: "window_total ?w \<le> Suc (window_total (cb_window b))"
    by (rule window_total_failure)
  then have "window_total ?w < unat (bc_minimum_requests (cb_config b))" using assms(2) by simp
  moreover have "unat (bc_minimum_requests (cb_config b)) < 2 ^ 64"
    by (rule unat_u64_bound)
  ultimately have "\<not> bc_minimum_requests (cb_config b) \<le> w_successes ?w + w_failures ?w"
    by (subst total_reaches_minimum) (simp_all add: window_total_def)
  with assms(1) le show ?thesis
    by (simp add: record_failure_cases [OF _ refl])
qed

lemma run_below_minimum:
  assumes "breaker_state b = Closed"
    and "window_total (cb_window b) + outcomes es < unat (bc_minimum_requests (cb_config b))"
  shows "breaker_state (snd (breaker_run es b)) = Closed \<and> list_all id (fst (breaker_run es b))"
  using assms
proof (induction es b rule: breaker_run.induct)
  case (1 b)
  then show ?case by simp
next
  case (2 t es b)
  then show ?case by (simp add: case_prod_beta Let_def)
next
  case (3 t1 t2 es b)
  then show ?case using closed_success [of b t1 t2] by simp
next
  case (4 t1 t2 t3 es b)
  then show ?case using closed_failure_below_minimum [of b t1 t2 t3] by simp
qed

text \<open>
  The minimum is respected over whole runs: whatever calls a new breaker receives, in any
  order and at any times, as long as fewer outcomes than \<open>minimum_requests\<close> were recorded it
  is closed and every call of \<open>allow\<close> was let through, even if every single outcome was a
  failure.
\<close>

theorem breaker_ignores_noise:
  assumes "outcomes es < unat (bc_minimum_requests config)"
  shows "breaker_state (snd (breaker_run es (breaker_new config t0))) = Closed
         \<and> list_all id (fst (breaker_run es (breaker_new config t0)))"
  using assms
  by (intro run_below_minimum) (simp_all add: breaker_new_def breaker_state_def window_total_def)

section \<open>Probing and recovery\<close>

fun record_successes :: "(instant \<times> instant) list \<Rightarrow> circuit_breaker \<Rightarrow> circuit_breaker" where
  "record_successes [] b = b"
| "record_successes ((t1, t2) # ts) b = record_successes ts (record_success t1 t2 b)"

lemma half_open_successes:
  assumes "breaker_state b = HalfOpen"
    and "unat (w_probe_successes (cb_window b)) + length ts < unat (bc_probe_successes (cb_config b))"
  shows "breaker_state (record_successes ts b) = HalfOpen
         \<and> unat (w_probe_successes (cb_window (record_successes ts b)))
             = unat (w_probe_successes (cb_window b)) + length ts
         \<and> cb_config (record_successes ts b) = cb_config b"
  using assms
proof (induction ts b rule: record_successes.induct)
  case (1 b)
  then show ?case by simp
next
  case (2 t1 t2 ts b)
  let ?p = "w_probe_successes (cb_window b)"
  have "unat (bc_probe_successes (cb_config b)) < 2 ^ 32"
    by (rule unat_u32_bound)
  with "2.prems" have inc: "unat (?p + 1) = Suc (unat ?p)"
    by (simp add: unat_word_ariths)
  with "2.prems" have "?p + 1 < bc_probe_successes (cb_config b)"
    by (simp add: word_less_nat_alt)
  then have "breaker_state (record_success t1 t2 b) = HalfOpen"
    and "w_probe_successes (cb_window (record_success t1 t2 b)) = ?p + 1"
    using success_half_open(2) [OF "2.prems"(1)] by auto
  with inc "2.IH" "2.prems" show ?case by simp
qed

text \<open>
  C22. Recovery takes exactly the configured number of consecutive successes: after the
  cooldown the first caller is let through and the circuit probes; fewer than
  \<open>probe_successes\<close> successes leave it probing, and that many close it with an empty window.
\<close>

theorem breaker_recovers:
  assumes "breaker_state b = Open" and "w_opened_at (cb_window b) = Some t"
    and "t + bc_cooldown (cb_config b) \<le> now"
    and "(pass, b1) = allow now b"
    and "length ts + 1 = unat (bc_probe_successes (cb_config b))"
    and "k \<le> length ts"
    and "b2 = record_success u1 u2 (record_successes ts b1)"
  shows "pass \<and> breaker_state (record_successes (take k ts) b1) = HalfOpen
         \<and> breaker_state b2 = Closed \<and> window_total (cb_window b2) = 0"
proof -
  from allow_open(1) [OF assms(1,2,3)] assms(4)
  have pass: "pass" and b1: "breaker_state b1 = HalfOpen" "w_probe_successes (cb_window b1) = 0"
    by (metis fst_conv snd_conv)+
  have conf: "cb_config b1 = cb_config b" using assms(4) config_frame(1) by (metis snd_conv)
  have few: "breaker_state (record_successes (take k ts) b1) = HalfOpen"
    using half_open_successes [OF b1(1), of "take k ts"] assms(5,6) b1(2) conf by simp
  have all: "breaker_state (record_successes ts b1) = HalfOpen"
    "unat (w_probe_successes (cb_window (record_successes ts b1))) = length ts"
    "cb_config (record_successes ts b1) = cb_config b"
    using half_open_successes [OF b1(1), of ts] assms(5) b1(2) conf by simp_all
  have "unat (bc_probe_successes (cb_config b)) < 2 ^ 32"
    by (rule unat_u32_bound)
  then have "unat (w_probe_successes (cb_window (record_successes ts b1)) + 1) = length ts + 1"
    using all(2) assms(5) by (simp add: unat_word_ariths)
  then have "bc_probe_successes (cb_config (record_successes ts b1))
      \<le> w_probe_successes (cb_window (record_successes ts b1)) + 1"
    using assms(5) all(3) by (simp add: word_le_nat_alt)
  from success_half_open(1) [OF all(1) this] show ?thesis
    using pass few assms(7) by (simp add: window_total_def)
qed

text \<open>
  C23. However concurrent callers interleave, the state byte encodes one of the three states, a probe
  count short of its target is what keeps the circuit half-open, and an open circuit is never stuck: it
  knows when it opened; until the cooldown has passed every caller is refused and counted, and from
  then on the next caller is let through to probe.
\<close>

theorem breaker_open_bounded:
  assumes "reachable (breaker_start config) breaker_step s"
  shows "cb_state (bs_cb s) \<in> {0, 1, 2}
    \<and> (breaker_state (bs_cb s) = HalfOpen \<longrightarrow>
         w_probe_successes (cb_window (bs_cb s)) = 0 \<or> w_probe_successes (cb_window (bs_cb s)) < bc_probe_successes config)
    \<and> (breaker_state (bs_cb s) = Open \<longrightarrow>
         (\<exists>t \<le> bs_now s. w_opened_at (cb_window (bs_cb s)) = Some t
            \<and> (\<forall>now \<ge> bs_now s.
                 if now < t + bc_cooldown config
                 then allow now (bs_cb s) = (False, (bs_cb s)\<lparr>cb_rejected := cb_rejected (bs_cb s) + 1\<rparr>)
                 else fst (allow now (bs_cb s)) \<and> breaker_state (snd (allow now (bs_cb s))) = HalfOpen)))"
proof (intro conjI impI)
  from assms have inv: "breaker_inv config s" by (rule breaker_sys.inv_reachable)
  then have "cb_state (bs_cb s) \<le> 2" by (simp add: breaker_inv_def)
  then show "cb_state (bs_cb s) \<in> {0, 1, 2}" by (rule state_byte_cases)
  show "w_probe_successes (cb_window (bs_cb s)) = 0 \<or> w_probe_successes (cb_window (bs_cb s)) < bc_probe_successes config"
    if "breaker_state (bs_cb s) = HalfOpen" using inv that by (simp add: breaker_inv_def)
  assume opened: "breaker_state (bs_cb s) = Open"
  with inv obtain t where t: "w_opened_at (cb_window (bs_cb s)) = Some t" "t \<le> bs_now s"
    by (auto simp: breaker_inv_def split: option.splits)
  moreover have "cb_config (bs_cb s) = config" using inv by (simp add: breaker_inv_def)
  ultimately show "\<exists>t \<le> bs_now s. w_opened_at (cb_window (bs_cb s)) = Some t
      \<and> (\<forall>now \<ge> bs_now s.
           if now < t + bc_cooldown config
           then allow now (bs_cb s) = (False, (bs_cb s)\<lparr>cb_rejected := cb_rejected (bs_cb s) + 1\<rparr>)
           else fst (allow now (bs_cb s)) \<and> breaker_state (snd (allow now (bs_cb s))) = HalfOpen)"
    using allow_open [OF opened t(1)] by (intro exI [of _ t]) auto
qed

text \<open>
  While the circuit is half-open every caller is let through: no number of probes is a
  limit, and none of them changes the breaker.
\<close>

theorem breaker_half_open_unlimited:
  assumes "breaker_state b = HalfOpen"
  shows "breaker_run (map EvAllow ts) b = (replicate (length ts) True, b)"
  using assms by (induction ts) simp_all

text \<open>
  A failure that arrives while the circuit is already open (of a request admitted before
  it opened) still counts in the window; when the window is above the threshold it restarts
  the cooldown and is counted as another trip, so a caller that would have been let through at
  the end of the first cooldown is refused.
\<close>

theorem breaker_late_failure:
  assumes "breaker_state b = Open" and "w_opened_at (cb_window b) = Some t"
    and "bc_failure_ratio (cb_config b) = Fin (1 / 2)"
    and "w = failure_window t1 t2 b"
    and "window_total w < 2 ^ 53" and "w_failures w \<noteq> 0"
    and "unat (bc_minimum_requests (cb_config b)) \<le> window_total w"
    and "window_total w \<le> 2 * unat (w_failures w)"
    and "t < t3" and "t3 \<le> now" and "now = t + bc_cooldown (cb_config b)"
  shows "fst (allow now b) \<and> \<not> fst (allow now (record_failure t1 t2 t3 b))
         \<and> cb_trips (record_failure t1 t2 t3 b) = cb_trips b + 1"
proof -
  let ?b = "record_failure t1 t2 t3 b"
  have small: "unat (w_successes w) + unat (w_failures w) < 2 ^ 53"
    using assms(5) by (simp add: window_total_def)
  have "f64_ge (window_ratio w) (Fin (1 / 2))"
    using assms(6,8) small f64_ratio_half [of "unat (w_failures w)" "window_total w"]
    by (simp add: window_ratio_exact window_total_def unat_gt_0)
  moreover have "bc_minimum_requests (cb_config b) \<le> w_successes w + w_failures w"
    using assms(7) small by (subst total_reaches_minimum) (simp_all add: window_total_def)
  moreover have "breaker_state b \<noteq> HalfOpen" using assms(1) by simp
  ultimately have "tripped t3 b ?b"
    using assms(3) record_failure_cases [OF _ assms(4), of t3] by (simp add: tripped_def)
  then have "breaker_state ?b = Open" and "w_opened_at (cb_window ?b) = Some t3"
    and "cb_trips ?b = cb_trips b + 1"
    by (simp_all add: tripped_def)
  moreover have "fst (allow now b)"
    using allow_open(1) [OF assms(1,2)] assms(11) by simp
  ultimately show ?thesis
    using allow_open(2) [of ?b t3 now] assms(9,10,11) by simp
qed

section \<open>Instances\<close>

text \<open>The configuration of the repository's unit tests, and a breaker after a few outcomes.\<close>

definition test_config :: breaker_config where
  "test_config = \<lparr> bc_failure_ratio = Fin (1 / 2), bc_minimum_requests = 4,
     bc_window = from_secs 60, bc_cooldown = from_millis 50, bc_probe_successes = 2 \<rparr>"

definition test_breaker :: "u8 \<Rightarrow> u64 \<Rightarrow> u64 \<Rightarrow> instant option \<Rightarrow> circuit_breaker" where
  "test_breaker st ok bad opened =
     \<lparr> cb_config = test_config, cb_state = st,
       cb_window = \<lparr> w_started = 0, w_successes = ok, w_failures = bad,
                     w_opened_at = opened, w_probe_successes = 0 \<rparr>,
       cb_trips = 0, cb_rejected = 0 \<rparr>"

lemmas test_breaker_defs = test_breaker_def test_config_def from_secs_def from_millis_def
  failure_window_def roll_if_stale_def reset_window_def elapsed_def breaker_state_def Let_def
  window_total_def

theorem breaker_trips_at_half_witness:
  "tripped 10 (test_breaker 0 2 1 None) (record_failure 10 10 10 (test_breaker 0 2 1 None))"
  using breaker_trips_at_half [of "test_breaker 0 2 1 None" _ 10 10 10, OF _ _ refl]
  by (simp add: test_breaker_defs)

definition third_breaker :: circuit_breaker where
  "third_breaker =
     (test_breaker 0 3 1 None)\<lparr>cb_config := test_config\<lparr>bc_failure_ratio := f64_of_rat (3 / 10)\<rparr>\<rparr>"

theorem breaker_trips_at_threshold_witness:
  "tripped 10 third_breaker (record_failure 10 10 10 third_breaker)"
  using breaker_trips_at_threshold [of third_breaker "3 / 10" _ 10 10 10, OF _ _ _ refl]
  by (simp add: third_breaker_def test_breaker_defs)

theorem breaker_ignores_noise_witness:
  "breaker_state (snd (breaker_run [EvFailure 1 1 1, EvAllow 2, EvFailure 3 3 3]
       (breaker_new test_config 0))) = Closed"
  using breaker_ignores_noise [of "[EvFailure 1 1 1, EvAllow 2, EvFailure 3 3 3]" test_config 0]
  by (simp add: test_config_def)

theorem breaker_recovers_witness:
  "breaker_state
     (record_success 4 4 (record_success 3 3 (snd (allow 50000000 (test_breaker 1 2 2 (Some 0))))))
   = Closed"
  using breaker_recovers [of "test_breaker 1 2 2 (Some 0)" 0 50000000 _ _ "[(3, 3)]" 1 _ 4 4,
      OF _ _ _ surjective_pairing [symmetric] _ _ refl]
  by (simp add: test_breaker_defs)

lemma single_failure_trips:
  assumes "breaker_state b = Closed" and "bc_failure_ratio (cb_config b) = Fin (1 / 2)"
    and "failure_window 2 2 b = w" and "w_successes w = 0" and "w_failures w = 1"
    and "bc_minimum_requests (cb_config b) \<le> 1"
  shows "breaker_state (record_failure 2 2 2 b) = Open"
proof -
  have "f64_ge (window_ratio w) (Fin (1 / 2))"
    using f64_ratio_half [of 1 1] assms(4,5) by (simp add: window_ratio_exact)
  then show ?thesis
    using assms by (simp add: record_failure_cases [OF _ assms(3) [symmetric]])
qed

theorem breaker_open_bounded_witness:
  "\<exists>s. reachable (breaker_start (test_config\<lparr>bc_minimum_requests := 1\<rparr>)) breaker_step s
     \<and> breaker_state (bs_cb s) = Open
     \<and> (\<exists>t \<le> bs_now s. w_opened_at (cb_window (bs_cb s)) = Some t)"
proof -
  let ?c = "test_config\<lparr>bc_minimum_requests := 1\<rparr>"
  let ?init = "\<lparr>bs_cb = breaker_new ?c 2, bs_waiting = 0, bs_now = 2\<rparr>"
  let ?s = "?init\<lparr>bs_cb := record_failure 2 2 2 (bs_cb ?init), bs_now := 2\<rparr>"
  have "reachable (breaker_start ?c) breaker_step ?init"
    by (rule reachable_start) (simp add: breaker_start_def)
  moreover have "breaker_step ?init ?s"
    using breaker_step.failure [of ?init 2 2 2] by simp
  ultimately have r: "reachable (breaker_start ?c) breaker_step ?s"
    by (rule reachable_step)
  have o: "breaker_state (bs_cb ?s) = Open"
    using single_failure_trips [of "breaker_new ?c 2", OF _ _ refl]
    by (simp add: breaker_new_def test_breaker_defs)
  from breaker_open_bounded [OF r] r o show ?thesis by blast
qed

theorem breaker_half_open_unlimited_witness:
  "breaker_run (map EvAllow [1, 2, 3, 4, 5]) (test_breaker 2 0 0 (Some 0))
   = ([True, True, True, True, True], test_breaker 2 0 0 (Some 0))"
  using breaker_half_open_unlimited [of "test_breaker 2 0 0 (Some 0)" "[1, 2, 3, 4, 5]"]
  by (simp add: test_breaker_def breaker_state_def numeral_eq_Suc)

theorem breaker_late_failure_witness:
  "\<not> fst (allow 50000000 (record_failure 7 7 7 (test_breaker 1 2 2 (Some 0))))"
proof -
  let ?b = "test_breaker 1 2 2 (Some 0)"
  have w: "failure_window 7 7 ?b = (cb_window ?b)\<lparr>w_failures := 3\<rparr>"
    by (simp add: test_breaker_defs)
  have "breaker_state ?b = Open" and "w_opened_at (cb_window ?b) = Some 0"
    and "bc_failure_ratio (cb_config ?b) = Fin (1 / 2)"
    and "unat (bc_minimum_requests (cb_config ?b)) = 4"
    and "bc_cooldown (cb_config ?b) = 50000000"
    and "window_total (failure_window 7 7 ?b) = 5" and "w_failures (failure_window 7 7 ?b) = 3"
    unfolding w by (simp_all add: test_breaker_defs)
  note facts = this
  have "fst (allow 50000000 ?b) \<and> \<not> fst (allow 50000000 (record_failure 7 7 7 ?b))
      \<and> cb_trips (record_failure 7 7 7 ?b) = cb_trips ?b + 1"
    by (rule breaker_late_failure [OF facts(1,2,3) refl]) (simp_all only: facts, simp_all)
  then show ?thesis by blast
qed

end
