(* ===== verification/Key_Cache.thy ===== *)
theory Key_Cache
  imports F64
begin

text \<open>
  The public key cache, \<open>cache/mod.rs\<close>. The concurrent map underneath (crate \<open>moka\<close>) is a
  parameter: a record of the calls the code makes, with the predicate \<open>moka_laws\<close> for what its
  documentation promises. Lookups by concurrent callers are a step relation in which the
  probe, the lookup proper, the end of a load and the counting are separate steps.
\<close>

section \<open>Entries, counters, configuration\<close>

record cached_public_key =
  cp_spki_der :: bytes
  cp_key_type :: string

datatype lookup = Found cached_public_key | LookupNotFound

record cache_metrics =
  cm_hits :: u64
  cm_misses :: u64
  cm_negative_hits :: u64

definition hit_ratio :: "cache_metrics \<Rightarrow> f64" where
  "hit_ratio m =
     (let hits = u64_as_f64 (cm_hits m); misses = u64_as_f64 (cm_misses m) in
      if f64_eq (f64_add hits misses) (Fin 0) then Fin 0 else f64_div hits (f64_add hits misses))"

record cache_config =
  cc_ttl :: duration
  cc_negative_ttl :: duration
  cc_max_entries :: u64

definition cache_config_default :: cache_config where
  "cache_config_default =
     \<lparr> cc_ttl = from_secs 300, cc_negative_ttl = from_secs 30, cc_max_entries = 1024 \<rparr>"

definition cache_config_from_env :: "environ \<Rightarrow> cache_config" where
  "cache_config_from_env env =
     (let d = cache_config_default; secs = (\<lambda>key. map_option from_secs (env_parse parse_u64 env key)) in
      \<lparr> cc_ttl = unwrap_or (cc_ttl d) (secs ''CACHE_TTL_SECS''),
        cc_negative_ttl = unwrap_or (cc_negative_ttl d) (secs ''CACHE_NEGATIVE_TTL_SECS''),
        cc_max_entries = unwrap_or (cc_max_entries d) (env_parse parse_u64 env ''CACHE_MAX_ENTRIES'') \<rparr>)"

record ttl_by_outcome =
  tb_positive_ttl :: duration
  tb_negative_ttl :: duration

definition expire_after_create :: "ttl_by_outcome \<Rightarrow> lookup \<Rightarrow> duration option" where
  "expire_after_create ttl value =
     Some (case value of Found _ \<Rightarrow> tb_positive_ttl ttl | LookupNotFound \<Rightarrow> tb_negative_ttl ttl)"

section \<open>The cache\<close>

text \<open>
  \<open>mk_try_get\<close> is the start of \<open>try_get_with_by_ref\<close>: the live entry, or that this caller is to
  evaluate its loader, or that another caller is already evaluating one for the key and this
  one gets its result. \<open>mk_settle\<close> is the end of an evaluation, with the value to store unless it
  failed.
\<close>

datatype try_get = Cached lookup | Init | Coalesced

record 'm moka =
  mk_build :: "u64 \<Rightarrow> (lookup \<Rightarrow> duration option) \<Rightarrow> 'm"
  mk_contains_key :: "instant \<Rightarrow> string \<Rightarrow> 'm \<Rightarrow> bool"
  mk_try_get :: "instant \<Rightarrow> string \<Rightarrow> 'm \<Rightarrow> try_get \<times> 'm"
  mk_settle :: "instant \<Rightarrow> string \<Rightarrow> lookup option \<Rightarrow> 'm \<Rightarrow> 'm"
  mk_invalidate :: "string \<Rightarrow> 'm \<Rightarrow> 'm"
  mk_entry_count :: "'m \<Rightarrow> u64"

record 'm public_key_cache =
  pc_entries :: 'm
  pc_metrics :: cache_metrics

definition key_cache_new :: "'m moka \<Rightarrow> cache_config \<Rightarrow> 'm public_key_cache" where
  "key_cache_new mk config =
     \<lparr> pc_entries = mk_build mk (cc_max_entries config)
         (expire_after_create \<lparr> tb_positive_ttl = cc_ttl config, tb_negative_ttl = cc_negative_ttl config \<rparr>),
       pc_metrics = \<lparr> cm_hits = 0, cm_misses = 0, cm_negative_hits = 0 \<rparr> \<rparr>"

definition entry_count :: "'m moka \<Rightarrow> 'm public_key_cache \<Rightarrow> u64" where
  "entry_count mk c = mk_entry_count mk (pc_entries c)"

definition count_lookup :: "bool \<Rightarrow> lookup \<Rightarrow> cache_metrics \<Rightarrow> cache_metrics" where
  "count_lookup was_present result m =
     (if was_present then
        (let m1 = m\<lparr>cm_hits := cm_hits m + 1\<rparr> in
         if result = LookupNotFound then m1\<lparr>cm_negative_hits := cm_negative_hits m1 + 1\<rparr> else m1)
      else m\<lparr>cm_misses := cm_misses m + 1\<rparr>)"

fun ok_value :: "('a, 'e) result \<Rightarrow> 'a option" where
  "ok_value (Ok x) = Some x"
| "ok_value (Err _) = None"

text \<open>
  \<open>get_or_load\<close> for one caller, on any state that holds the cache: \<open>self\<close> reads it, \<open>modify\<close>
  updates it. The loader may change the state, as other callers run while it is awaited;
  \<open>shared\<close> is the result of another caller's loader when this one is coalesced with it. The clock
  is read by the probe (\<open>t 0\<close>), by the lookup (\<open>t 1\<close>) and when the loader is done (\<open>t 2\<close>).
\<close>

definition try_get_with_by_ref ::
    "'m moka \<Rightarrow> ('s \<Rightarrow> 'm public_key_cache) \<Rightarrow> (('m public_key_cache \<Rightarrow> 'm public_key_cache) \<Rightarrow> 's \<Rightarrow> 's)
     \<Rightarrow> instant \<Rightarrow> instant \<Rightarrow> (lookup, 'e) result \<Rightarrow> string \<Rightarrow> ('s, lookup, 'e) io \<Rightarrow> ('s, lookup, 'e) io" where
  "try_get_with_by_ref mk self modify t1 t2 shared key_label load s =
     (let (g, m) = mk_try_get mk t1 key_label (pc_entries (self s));
          s1 = modify (\<lambda>c. c\<lparr>pc_entries := m\<rparr>) s
      in case g of
           Cached v \<Rightarrow> (Ok v, s1)
         | Coalesced \<Rightarrow> (shared, s1)
         | Init \<Rightarrow>
             (let (r, s2) = load s1
              in (r, modify (\<lambda>c. c\<lparr>pc_entries := mk_settle mk t2 key_label (ok_value r) (pc_entries c)\<rparr>) s2)))"

definition get_or_load ::
    "'m moka \<Rightarrow> ('s \<Rightarrow> 'm public_key_cache) \<Rightarrow> (('m public_key_cache \<Rightarrow> 'm public_key_cache) \<Rightarrow> 's \<Rightarrow> 's)
     \<Rightarrow> (nat \<Rightarrow> instant) \<Rightarrow> (lookup, 'e) result \<Rightarrow> string \<Rightarrow> ('s, lookup, 'e) io \<Rightarrow> ('s, lookup \<times> bool, 'e) io" where
  "get_or_load mk self modify t shared key_label load s =
     (let was_present = mk_contains_key mk (t 0) key_label (pc_entries (self s));
          (r, s1) = try_get_with_by_ref mk self modify (t 1) (t 2) shared key_label load s
      in case r of
           Err e \<Rightarrow> (Err e, s1)
         | Ok result \<Rightarrow>
             (Ok (result, was_present),
              modify (\<lambda>c. c\<lparr>pc_metrics := count_lookup was_present result (pc_metrics c)\<rparr>) s1))"

definition cache_invalidate :: "'m moka \<Rightarrow> string \<Rightarrow> 'm public_key_cache \<Rightarrow> 'm public_key_cache" where
  "cache_invalidate mk key_label c = c\<lparr>pc_entries := mk_invalidate mk key_label (pc_entries c)\<rparr>"

text \<open>
  What holds of the state before a lookup and is kept by the loader holds after it, and an
  error comes from a loader.
\<close>

lemma get_or_load_inv:
  assumes modify: "\<And>f s. P s \<Longrightarrow> P (modify f s)"
    and load: "\<And>s. P s \<Longrightarrow> P (snd (load s)) \<and> Q (fst (load s))"
    and s: "P s" and shared: "Q shared"
  shows "P (snd (get_or_load mk self modify t shared key_label load s))
    \<and> (\<forall>e. fst (get_or_load mk self modify t shared key_label load s) = Err e \<longrightarrow> Q (Err e))"
proof -
  obtain g m where g: "mk_try_get mk (t (Suc 0)) key_label (pc_entries (self s)) = (g, m)" by fastforce
  define s1 where "s1 = modify (\<lambda>c. c\<lparr>pc_entries := m\<rparr>) s"
  have s1: "P s1" unfolding s1_def by (rule modify [OF s])
  show ?thesis
  proof (cases g)
    case (Cached v)
    then show ?thesis by (simp add: get_or_load_def try_get_with_by_ref_def Let_def g s1_def [symmetric] modify s1)
  next
    case Coalesced
    then show ?thesis using shared
      by (cases shared) (simp_all add: get_or_load_def try_get_with_by_ref_def Let_def g s1_def [symmetric] modify s1)
  next
    case Init
    obtain r s2 where l: "load s1 = (r, s2)" by fastforce
    then have "P s2" "Q r" using load [OF s1] by simp_all
    then show ?thesis
      by (cases r) (simp_all add: get_or_load_def try_get_with_by_ref_def Let_def g Init s1_def [symmetric] l modify)
  qed
qed

lemma get_or_load_cached:
  assumes "mk_contains_key mk (t 0) key_label (pc_entries (self s))"
    and "mk_try_get mk (t 1) key_label (pc_entries (self s)) = (Cached v, m)"
  shows "get_or_load mk self modify t shared key_label load s =
    (Ok (v, True), modify (\<lambda>c. c\<lparr>pc_metrics := count_lookup True v (pc_metrics c)\<rparr>) (modify (\<lambda>c. c\<lparr>pc_entries := m\<rparr>) s))"
  using assms by (simp add: get_or_load_def try_get_with_by_ref_def)

section \<open>Concurrent callers\<close>

text \<open>
  A caller has probed, or is evaluating its loader (\<open>Leading\<close>), or waits for the evaluation of
  another, or has the result and has still to count it. Each carries its label, the
  answer of the probe and the time of its call. \<open>ks_loads\<close> and \<open>ks_answers\<close> are history:
  the evaluations with their time and result, and what \<open>get_or_load\<close> returned.
\<close>

datatype 'e cache_caller =
    Probed string bool instant
  | Leading string bool instant
  | Following string bool instant
  | Resolved string bool instant "(lookup, 'e) result"

record ('m, 'e) cache_sys =
  ks_cache :: "'m public_key_cache"
  ks_now :: instant
  ks_callers :: "nat \<Rightarrow> 'e cache_caller option"
  ks_loads :: "(string \<times> instant \<times> (lookup, 'e) result) list"
  ks_answers :: "(string \<times> bool \<times> instant \<times> (lookup, 'e) result) list"

definition set_caller :: "nat \<Rightarrow> 'e cache_caller option \<Rightarrow> ('m, 'e) cache_sys \<Rightarrow> ('m, 'e) cache_sys" where
  "set_caller i c s = s\<lparr>ks_callers := (ks_callers s)(i := c)\<rparr>"

definition set_entries :: "'m \<Rightarrow> ('m, 'e) cache_sys \<Rightarrow> ('m, 'e) cache_sys" where
  "set_entries m s = s\<lparr>ks_cache := (ks_cache s)\<lparr>pc_entries := m\<rparr>\<rparr>"

definition cache_probe :: "'m moka \<Rightarrow> nat \<Rightarrow> string \<Rightarrow> ('m, 'e) cache_sys \<Rightarrow> ('m, 'e) cache_sys" where
  "cache_probe mk i label s =
     set_caller i (Some (Probed label (mk_contains_key mk (ks_now s) label (pc_entries (ks_cache s))) (ks_now s))) s"

definition cache_enter :: "'m moka \<Rightarrow> nat \<Rightarrow> string \<Rightarrow> bool \<Rightarrow> instant \<Rightarrow> ('m, 'e) cache_sys \<Rightarrow> ('m, 'e) cache_sys" where
  "cache_enter mk i label present called s =
     (let (g, m) = mk_try_get mk (ks_now s) label (pc_entries (ks_cache s))
      in set_caller i
           (Some (case g of
                    Cached v \<Rightarrow> Resolved label present called (Ok v)
                  | Init \<Rightarrow> Leading label present called
                  | Coalesced \<Rightarrow> Following label present called))
           (set_entries m s))"

text \<open>The evaluation of a label is over: its caller and all who wait for it have the result.\<close>

fun resolve :: "string \<Rightarrow> (lookup, 'e) result \<Rightarrow> 'e cache_caller \<Rightarrow> 'e cache_caller" where
  "resolve label r (Leading l p t) = (if l = label then Resolved l p t r else Leading l p t)"
| "resolve label r (Following l p t) = (if l = label then Resolved l p t r else Following l p t)"
| "resolve label r (Probed l p t) = Probed l p t"
| "resolve label r (Resolved l p t q) = Resolved l p t q"

definition cache_settle :: "'m moka \<Rightarrow> string \<Rightarrow> (lookup, 'e) result \<Rightarrow> ('m, 'e) cache_sys \<Rightarrow> ('m, 'e) cache_sys" where
  "cache_settle mk label r s =
     set_entries (mk_settle mk (ks_now s) label (ok_value r) (pc_entries (ks_cache s)))
       (s\<lparr>ks_callers := (\<lambda>i. map_option (resolve label r) (ks_callers s i)),
          ks_loads := (label, ks_now s, r) # ks_loads s\<rparr>)"

definition cache_return ::
    "nat \<Rightarrow> string \<Rightarrow> bool \<Rightarrow> instant \<Rightarrow> (lookup, 'e) result \<Rightarrow> ('m, 'e) cache_sys \<Rightarrow> ('m, 'e) cache_sys" where
  "cache_return i label present called r s =
     (let c = ks_cache s;
          c1 = (case r of
                  Ok v \<Rightarrow> c\<lparr>pc_metrics := count_lookup present v (pc_metrics c)\<rparr>
                | Err _ \<Rightarrow> c)
      in set_caller i None (s\<lparr>ks_cache := c1, ks_answers := (label, present, called, r) # ks_answers s\<rparr>))"

inductive cache_step :: "'m moka \<Rightarrow> ('m, 'e) cache_sys \<Rightarrow> ('m, 'e) cache_sys \<Rightarrow> bool" for mk where
  cache_tick: "ks_now s \<le> t \<Longrightarrow> cache_step mk s (s\<lparr>ks_now := t\<rparr>)"
| cache_call: "ks_callers s i = None \<Longrightarrow> cache_step mk s (cache_probe mk i label s)"
| cache_lookup:
    "ks_callers s i = Some (Probed label present called) \<Longrightarrow> cache_step mk s (cache_enter mk i label present called s)"
| cache_loaded:
    "ks_callers s i = Some (Leading label present called) \<Longrightarrow> cache_step mk s (cache_settle mk label r s)"
| cache_counted:
    "ks_callers s i = Some (Resolved label present called r) \<Longrightarrow> cache_step mk s (cache_return i label present called r s)"
| cache_dropped: "cache_step mk s (s\<lparr>ks_cache := cache_invalidate mk label (ks_cache s)\<rparr>)"

inductive_cases cache_stepE: "cache_step mk s t"

definition cache_started :: "'m moka \<Rightarrow> cache_config \<Rightarrow> ('m, 'e) cache_sys \<Rightarrow> bool" where
  "cache_started mk config s \<longleftrightarrow>
     ks_cache s = key_cache_new mk config \<and> ks_callers s = Map.empty \<and> ks_loads s = [] \<and> ks_answers s = []"

section \<open>What is assumed of the map\<close>

text \<open>
  \<open>live m t k\<close> is the entry a lookup at time \<open>t\<close> finds, and \<open>policy m\<close> the expiry policy the map
  was built with. Entries only ever come from an evaluation that succeeded, and such an entry is
  found no longer than the policy gives it.
\<close>

definition moka_laws ::
    "'m moka \<Rightarrow> ('m \<Rightarrow> instant \<Rightarrow> string \<Rightarrow> lookup option) \<Rightarrow> ('m \<Rightarrow> lookup \<Rightarrow> duration option) \<Rightarrow> bool" where
  "moka_laws mk live policy \<longleftrightarrow>
     (\<forall>cap p t k. live (mk_build mk cap p) t k = None \<and> policy (mk_build mk cap p) = p)
     \<and> (\<forall>m t k. mk_contains_key mk t k m = (live m t k \<noteq> None))
     \<and> (\<forall>m t k v. fst (mk_try_get mk t k m) = Cached v \<longleftrightarrow> live m t k = Some v)
     \<and> (\<forall>m t k t' k' v. live (snd (mk_try_get mk t k m)) t' k' = Some v \<longrightarrow> live m t' k' = Some v)
     \<and> (\<forall>m t k r t' k' v. live (mk_settle mk t k r m) t' k' = Some v \<longrightarrow>
          live m t' k' = Some v
          \<or> (k' = k \<and> r = Some v \<and> (\<forall>d. policy m v = Some d \<longrightarrow> t' < t + d)))
     \<and> (\<forall>m k t' k' v. live (mk_invalidate mk k m) t' k' = Some v \<longrightarrow> k' \<noteq> k \<and> live m t' k' = Some v)
     \<and> (\<forall>m t k r. policy (snd (mk_try_get mk t k m)) = policy m \<and> policy (mk_settle mk t k r m) = policy m
          \<and> policy (mk_invalidate mk k m) = policy m)"

lemma moka_lawsD:
  assumes "moka_laws mk live policy"
  shows "live (mk_build mk cap p) t k = None" "policy (mk_build mk cap p) = p"
    "mk_contains_key mk t k m = (live m t k \<noteq> None)"
    "fst (mk_try_get mk t k m) = Cached v \<longleftrightarrow> live m t k = Some v"
    "live (snd (mk_try_get mk t k m)) t' k' = Some v \<Longrightarrow> live m t' k' = Some v"
    "live (mk_settle mk t k r m) t' k' = Some v \<Longrightarrow>
       live m t' k' = Some v \<or> (k' = k \<and> r = Some v \<and> (\<forall>d. policy m v = Some d \<longrightarrow> t' < t + d))"
    "live (mk_invalidate mk k m) t' k' = Some v \<Longrightarrow> k' \<noteq> k \<and> live m t' k' = Some v"
    "policy (snd (mk_try_get mk t k m)) = policy m" "policy (mk_settle mk t k r m) = policy m"
    "policy (mk_invalidate mk k m) = policy m"
proof -
  note l1 = assms [unfolded moka_laws_def] note l2 = l1 [THEN conjunct2] note l3 = l2 [THEN conjunct2]
  note l4 = l3 [THEN conjunct2] note l5 = l4 [THEN conjunct2] note l6 = l5 [THEN conjunct2]
  show "live (mk_build mk cap p) t k = None" "policy (mk_build mk cap p) = p" using l1 [THEN conjunct1] by simp_all
  show "mk_contains_key mk t k m = (live m t k \<noteq> None)" by (rule l2 [THEN conjunct1, rule_format])
  show "fst (mk_try_get mk t k m) = Cached v \<longleftrightarrow> live m t k = Some v" by (rule l3 [THEN conjunct1, rule_format])
  show "live (snd (mk_try_get mk t k m)) t' k' = Some v \<Longrightarrow> live m t' k' = Some v"
    by (rule l4 [THEN conjunct1, rule_format])
  show "live (mk_settle mk t k r m) t' k' = Some v \<Longrightarrow>
      live m t' k' = Some v \<or> (k' = k \<and> r = Some v \<and> (\<forall>d. policy m v = Some d \<longrightarrow> t' < t + d))"
    by (rule l5 [THEN conjunct1, THEN spec, of m, THEN spec, of t, THEN spec, of k, THEN spec, of r,
          THEN spec, THEN spec, THEN spec, THEN mp])
  show "live (mk_invalidate mk k m) t' k' = Some v \<Longrightarrow> k' \<noteq> k \<and> live m t' k' = Some v"
    by (rule l6 [THEN conjunct1, rule_format])
  show "policy (snd (mk_try_get mk t k m)) = policy m" "policy (mk_settle mk t k r m) = policy m"
    "policy (mk_invalidate mk k m) = policy m" using l6 [THEN conjunct2] by simp_all
qed

section \<open>Freshness\<close>

definition cache_ttl :: "cache_config \<Rightarrow> lookup \<Rightarrow> duration" where
  "cache_ttl config v = (case v of Found _ \<Rightarrow> cc_ttl config | LookupNotFound \<Rightarrow> cc_negative_ttl config)"

text \<open>
  \<open>loaded_by config loads k at r\<close>: a call for \<open>k\<close> made at \<open>at\<close> may get \<open>r\<close>. It is the result of an
  evaluation for \<open>k\<close> that ended after the call, or, if it is a value, one that ended less than
  the lifetime of the value before the call.
\<close>

definition fresh_for ::
    "cache_config \<Rightarrow> (string \<times> instant \<times> (lookup, 'e) result) list \<Rightarrow> string \<Rightarrow> instant \<Rightarrow> (lookup, 'e) result \<Rightarrow> bool" where
  "fresh_for config loads k called r \<longleftrightarrow>
     (\<exists>t0. (k, t0, r) \<in> set loads
        \<and> (called \<le> t0 \<or> (\<exists>v. r = Ok v \<and> called < t0 + cache_ttl config v)))"

fun caller_fresh ::
    "cache_config \<Rightarrow> (string \<times> instant \<times> (lookup, 'e) result) list \<Rightarrow> instant \<Rightarrow> 'e cache_caller \<Rightarrow> bool" where
  "caller_fresh config loads now (Probed l p t) \<longleftrightarrow> t \<le> now"
| "caller_fresh config loads now (Leading l p t) \<longleftrightarrow> t \<le> now"
| "caller_fresh config loads now (Following l p t) \<longleftrightarrow> t \<le> now"
| "caller_fresh config loads now (Resolved l p t r) \<longleftrightarrow> fresh_for config loads l t r"

definition entries_fresh ::
    "cache_config \<Rightarrow> ('m \<Rightarrow> instant \<Rightarrow> string \<Rightarrow> lookup option) \<Rightarrow> ('m, 'e) cache_sys \<Rightarrow> bool" where
  "entries_fresh config live s \<longleftrightarrow>
     (\<forall>t k v. live (pc_entries (ks_cache s)) t k = Some v \<longrightarrow>
        (\<exists>t0. (k, t0, Ok v) \<in> set (ks_loads s) \<and> t < t0 + cache_ttl config v))"

lemma entries_freshD:
  "entries_fresh config live s \<Longrightarrow> live (pc_entries (ks_cache s)) t k = Some v \<Longrightarrow>
     \<exists>t0. (k, t0, Ok v) \<in> set (ks_loads s) \<and> t < t0 + cache_ttl config v"
  unfolding entries_fresh_def by blast

definition answer_count :: "(bool \<Rightarrow> lookup \<Rightarrow> bool) \<Rightarrow> (string \<times> bool \<times> instant \<times> (lookup, 'e) result) list \<Rightarrow> nat" where
  "answer_count P answers =
     length (filter (\<lambda>(_, present, _, r). case r of Ok v \<Rightarrow> P present v | Err _ \<Rightarrow> False) answers)"

definition cache_counted_ok :: "('m, 'e) cache_sys \<Rightarrow> bool" where
  "cache_counted_ok s \<longleftrightarrow>
     cm_hits (pc_metrics (ks_cache s)) = of_nat (answer_count (\<lambda>present _. present) (ks_answers s))
     \<and> cm_misses (pc_metrics (ks_cache s)) = of_nat (answer_count (\<lambda>present _. \<not> present) (ks_answers s))
     \<and> cm_negative_hits (pc_metrics (ks_cache s))
         = of_nat (answer_count (\<lambda>present v. present \<and> v = LookupNotFound) (ks_answers s))"

definition cache_inv ::
    "cache_config \<Rightarrow> ('m \<Rightarrow> instant \<Rightarrow> string \<Rightarrow> lookup option) \<Rightarrow> ('m \<Rightarrow> lookup \<Rightarrow> duration option)
     \<Rightarrow> ('m, 'e) cache_sys \<Rightarrow> bool" where
  "cache_inv config live policy s \<longleftrightarrow>
     (\<forall>v. policy (pc_entries (ks_cache s)) v = Some (cache_ttl config v))
     \<and> entries_fresh config live s
     \<and> (\<forall>i c. ks_callers s i = Some c \<longrightarrow> caller_fresh config (ks_loads s) (ks_now s) c)
     \<and> (\<forall>(k, _, called, r) \<in> set (ks_answers s). fresh_for config (ks_loads s) k called r)
     \<and> cache_counted_ok s"

lemma fresh_for_mono: "fresh_for config loads k called r \<Longrightarrow> set loads \<subseteq> set loads' \<Longrightarrow> fresh_for config loads' k called r"
  by (auto simp: fresh_for_def)

lemma caller_fresh_mono:
  "caller_fresh config loads now c \<Longrightarrow> now \<le> now' \<Longrightarrow> set loads \<subseteq> set loads' \<Longrightarrow> caller_fresh config loads' now' c"
  by (cases c) (auto intro: fresh_for_mono)

lemma resolve_fresh:
  assumes "caller_fresh config loads now c"
  shows "caller_fresh config ((label, now, r) # loads) now (resolve label r c)"
  using assms by (cases c) (auto simp: fresh_for_def)

lemma answer_count_Cons:
  "answer_count P ((k, p, t, r) # as) = (case r of Ok v \<Rightarrow> if P p v then 1 else 0 | Err _ \<Rightarrow> 0) + answer_count P as"
  by (simp add: answer_count_def split: result.splits)

lemmas cache_defs = set_caller_def set_entries_def cache_probe_def cache_enter_def cache_settle_def cache_return_def
  cache_invalidate_def case_prod_beta Let_def

text \<open>The parts of the invariant are kept by the steps one at a time.\<close>

lemma policy_step:
  assumes "moka_laws mk live policy" "cache_step mk s t"
  shows "policy (pc_entries (ks_cache t)) = policy (pc_entries (ks_cache s))"
  using assms(2) by cases (simp_all add: cache_defs moka_lawsD(8-10) [OF assms(1)] split: result.splits)

lemma loads_step: "cache_step mk s t \<Longrightarrow> set (ks_loads s) \<subseteq> set (ks_loads t) \<and> ks_now s \<le> ks_now t"
  by (erule cache_stepE) (auto simp: cache_defs split: result.splits)

lemma entries_fresh_step:
  assumes laws: "moka_laws mk live policy" and "cache_step mk s t" and "entries_fresh config live s"
    and ttl: "\<forall>v. policy (pc_entries (ks_cache s)) v = Some (cache_ttl config v)"
  shows "entries_fresh config live t"
  using assms(2)
proof cases
  case (cache_loaded i label present called r)
  show ?thesis
    unfolding entries_fresh_def
  proof (intro allI impI)
    fix u k v assume "live (pc_entries (ks_cache t)) u k = Some v"
    then have "live (mk_settle mk (ks_now s) label (ok_value r) (pc_entries (ks_cache s))) u k = Some v"
      by (simp add: cache_loaded cache_defs)
    from moka_lawsD(6) [OF laws this] show "\<exists>t0. (k, t0, Ok v) \<in> set (ks_loads t) \<and> u < t0 + cache_ttl config v"
    proof
      assume "live (pc_entries (ks_cache s)) u k = Some v"
      from entries_freshD [OF assms(3) this] show ?thesis by (auto simp: cache_loaded(1) cache_defs)
    next
      assume "k = label \<and> ok_value r = Some v \<and>
        (\<forall>d. policy (pc_entries (ks_cache s)) v = Some d \<longrightarrow> u < ks_now s + d)"
      then have "k = label" "r = Ok v" "u < ks_now s + cache_ttl config v" using ttl by (cases r; simp)+
      then show ?thesis by (auto simp: cache_loaded(1) cache_defs)
    qed
  qed
next
  case (cache_lookup i label present called)
  show ?thesis
    unfolding entries_fresh_def
  proof (intro allI impI)
    fix u k v assume "live (pc_entries (ks_cache t)) u k = Some v"
    then have "live (snd (mk_try_get mk (ks_now s) label (pc_entries (ks_cache s)))) u k = Some v"
      by (simp add: cache_lookup cache_defs)
    then have "live (pc_entries (ks_cache s)) u k = Some v" by (rule moka_lawsD(5) [OF laws])
    from entries_freshD [OF assms(3) this] show "\<exists>t0. (k, t0, Ok v) \<in> set (ks_loads t) \<and> u < t0 + cache_ttl config v"
      by (simp add: cache_lookup cache_defs)
  qed
next
  case (cache_dropped label)
  show ?thesis
    unfolding entries_fresh_def
  proof (intro allI impI)
    fix u k v assume "live (pc_entries (ks_cache t)) u k = Some v"
    then have "live (mk_invalidate mk label (pc_entries (ks_cache s))) u k = Some v"
      by (simp add: cache_dropped cache_defs)
    then have "live (pc_entries (ks_cache s)) u k = Some v" by (rule moka_lawsD(7) [OF laws, THEN conjunct2])
    from entries_freshD [OF assms(3) this] show "\<exists>t0. (k, t0, Ok v) \<in> set (ks_loads t) \<and> u < t0 + cache_ttl config v"
      by (simp add: cache_dropped cache_defs)
  qed
qed (use assms(3) in \<open>simp_all add: cache_defs entries_fresh_def split: result.splits\<close>)

lemma callers_fresh_step:
  assumes laws: "moka_laws mk live policy" and step: "cache_step mk s t" and "cache_inv config live policy s"
    and "ks_callers t i = Some c"
  shows "caller_fresh config (ks_loads t) (ks_now t) c"
proof -
  have old: "caller_fresh config (ks_loads s) (ks_now s) c'" if "ks_callers s j = Some c'" for j c'
    using assms(3) that by (simp add: cache_inv_def)
  have up: "caller_fresh config (ks_loads t) (ks_now t) c'" if "ks_callers s j = Some c'" for j c'
    using caller_fresh_mono [OF old [OF that]] loads_step [OF step] by blast
  from step show ?thesis
  proof cases
    case (cache_loaded j label present called r)
    then obtain c' where "ks_callers s i = Some c'" "c = resolve label r c'"
      using assms(4) by (auto simp: cache_defs)
    then show ?thesis using resolve_fresh [OF old] cache_loaded by (simp add: cache_defs)
  next
    case (cache_lookup j label present called)
    have "called \<le> ks_now s" using old [OF cache_lookup(2)] by simp
    moreover have "fresh_for config (ks_loads s) label called (Ok v)"
      if "fst (mk_try_get mk (ks_now s) label (pc_entries (ks_cache s))) = Cached v" for v
    proof -
      have "live (pc_entries (ks_cache s)) (ks_now s) label = Some v" using that moka_lawsD(4) [OF laws] by blast
      then obtain t0 where "(label, t0, Ok v) \<in> set (ks_loads s)" "ks_now s < t0 + cache_ttl config v"
        using assms(3) entries_freshD [of config live s] unfolding cache_inv_def by blast
      then show ?thesis using \<open>called \<le> ks_now s\<close> by (auto simp: fresh_for_def)
    qed
    ultimately show ?thesis
      using assms(4) up cache_lookup by (auto simp: cache_defs split: if_splits try_get.splits)
  qed (use assms(4) up in \<open>auto simp: cache_defs split: if_splits\<close>)
qed

lemma answers_step:
  assumes step: "cache_step mk s t" and "cache_inv config live policy s"
  shows "(\<forall>(k, _, called, r) \<in> set (ks_answers t). fresh_for config (ks_loads t) k called r) \<and> cache_counted_ok t"
proof -
  have inv: "\<forall>(k, _, called, r) \<in> set (ks_answers s). fresh_for config (ks_loads s) k called r" "cache_counted_ok s"
    "\<And>i c. ks_callers s i = Some c \<Longrightarrow> caller_fresh config (ks_loads s) (ks_now s) c"
    using assms(2) by (simp_all add: cache_inv_def)
  have up: "\<forall>(k, _, called, r) \<in> set (ks_answers s). fresh_for config (ks_loads t) k called r"
    using inv(1) loads_step [OF step] by (auto intro: fresh_for_mono)
  from step show ?thesis
  proof cases
    case (cache_counted i label present called r)
    have "fresh_for config (ks_loads s) label called r" using inv(3) [OF cache_counted(2)] by simp
    moreover have "cache_counted_ok t"
      using inv(2) by (auto simp: cache_counted cache_counted_ok_def cache_defs answer_count_Cons count_lookup_def
          split: result.splits)
    ultimately show ?thesis using up by (simp add: cache_counted cache_defs)
  qed (use up inv(2) in \<open>simp_all add: cache_defs cache_counted_ok_def\<close>)
qed

lemma cache_inv_start: "moka_laws mk live policy \<Longrightarrow> cache_started mk config s \<Longrightarrow> cache_inv config live policy s"
  by (simp add: cache_inv_def cache_started_def key_cache_new_def moka_lawsD(1,2) entries_fresh_def cache_counted_ok_def
      answer_count_def expire_after_create_def cache_ttl_def split: lookup.splits)

lemma cache_inv_step:
  "moka_laws mk live policy \<Longrightarrow> cache_inv config live policy s \<Longrightarrow> cache_step mk s t \<Longrightarrow> cache_inv config live policy t"
  using policy_step [of mk live policy s t] entries_fresh_step [of mk live policy s t config]
    callers_fresh_step [of mk live policy s t config] answers_step [of mk s t config live policy]
  by (auto simp: cache_inv_def)

interpretation key_cache: inductive_invariant
    "\<lambda>s. moka_laws mk live policy \<and> cache_started mk config s" "cache_step mk"
    "\<lambda>s. moka_laws mk live policy \<and> cache_inv config live policy s"
  for mk live policy config
  by unfold_locales (auto intro: cache_inv_start cache_inv_step)

lemma cache_inv_reachable:
  assumes laws: "moka_laws mk live policy" and "reachable (cache_started mk config) (cache_step mk) s"
  shows "cache_inv config live policy s"
  using key_cache.inv_reachable [of mk live policy config s] assms by (simp add: laws)

text \<open>
  C17. Bounded staleness: whatever the interleaving of callers, evictions and invalidations, what
  a lookup returns for a label is the result of a load of that same label that ended after the
  lookup began, or else a value loaded less than its lifetime before: the configured \<open>ttl\<close> for a
  key, the \<open>negative_ttl\<close> for a missing one. A load error is never returned later.
\<close>

theorem cache_bounded_staleness:
  assumes "moka_laws mk live policy" and "reachable (cache_started mk config) (cache_step mk) s"
    and "(label, present, called, r) \<in> set (ks_answers s)"
  shows "\<exists>t0. (label, t0, r) \<in> set (ks_loads s)
    \<and> (called \<le> t0
       \<or> (\<exists>v. r = Ok v \<and> called < t0 + (case v of Found _ \<Rightarrow> cc_ttl config | LookupNotFound \<Rightarrow> cc_negative_ttl config)))"
  using cache_inv_reachable [OF assms(1,2)] assms(3)
  by (fastforce simp: cache_inv_def fresh_for_def cache_ttl_def)

text \<open>
  The counters: in every reachable state hits and misses count the successful lookups that
  did and did not find the entry present when they began, negative hits the hits that returned a
  missing key; lookups that failed are not counted. Counting is modulo $2^{64}$.
\<close>

theorem cache_counters:
  assumes "reachable (cache_started mk config) (cache_step mk) s" and "moka_laws mk live policy"
  shows "cm_hits (pc_metrics (ks_cache s)) + cm_misses (pc_metrics (ks_cache s))
      = of_nat (length (filter (\<lambda>(_, _, _, r). is_ok r) (ks_answers s)))
    \<and> cm_negative_hits (pc_metrics (ks_cache s))
      = of_nat (length (filter (\<lambda>(_, present, _, r). present \<and> r = Ok LookupNotFound) (ks_answers s)))"
proof -
  have "cache_counted_ok s" using cache_inv_reachable [OF assms(2,1)] by (simp add: cache_inv_def)
  moreover have "answer_count (\<lambda>p _. p) as + answer_count (\<lambda>p _. \<not> p) as = length (filter (\<lambda>(_, _, _, r). is_ok r) as)"
    for as :: "(string \<times> bool \<times> instant \<times> (lookup, 'b) result) list"
    by (induction as) (auto simp: answer_count_def split: result.splits)
  moreover have "answer_count (\<lambda>p v. p \<and> v = LookupNotFound) as
      = length (filter (\<lambda>(_, present, _, r). present \<and> r = Ok LookupNotFound) as)"
    for as :: "(string \<times> bool \<times> instant \<times> (lookup, 'b) result) list"
    by (induction as) (auto simp: answer_count_def split: result.splits)
  ultimately show "cm_hits (pc_metrics (ks_cache s)) + cm_misses (pc_metrics (ks_cache s))
      = of_nat (length (filter (\<lambda>(_, _, _, r). is_ok r) (ks_answers s)))
    \<and> cm_negative_hits (pc_metrics (ks_cache s))
      = of_nat (length (filter (\<lambda>(_, present, _, r). present \<and> r = Ok LookupNotFound) (ks_answers s)))"
    by (simp add: cache_counted_ok_def flip: of_nat_add)
qed

section \<open>The sequential lookup is a run of the concurrent one\<close>

text \<open>
  \<open>get_or_load\<close> without interference refines the step relation: probe, lookup, load and
  count, taken at the times the function reads the clock, are a run that ends with the same
  cache and returns the same answer.
\<close>

theorem get_or_load_refines:
  fixes load :: "('m public_key_cache \<times> 'w, lookup, 'e) io" and s :: "('m, 'e) cache_sys"
  assumes "ks_callers s = Map.empty" and "ks_now s \<le> t 0" and "t 0 \<le> t 1" and "t 1 \<le> t 2"
    and "\<And>c v. load (c, v) = (fst (load (c, v)), (c, snd (snd (load (c, v)))))"
    and "fst (mk_try_get mk (t 1) label (pc_entries (ks_cache s))) \<noteq> Coalesced"
    and run: "get_or_load mk fst apfst t shared label load (ks_cache s, w) = (r, (c', w'))"
  shows "\<exists>s' present. (cache_step mk)\<^sup>*\<^sup>* s s' \<and> ks_cache s' = c' \<and> ks_callers s' = Map.empty
    \<and> ks_answers s' = (label, present, t 0, result_map fst r) # ks_answers s
    \<and> (\<forall>v q. r = Ok (v, q) \<longrightarrow> q = present)"
proof -
  let ?c = "ks_cache s"
  define present where "present = mk_contains_key mk (t 0) label (pc_entries ?c)"
  obtain g m where g: "mk_try_get mk (t (Suc 0)) label (pc_entries ?c) = (g, m)" by fastforce
  let ?s1 = "cache_probe mk 0 label (s\<lparr>ks_now := t 0\<rparr>)"
  let ?s2 = "cache_enter mk 0 label present (t 0) (?s1\<lparr>ks_now := t 1\<rparr>)"
  have "cache_step mk s (s\<lparr>ks_now := t 0\<rparr>)" using assms(2) by (rule cache_tick)
  moreover have "cache_step mk (s\<lparr>ks_now := t 0\<rparr>) ?s1" using assms(1) by (intro cache_call) simp
  moreover have "cache_step mk ?s1 (?s1\<lparr>ks_now := t 1\<rparr>)" using assms(3) by (intro cache_tick) (simp add: cache_defs)
  moreover have "cache_step mk (?s1\<lparr>ks_now := t 1\<rparr>) ?s2"
    by (rule cache_lookup [of _ 0]) (simp add: cache_defs present_def)
  ultimately have entered: "(cache_step mk)\<^sup>*\<^sup>* s ?s2"
    by (meson converse_rtranclp_into_rtranclp r_into_rtranclp rtranclp_trans)
  show ?thesis
  proof (cases g)
    case (Cached v)
    have "cache_step mk ?s2 (cache_return 0 label present (t 0) (Ok v) ?s2)"
      by (rule cache_counted) (simp add: cache_defs g Cached)
    then have "(cache_step mk)\<^sup>*\<^sup>* s (cache_return 0 label present (t 0) (Ok v) ?s2)"
      using entered by (rule rtranclp.rtrancl_into_rtrancl [rotated])
    then show ?thesis
      using run by (intro exI conjI) (auto simp: get_or_load_def try_get_with_by_ref_def cache_defs g Cached assms(1) present_def)
  next
    case Init
    obtain q w1 where l: "load (?c\<lparr>pc_entries := m\<rparr>, w) = (q, (?c\<lparr>pc_entries := m\<rparr>, w1))"
      using assms(5) [of "?c\<lparr>pc_entries := m\<rparr>" w] by (metis prod.collapse)
    let ?s3 = "?s2\<lparr>ks_now := t 2\<rparr>" and ?s4 = "cache_settle mk label q (?s2\<lparr>ks_now := t 2\<rparr>)"
    have "cache_step mk ?s2 ?s3" using assms(4) by (intro cache_tick) (simp add: cache_defs)
    moreover have "cache_step mk ?s3 ?s4" by (rule cache_loaded [of _ 0]) (simp add: cache_defs g Init)
    moreover have "cache_step mk ?s4 (cache_return 0 label present (t 0) q ?s4)"
      by (rule cache_counted) (simp add: cache_defs g Init)
    ultimately have "(cache_step mk)\<^sup>*\<^sup>* s (cache_return 0 label present (t 0) q ?s4)"
      using entered by (meson rtranclp.rtrancl_into_rtrancl)
    then show ?thesis
      using run by (intro exI conjI)
        (auto simp: get_or_load_def try_get_with_by_ref_def cache_defs g Init l assms(1) present_def fun_eq_iff
          split: result.splits)
  qed (use assms(6) g in simp)
qed

section \<open>The hit ratio\<close>

text \<open>
  C33. The hit ratio is a number between zero and one for all values of the counters.
\<close>

theorem hit_ratio_unit:
  "\<exists>q. hit_ratio m = Fin q \<and> 0 \<le> q \<and> q \<le> 1"
proof -
  obtain h where h: "u64_as_f64 (cm_hits m) = Fin h" "0 \<le> h" "h \<le> 2 ^ 64" "rnd h = h" by (rule u64_as_f64_finite)
  obtain n where n: "u64_as_f64 (cm_misses m) = Fin n" "0 \<le> n" "n \<le> 2 ^ 64" by (rule u64_as_f64_finite)
  have "h + n \<le> 2 ^ 70" using h(3) n(3) by simp
  then have total: "f64_of_rat (h + n) = Fin (rnd (h + n))" using f64_of_rat_finite [of "h + n"] h(2) n(2) by simp
  have "h \<le> rnd (h + n)" using rnd_mono [of h "h + n"] h(2,4) n(2) by simp
  moreover have "0 \<le> rnd (h + n)" using h(2) n(2) by simp
  ultimately show ?thesis
    using f64_div_unit [of h "rnd (h + n)"] h(2) by (simp add: hit_ratio_def h(1) n(1) total Let_def)
qed

section \<open>An instance\<close>

text \<open>A map that never evicts, on which the laws hold: each entry is kept with its time of expiry.\<close>

record shelf =
  sh_entries :: "(string, lookup \<times> instant option) hash_map"
  sh_policy :: "lookup \<Rightarrow> duration option"
  sh_loading :: "string list"

definition shelf_live :: "shelf \<Rightarrow> instant \<Rightarrow> string \<Rightarrow> lookup option" where
  "shelf_live m t k =
     (case map_of (sh_entries m) k of
        None \<Rightarrow> None
      | Some (v, None) \<Rightarrow> Some v
      | Some (v, Some e) \<Rightarrow> if t < e then Some v else None)"

definition shelf_moka :: "shelf moka" where
  "shelf_moka =
     \<lparr> mk_build = (\<lambda>_ p. \<lparr> sh_entries = [], sh_policy = p, sh_loading = [] \<rparr>),
       mk_contains_key = (\<lambda>t k m. shelf_live m t k \<noteq> None),
       mk_try_get = (\<lambda>t k m. case shelf_live m t k of
           Some v \<Rightarrow> (Cached v, m)
         | None \<Rightarrow> if k \<in> set (sh_loading m) then (Coalesced, m) else (Init, m\<lparr>sh_loading := k # sh_loading m\<rparr>)),
       mk_settle = (\<lambda>t k r m.
         let m1 = m\<lparr>sh_loading := removeAll k (sh_loading m)\<rparr> in
         case r of
           None \<Rightarrow> m1
         | Some v \<Rightarrow> m1\<lparr>sh_entries := AList.update k (v, map_option ((+) t) (sh_policy m v)) (sh_entries m)\<rparr>),
       mk_invalidate = (\<lambda>k m. m\<lparr>sh_entries := AList.delete k (sh_entries m)\<rparr>),
       mk_entry_count = (\<lambda>m. of_nat (length (sh_entries m))) \<rparr>"

lemma shelf_live_simps [simp]:
  "shelf_live (m\<lparr>sh_loading := l\<rparr>) t k = shelf_live m t k"
  "shelf_live \<lparr> sh_entries = [], sh_policy = p, sh_loading = l \<rparr> t k = None"
  by (simp_all add: shelf_live_def)

lemma shelf_laws: "moka_laws shelf_moka shelf_live sh_policy"
  unfolding moka_laws_def
proof (intro conjI allI)
  fix m t k r t' k' v
  show "shelf_live (mk_settle shelf_moka t k r m) t' k' = Some v \<longrightarrow> shelf_live m t' k' = Some v
      \<or> (k' = k \<and> r = Some v \<and> (\<forall>d. sh_policy m v = Some d \<longrightarrow> t' < t + d))"
    by (cases r) (auto simp: shelf_moka_def shelf_live_def Let_def split: if_splits option.splits)
  show "shelf_live (mk_invalidate shelf_moka k m) t' k' = Some v \<longrightarrow> k' \<noteq> k \<and> shelf_live m t' k' = Some v"
    by (auto simp: shelf_moka_def shelf_live_def delete_conv' split: if_splits)
qed (auto simp: shelf_moka_def Let_def split: option.splits if_splits)

abbreviation "sample_key \<equiv> Found \<lparr> cp_spki_der = [1, 2], cp_key_type = ''EC'' \<rparr>"

text \<open>A first lookup loads the key, one five nanoseconds later finds it.\<close>

definition shelf_start :: "(shelf, string) cache_sys" where
  "shelf_start = \<lparr> ks_cache = key_cache_new shelf_moka cache_config_default, ks_now = 0, ks_callers = Map.empty,
     ks_loads = [], ks_answers = [] \<rparr>"

definition shelf_first :: "(shelf, string) cache_sys" where
  "shelf_first = cache_return 0 ''k'' False 0 (Ok sample_key) (cache_settle shelf_moka ''k'' (Ok sample_key)
     (cache_enter shelf_moka 0 ''k'' False 0 (cache_probe shelf_moka 0 ''k'' shelf_start)))"

definition shelf_second :: "(shelf, string) cache_sys" where
  "shelf_second = cache_return 1 ''k'' True 5 (Ok sample_key)
     (cache_enter shelf_moka 1 ''k'' True 5 (cache_probe shelf_moka 1 ''k'' (shelf_first\<lparr>ks_now := 5\<rparr>)))"

lemmas shelf_simps = shelf_first_def shelf_second_def shelf_start_def shelf_moka_def shelf_live_def key_cache_new_def
  cache_config_default_def expire_after_create_def from_secs_def cache_defs

lemma shelf_first_run: "(cache_step shelf_moka)\<^sup>*\<^sup>* shelf_start shelf_first"
proof -
  let ?a = "cache_probe shelf_moka 0 ''k'' shelf_start"
  let ?b = "cache_enter shelf_moka 0 ''k'' False 0 ?a"
  let ?c = "cache_settle shelf_moka ''k'' (Ok sample_key) ?b"
  have "cache_step shelf_moka shelf_start ?a" by (rule cache_call) (simp add: shelf_start_def)
  moreover have "cache_step shelf_moka ?a ?b" by (rule cache_lookup) (simp add: shelf_simps)
  moreover have "cache_step shelf_moka ?b ?c" by (rule cache_loaded [of _ 0 _ False 0]) (simp add: shelf_simps)
  moreover have "cache_step shelf_moka ?c shelf_first"
    unfolding shelf_first_def by (rule cache_counted) (simp add: shelf_simps)
  ultimately show ?thesis by (meson converse_rtranclp_into_rtranclp r_into_rtranclp)
qed

lemma shelf_second_run: "(cache_step shelf_moka)\<^sup>*\<^sup>* shelf_first shelf_second"
proof -
  let ?a = "shelf_first\<lparr>ks_now := 5\<rparr>"
  let ?b = "cache_probe shelf_moka 1 ''k'' ?a"
  let ?c = "cache_enter shelf_moka 1 ''k'' True 5 ?b"
  have "cache_step shelf_moka shelf_first ?a" by (rule cache_tick) (simp add: shelf_simps)
  moreover have "cache_step shelf_moka ?a ?b" by (rule cache_call) (simp add: shelf_simps)
  moreover have "cache_step shelf_moka ?b ?c" by (rule cache_lookup) (simp add: shelf_simps)
  moreover have "cache_step shelf_moka ?c shelf_second"
    unfolding shelf_second_def by (rule cache_counted) (simp add: shelf_simps)
  ultimately show ?thesis by (meson converse_rtranclp_into_rtranclp r_into_rtranclp)
qed

lemma shelf_reachable: "reachable (cache_started shelf_moka cache_config_default) (cache_step shelf_moka) shelf_second"
proof -
  have "cache_started shelf_moka cache_config_default shelf_start"
    by (simp add: cache_started_def shelf_start_def)
  then show ?thesis
    using shelf_first_run shelf_second_run reachable_start by (metis reachable_steps)
qed

theorem cache_bounded_staleness_witness:
  "(''k'', True, 5, Ok sample_key) \<in> set (ks_answers shelf_second)
   \<and> (\<exists>t0. (''k'', t0, Ok sample_key) \<in> set (ks_loads shelf_second) \<and> (5 \<le> t0 \<or> 5 < t0 + from_secs 300))"
proof -
  have "(''k'', True, 5, Ok sample_key) \<in> set (ks_answers shelf_second)" by (simp add: shelf_simps)
  from cache_bounded_staleness [OF shelf_laws shelf_reachable this] this show ?thesis
    by (simp add: cache_config_default_def)
qed

theorem cache_counters_witness:
  "cm_hits (pc_metrics (ks_cache shelf_second)) + cm_misses (pc_metrics (ks_cache shelf_second)) = 2"
proof -
  have "length (filter (\<lambda>(_, _, _, r). is_ok r) (ks_answers shelf_second)) = 2" by (simp add: shelf_simps)
  then show ?thesis using cache_counters [OF shelf_reachable shelf_laws] by simp
qed

theorem get_or_load_refines_witness:
  "\<exists>s' present. (cache_step shelf_moka)\<^sup>*\<^sup>* shelf_start s'
     \<and> ks_answers s' = [(''k'', present, 1, Ok LookupNotFound :: (lookup, string) result)]"
proof -
  let ?load = "\<lambda>cw. (Ok LookupNotFound, cw) :: (lookup, string) result \<times> shelf public_key_cache \<times> unit"
  obtain r c' w' where run: "get_or_load shelf_moka fst apfst Suc (Err []) ''k'' ?load (ks_cache shelf_start, ()) = (r, (c', w'))"
    by (metis prod.collapse)
  then have "r = Ok (LookupNotFound, False)"
    by (simp add: get_or_load_def try_get_with_by_ref_def shelf_simps)
  then show ?thesis
    using get_or_load_refines [OF _ _ _ _ _ _ run] by (force simp: shelf_simps)
qed

end
