(* ===== verification/Pooled_Service.thy ===== *)
theory Pooled_Service
  imports Authorizer Rate_Limit Breaker Key_Cache Jobs Recorder Wire Sample_Token
begin

text \<open>
  The service in front of the worker pool, \<open>grpc/pooled.rs\<close>: admission, the five handlers,
  the reports to the circuit breaker and the metrics. A handler is a function on the state all
  handlers share. Submitting to the pool is a parameter that may change that state in any
  way, since other requests run while a handler awaits; the properties below hold for every
  such parameter unless they say otherwise.
\<close>

section \<open>The service\<close>

definition GCM_IV_LEN :: nat where
  "GCM_IV_LEN = 12"

text \<open>
  \<open>sv_events\<close> is the log of the process-wide metrics recorder, \<open>sv_drawn\<close> the state of the random number
  generator: how many buffers it has filled.
\<close>

record ('c, 'g, 'm, 'p) pooled_service =
  sv_pool :: 'p
  sv_authorizer :: "authorizer option"
  sv_cache :: "'m public_key_cache"
  sv_rate_limiter :: "('c, 'g) rate_limiter option"
  sv_breaker :: circuit_breaker
  sv_events :: "metric_event list"
  sv_drawn :: nat

definition pooled_new ::
    "'p \<Rightarrow> authorizer option \<Rightarrow> 'm public_key_cache \<Rightarrow> ('c, 'g) rate_limiter option \<Rightarrow> circuit_breaker
     \<Rightarrow> ('c, 'g, 'm, 'p) pooled_service" where
  "pooled_new pool authorizer cache rate_limiter breaker =
     \<lparr> sv_pool = pool, sv_authorizer = authorizer, sv_cache = cache, sv_rate_limiter = rate_limiter,
       sv_breaker = breaker, sv_events = [], sv_drawn = 0 \<rparr>"

record 'a grpc_request =
  rq_peer_certs :: peer_certs
  rq_message :: 'a

text \<open>
  What the handlers call: the certificate parser, the token bucket, the cache map, the
  cryptography, the module's error texts, the pool, the result of a load by another caller for
  a label, the bytes with which the random number generator fills the \<open>k\<close>-th buffer, of length \<open>n\<close>, and
  the text of a status code.
\<close>

record ('c, 'g, 'm, 'p, 'w, 'k, 'sg, 'r) service_deps =
  sd_x509 :: x509_parser
  sd_limiter :: "('c, 'g) limiter_deps"
  sd_moka :: "'m moka"
  sd_lib :: "('k, 'sg, 'r) crypto_lib"
  sd_ck :: "'w cryptoki"
  sd_submit :: "job_request \<Rightarrow> (('c, 'g, 'm, 'p) pooled_service, job_response, pool_error) io"
  sd_shared :: "string \<Rightarrow> (lookup, pool_error) result"
  sd_random :: "nat \<Rightarrow> nat \<Rightarrow> bytes"
  sd_code_description :: "code \<Rightarrow> string"

section \<open>Admission\<close>

text \<open>
  The clock readings of a request are numbered in the order of the code: 0 when it starts, 1 in the
  breaker, 2 in the limiter, 3 to 5 in the cache, 6 to 8 when its outcome is reported, 9 when it is
  recorded.
\<close>

type_synonym readings = "nat \<Rightarrow> instant"

definition check_breaker :: "instant \<Rightarrow> (('c, 'g, 'm, 'p) pooled_service, unit, status) io" where
  "check_breaker now sv =
     (let (ok, b) = allow now (sv_breaker sv); sv1 = sv\<lparr>sv_breaker := b\<rparr> in
      if ok then (Ok (), sv1)
      else (Err (status_new Unavailable ''circuit breaker is open; the HSM is failing. Retry after backoff.''), sv1))"

definition check_identity ::
    "x509_parser \<Rightarrow> peer_certs \<Rightarrow> string \<Rightarrow> operation \<Rightarrow> (('c, 'g, 'm, 'p) pooled_service, string option, status) io" where
  "check_identity from_der certs key_label operation sv =
     (case sv_authorizer sv of
        None \<Rightarrow> (Ok None, sv)
      | Some az \<Rightarrow>
          (let (r, az1) = authorize from_der certs key_label operation az
           in (result_map Some r, sv\<lparr>sv_authorizer := Some az1\<rparr>)))"

definition check_share ::
    "('c, 'g) limiter_deps \<Rightarrow> instant \<Rightarrow> string option \<Rightarrow> (('c, 'g, 'm, 'p) pooled_service, unit, status) io" where
  "check_share deps now identity sv =
     (case (sv_rate_limiter sv, identity) of
        (Some limiter, Some name) \<Rightarrow>
          (let (ok, rl) = rate_check deps now name limiter; sv1 = sv\<lparr>sv_rate_limiter := Some rl\<rparr> in
           if ok then (Ok (), sv1)
           else (Err (status_new ResourceExhausted ''rate limit exceeded for this workload identity''), sv1))
      | _ \<Rightarrow> (Ok (), sv))"

definition admit ::
    "('c, 'g, 'm, 'p, 'w, 'k, 'sg, 'r) service_deps \<Rightarrow> readings \<Rightarrow> peer_certs \<Rightarrow> string \<Rightarrow> operation
     \<Rightarrow> (('c, 'g, 'm, 'p) pooled_service, unit, status) io" where
  "admit deps tm certs key_label operation =
     io_bind (check_breaker (tm 1))
       (\<lambda>_. io_bind (check_identity (sd_x509 deps) certs key_label operation)
       (\<lambda>identity. check_share (sd_limiter deps) (tm 2) identity))"

section \<open>Reports\<close>

definition record_request ::
    "('c, 'g, 'm, 'p, 'w, 'k, 'sg, 'r) service_deps \<Rightarrow> string \<Rightarrow> instant \<Rightarrow> instant \<Rightarrow> ('a, status) result
     \<Rightarrow> ('c, 'g, 'm, 'p) pooled_service \<Rightarrow> ('c, 'g, 'm, 'p) pooled_service" where
  "record_request deps operation started now result sv =
     (let code = (case result of Ok _ \<Rightarrow> ''ok'' | Err status \<Rightarrow> sd_code_description deps (st_code status));
          op = [(''operation'', operation)];
          requests = [CounterIncrement REQUESTS_TOTAL [(''operation'', operation), (''result'', code)] 1,
                      HistogramRecord REQUEST_DURATION op (as_secs_f64 (elapsed now started))];
          outcome =
            (case result of
               Err status \<Rightarrow>
                 (case st_code status of
                    ResourceExhausted \<Rightarrow> [CounterIncrement RATE_LIMITED op 1]
                  | PermissionDenied \<Rightarrow> [CounterIncrement AUTHZ_DENIED op 1]
                  | Unauthenticated \<Rightarrow> [CounterIncrement UNAUTHENTICATED [] 1]
                  | _ \<Rightarrow> [])
             | Ok _ \<Rightarrow> [CounterIncrement AUTHZ_ALLOWED op 1])
      in sv\<lparr>sv_events := sv_events sv @ requests @ outcome\<rparr>)"

definition observe ::
    "readings \<Rightarrow> ('a, status) result \<Rightarrow> ('c, 'g, 'm, 'p) pooled_service \<Rightarrow> ('c, 'g, 'm, 'p) pooled_service" where
  "observe tm result sv =
     (case result of
        Ok _ \<Rightarrow> sv\<lparr>sv_breaker := record_success (tm 6) (tm 7) (sv_breaker sv)\<rparr>
      | Err status \<Rightarrow>
          (case st_code status of
             Internal \<Rightarrow> sv\<lparr>sv_breaker := record_failure (tm 6) (tm 7) (tm 8) (sv_breaker sv)\<rparr>
           | DeadlineExceeded \<Rightarrow> sv\<lparr>sv_breaker := record_failure (tm 6) (tm 7) (tm 8) (sv_breaker sv)\<rparr>
           | _ \<Rightarrow> sv\<lparr>sv_breaker := record_success (tm 6) (tm 7) (sv_breaker sv)\<rparr>))"

fun to_status :: "pool_error \<Rightarrow> status" where
  "to_status (KeyNotFound label) =
     status_new NotFound (''no key labelled '' @ quote @ label @ quote @ '' on the token'')"
| "to_status (InvalidRequest message) = status_new InvalidArgument message"
| "to_status Overloaded = status_new ResourceExhausted ''request queue is full; retry after backing off''"
| "to_status Timeout = status_new DeadlineExceeded ''timed out waiting for a worker''"
| "to_status ShuttingDown = status_new Unavailable ''server is shutting down''"
| "to_status (Hsm operation source) = status_new Internal (operation @ '' failed'')"
| "to_status (InternalError message) = status_new Internal ''internal error''"

section \<open>Public keys\<close>

fun public_key_outcome :: "(job_response, pool_error) result \<Rightarrow> (lookup, pool_error) result" where
  "public_key_outcome (Ok (PublicKey spki_der key_type)) =
     Ok (Found \<lparr> cp_spki_der = spki_der, cp_key_type = key_type \<rparr>)"
| "public_key_outcome (Ok _) = Err (InternalError ''worker returned the wrong response variant'')"
| "public_key_outcome (Err (KeyNotFound _)) = Ok LookupNotFound"
| "public_key_outcome (Err other) = Err other"

definition public_key ::
    "('c, 'g, 'm, 'p, 'w, 'k, 'sg, 'r) service_deps \<Rightarrow> readings \<Rightarrow> string
     \<Rightarrow> (('c, 'g, 'm, 'p) pooled_service, lookup \<times> bool, status) io" where
  "public_key deps tm key_label sv =
     (let (r, sv1) = get_or_load (sd_moka deps) sv_cache sv_cache_update (\<lambda>i. tm (3 + i)) (sd_shared deps key_label)
            key_label (io_result public_key_outcome (sd_submit deps (JobGetPublicKey key_label))) sv;
          outcome = map_err (\<lambda>e. to_status (InternalError (show_pool_error (sd_ck deps) e))) r
      in (outcome, observe tm outcome sv1))"

section \<open>Helpers\<close>

fun pooled_signing_input :: "signing_input_oneof \<Rightarrow> signing_input" where
  "pooled_signing_input (OneofMessage message) = InputMessage message"
| "pooled_signing_input (OneofDigest digest) = InputDigest digest"

definition pooled_extract_input :: "signing_input_message option \<Rightarrow> (signing_input, status) result" where
  "pooled_extract_input input =
     result_map pooled_signing_input
       (ok_or (status_new InvalidArgument ''input must be set to either message or digest'')
          (Option.bind input sm_input))"

definition pooled_require_aes_gcm :: "i32 \<Rightarrow> (unit, status) result" where
  "pooled_require_aes_gcm mechanism =
     (case cipher_mechanism_of mechanism of
        Some AesGcm \<Rightarrow> Ok ()
      | _ \<Rightarrow> Err (status_new InvalidArgument ''only CIPHER_MECHANISM_AES_GCM is supported''))"

definition pooled_key_not_found :: "string \<Rightarrow> status" where
  "pooled_key_not_found label = status_new NotFound (''no key labelled '' @ quote @ label @ quote @ '' on the token'')"

definition unexpected :: "job_response \<Rightarrow> status" where
  "unexpected response = status_new Internal ''internal error''"

text \<open>\<open>pool.submit(..).await.map_err(to_status)\<close>, reported to the breaker whatever it is.\<close>

definition submit_observed ::
    "('c, 'g, 'm, 'p, 'w, 'k, 'sg, 'r) service_deps \<Rightarrow> readings \<Rightarrow> job_request
     \<Rightarrow> (('c, 'g, 'm, 'p) pooled_service, job_response, status) io" where
  "submit_observed deps tm request sv =
     (let (r, sv1) = sd_submit deps request sv; response = map_err to_status r
      in (response, observe tm response sv1))"

section \<open>Handlers\<close>

text \<open>Each handler is its admission followed by a body that runs on the admitted request.\<close>

definition sign_body ::
    "('c, 'g, 'm, 'p, 'w, 'k, 'sg, 'r) service_deps \<Rightarrow> readings \<Rightarrow> sign_request
     \<Rightarrow> (('c, 'g, 'm, 'p) pooled_service, sign_response, status) io" where
  "sign_body deps tm request =
     io_bind (io_lift (pooled_extract_input (sr_input request)))
       (\<lambda>input. io_bind (io_lift (map_err (\<lambda>e. status_new InvalidArgument (show_anyhow (show_cause (sd_ck deps)) e))
                                    (prepare (sd_lib deps) (sr_mechanism request) input)))
       (\<lambda>prepared. io_bind (submit_observed deps tm
                              (JobSign (sr_key_label request) (po_algorithm prepared) (po_payload prepared)))
       (\<lambda>response. case response of
            Signature signature \<Rightarrow> io_return \<lparr> sp_signature = signature, sp_key_label = sr_key_label request \<rparr>
          | other \<Rightarrow> io_throw (unexpected other))))"

definition sign_inner ::
    "('c, 'g, 'm, 'p, 'w, 'k, 'sg, 'r) service_deps \<Rightarrow> readings \<Rightarrow> sign_request grpc_request
     \<Rightarrow> (('c, 'g, 'm, 'p) pooled_service, sign_response, status) io" where
  "sign_inner deps tm request =
     io_bind (admit deps tm (rq_peer_certs request) (sr_key_label (rq_message request)) Sign)
       (\<lambda>_. sign_body deps tm (rq_message request))"

definition verify_body ::
    "('c, 'g, 'm, 'p, 'w, 'k, 'sg, 'r) service_deps \<Rightarrow> readings \<Rightarrow> verify_request
     \<Rightarrow> (('c, 'g, 'm, 'p) pooled_service, verify_response, status) io" where
  "verify_body deps tm request =
     io_bind (io_lift (pooled_extract_input (vr_input request)))
       (\<lambda>input. io_bind (public_key deps tm (vr_key_label request))
       (\<lambda>(found, served_from_cache). case found of
            LookupNotFound \<Rightarrow> io_throw (pooled_key_not_found (vr_key_label request))
          | Found key \<Rightarrow>
              io_bind (io_lift (map_err (\<lambda>_. status_new Internal ''verification failed'')
                         (verify_public (sd_lib deps) (cp_spki_der key) (vr_mechanism request) input (vr_signature request))))
                (\<lambda>valid. io_return \<lparr> vp_valid = valid, vp_served_from_cache = served_from_cache \<rparr>)))"

definition verify_inner ::
    "('c, 'g, 'm, 'p, 'w, 'k, 'sg, 'r) service_deps \<Rightarrow> readings \<Rightarrow> verify_request grpc_request
     \<Rightarrow> (('c, 'g, 'm, 'p) pooled_service, verify_response, status) io" where
  "verify_inner deps tm request =
     io_bind (admit deps tm (rq_peer_certs request) (vr_key_label (rq_message request)) Verify)
       (\<lambda>_. verify_body deps tm (rq_message request))"

text \<open>\<open>thread_rng().fill_bytes(&mut iv)\<close>.\<close>

definition draw_iv ::
    "('c, 'g, 'm, 'p, 'w, 'k, 'sg, 'r) service_deps \<Rightarrow> (('c, 'g, 'm, 'p) pooled_service, bytes, status) io" where
  "draw_iv deps sv = (Ok (sd_random deps (sv_drawn sv) GCM_IV_LEN), sv\<lparr>sv_drawn := Suc (sv_drawn sv)\<rparr>)"

definition encrypt_body ::
    "('c, 'g, 'm, 'p, 'w, 'k, 'sg, 'r) service_deps \<Rightarrow> readings \<Rightarrow> encrypt_request
     \<Rightarrow> (('c, 'g, 'm, 'p) pooled_service, encrypt_response, status) io" where
  "encrypt_body deps tm request =
     io_bind (io_lift (pooled_require_aes_gcm (er_mechanism request)))
       (\<lambda>_. io_bind (draw_iv deps)
       (\<lambda>iv. io_bind (submit_observed deps tm
                        (JobEncrypt (er_key_label request) (er_plaintext request) (er_associated_data request) iv))
       (\<lambda>response. case response of
            Ciphertext ciphertext \<Rightarrow> io_return \<lparr> ep_ciphertext = ciphertext, ep_iv = iv \<rparr>
          | other \<Rightarrow> io_throw (unexpected other))))"

definition encrypt_inner ::
    "('c, 'g, 'm, 'p, 'w, 'k, 'sg, 'r) service_deps \<Rightarrow> readings \<Rightarrow> encrypt_request grpc_request
     \<Rightarrow> (('c, 'g, 'm, 'p) pooled_service, encrypt_response, status) io" where
  "encrypt_inner deps tm request =
     io_bind (admit deps tm (rq_peer_certs request) (er_key_label (rq_message request)) Encrypt)
       (\<lambda>_. encrypt_body deps tm (rq_message request))"

definition pooled_iv_length_error :: "bytes \<Rightarrow> status" where
  "pooled_iv_length_error iv =
     status_new InvalidArgument (''iv must be '' @ show_nat GCM_IV_LEN @ '' bytes, got '' @ show_nat (length iv))"

definition decrypt_body ::
    "('c, 'g, 'm, 'p, 'w, 'k, 'sg, 'r) service_deps \<Rightarrow> readings \<Rightarrow> decrypt_request
     \<Rightarrow> (('c, 'g, 'm, 'p) pooled_service, decrypt_response, status) io" where
  "decrypt_body deps tm request =
     io_bind (io_lift (pooled_require_aes_gcm (dr_mechanism request)))
       (\<lambda>_. if length (dr_iv request) \<noteq> GCM_IV_LEN then io_throw (pooled_iv_length_error (dr_iv request))
          else io_bind (submit_observed deps tm
                          (JobDecrypt (dr_key_label request) (dr_ciphertext request) (dr_associated_data request)
                             (dr_iv request)))
       (\<lambda>response. case response of
            Plaintext plaintext \<Rightarrow> io_return \<lparr> dp_plaintext = plaintext \<rparr>
          | other \<Rightarrow> io_throw (unexpected other)))"

definition decrypt_inner ::
    "('c, 'g, 'm, 'p, 'w, 'k, 'sg, 'r) service_deps \<Rightarrow> readings \<Rightarrow> decrypt_request grpc_request
     \<Rightarrow> (('c, 'g, 'm, 'p) pooled_service, decrypt_response, status) io" where
  "decrypt_inner deps tm request =
     io_bind (admit deps tm (rq_peer_certs request) (dr_key_label (rq_message request)) Decrypt)
       (\<lambda>_. decrypt_body deps tm (rq_message request))"

definition get_public_key_body ::
    "('c, 'g, 'm, 'p, 'w, 'k, 'sg, 'r) service_deps \<Rightarrow> readings \<Rightarrow> get_public_key_request
     \<Rightarrow> (('c, 'g, 'm, 'p) pooled_service, get_public_key_response, status) io" where
  "get_public_key_body deps tm request =
     io_bind (public_key deps tm (gr_key_label request))
       (\<lambda>(found, served_from_cache). case found of
            LookupNotFound \<Rightarrow> io_throw (pooled_key_not_found (gr_key_label request))
          | Found key \<Rightarrow>
              io_return \<lparr> kp_spki_der = cp_spki_der key, kp_key_type = cp_key_type key,
                          kp_served_from_cache = served_from_cache \<rparr>)"

definition get_public_key_inner ::
    "('c, 'g, 'm, 'p, 'w, 'k, 'sg, 'r) service_deps \<Rightarrow> readings \<Rightarrow> get_public_key_request grpc_request
     \<Rightarrow> (('c, 'g, 'm, 'p) pooled_service, get_public_key_response, status) io" where
  "get_public_key_inner deps tm request =
     io_bind (admit deps tm (rq_peer_certs request) (gr_key_label (rq_message request)) GetPublicKey)
       (\<lambda>_. get_public_key_body deps tm (rq_message request))"

section \<open>The five calls\<close>

definition recorded ::
    "('c, 'g, 'm, 'p, 'w, 'k, 'sg, 'r) service_deps \<Rightarrow> string \<Rightarrow> readings
     \<Rightarrow> (('c, 'g, 'm, 'p) pooled_service, 'a, status) io \<Rightarrow> (('c, 'g, 'm, 'p) pooled_service, 'a, status) io" where
  "recorded deps operation tm m sv =
     (let (result, sv1) = m sv in (result, record_request deps operation (tm 0) (tm 9) result sv1))"

definition sign where "sign deps tm request = recorded deps ''sign'' tm (sign_inner deps tm request)"

definition verify where "verify deps tm request = recorded deps ''verify'' tm (verify_inner deps tm request)"

definition encrypt where "encrypt deps tm request = recorded deps ''encrypt'' tm (encrypt_inner deps tm request)"

definition decrypt where "decrypt deps tm request = recorded deps ''decrypt'' tm (decrypt_inner deps tm request)"

definition get_public_key where
  "get_public_key deps tm request = recorded deps ''get_public_key'' tm (get_public_key_inner deps tm request)"

text \<open>The calls under one name, as the trait \<open>HsmService\<close> offers them.\<close>

datatype rpc =
    RpcSign sign_request
  | RpcVerify verify_request
  | RpcEncrypt encrypt_request
  | RpcDecrypt decrypt_request
  | RpcGetPublicKey get_public_key_request

datatype reply =
    ReplySign sign_response
  | ReplyVerify verify_response
  | ReplyEncrypt encrypt_response
  | ReplyDecrypt decrypt_response
  | ReplyGetPublicKey get_public_key_response

fun rpc_label :: "rpc \<Rightarrow> string" where
  "rpc_label (RpcSign q) = sr_key_label q"
| "rpc_label (RpcVerify q) = vr_key_label q"
| "rpc_label (RpcEncrypt q) = er_key_label q"
| "rpc_label (RpcDecrypt q) = dr_key_label q"
| "rpc_label (RpcGetPublicKey q) = gr_key_label q"

fun rpc_operation :: "rpc \<Rightarrow> operation" where
  "rpc_operation (RpcSign _) = Sign"
| "rpc_operation (RpcVerify _) = Verify"
| "rpc_operation (RpcEncrypt _) = Encrypt"
| "rpc_operation (RpcDecrypt _) = Decrypt"
| "rpc_operation (RpcGetPublicKey _) = GetPublicKey"

fun serve ::
    "('c, 'g, 'm, 'p, 'w, 'k, 'sg, 'r) service_deps \<Rightarrow> readings \<Rightarrow> peer_certs \<Rightarrow> rpc
     \<Rightarrow> (('c, 'g, 'm, 'p) pooled_service, reply, status) io" where
  "serve deps tm certs (RpcSign q) =
     io_result (result_map ReplySign) (sign deps tm \<lparr> rq_peer_certs = certs, rq_message = q \<rparr>)"
| "serve deps tm certs (RpcVerify q) =
     io_result (result_map ReplyVerify) (verify deps tm \<lparr> rq_peer_certs = certs, rq_message = q \<rparr>)"
| "serve deps tm certs (RpcEncrypt q) =
     io_result (result_map ReplyEncrypt) (encrypt deps tm \<lparr> rq_peer_certs = certs, rq_message = q \<rparr>)"
| "serve deps tm certs (RpcDecrypt q) =
     io_result (result_map ReplyDecrypt) (decrypt deps tm \<lparr> rq_peer_certs = certs, rq_message = q \<rparr>)"
| "serve deps tm certs (RpcGetPublicKey q) =
     io_result (result_map ReplyGetPublicKey) (get_public_key deps tm \<lparr> rq_peer_certs = certs, rq_message = q \<rparr>)"

section \<open>The handlers in stages\<close>

text \<open>
  A handler waits once, for the pool or for the cache. \<open>rpc_prepare\<close> is what it does between its admission
  and that point, \<open>rpc_await\<close> the wait, \<open>rpc_finish\<close> what comes after, beginning with the report to the
  breaker.
\<close>

fun rpc_body ::
    "('c, 'g, 'm, 'p, 'w, 'k, 'sg, 'r) service_deps \<Rightarrow> readings \<Rightarrow> rpc
     \<Rightarrow> (('c, 'g, 'm, 'p) pooled_service, reply, status) io" where
  "rpc_body deps tm (RpcSign q) = io_result (result_map ReplySign) (sign_body deps tm q)"
| "rpc_body deps tm (RpcVerify q) = io_result (result_map ReplyVerify) (verify_body deps tm q)"
| "rpc_body deps tm (RpcEncrypt q) = io_result (result_map ReplyEncrypt) (encrypt_body deps tm q)"
| "rpc_body deps tm (RpcDecrypt q) = io_result (result_map ReplyDecrypt) (decrypt_body deps tm q)"
| "rpc_body deps tm (RpcGetPublicKey q) = io_result (result_map ReplyGetPublicKey) (get_public_key_body deps tm q)"

datatype work = PoolWork job_request | KeyWork string

datatype awaited = PoolAnswer job_request "(job_response, status) result" | KeyAnswer "(lookup \<times> bool, status) result"

fun rpc_prepare ::
    "('c, 'g, 'm, 'p, 'w, 'k, 'sg, 'r) service_deps \<Rightarrow> rpc \<Rightarrow> (('c, 'g, 'm, 'p) pooled_service, work, status) io" where
  "rpc_prepare deps (RpcSign q) =
     io_bind (io_lift (pooled_extract_input (sr_input q)))
       (\<lambda>input. io_bind (io_lift (map_err (\<lambda>e. status_new InvalidArgument (show_anyhow (show_cause (sd_ck deps)) e))
                                    (prepare (sd_lib deps) (sr_mechanism q) input)))
       (\<lambda>prepared. io_return (PoolWork (JobSign (sr_key_label q) (po_algorithm prepared) (po_payload prepared)))))"
| "rpc_prepare deps (RpcVerify q) =
     io_bind (io_lift (pooled_extract_input (vr_input q))) (\<lambda>_. io_return (KeyWork (vr_key_label q)))"
| "rpc_prepare deps (RpcEncrypt q) =
     io_bind (io_lift (pooled_require_aes_gcm (er_mechanism q)))
       (\<lambda>_. io_bind (draw_iv deps)
       (\<lambda>iv. io_return (PoolWork (JobEncrypt (er_key_label q) (er_plaintext q) (er_associated_data q) iv))))"
| "rpc_prepare deps (RpcDecrypt q) =
     io_bind (io_lift (pooled_require_aes_gcm (dr_mechanism q)))
       (\<lambda>_. if length (dr_iv q) \<noteq> GCM_IV_LEN then io_throw (pooled_iv_length_error (dr_iv q))
          else io_return (PoolWork (JobDecrypt (dr_key_label q) (dr_ciphertext q) (dr_associated_data q) (dr_iv q))))"
| "rpc_prepare deps (RpcGetPublicKey q) = io_return (KeyWork (gr_key_label q))"

definition key_status :: "'w cryptoki \<Rightarrow> (lookup \<times> bool, pool_error) result \<Rightarrow> (lookup \<times> bool, status) result" where
  "key_status ck = map_err (\<lambda>e. to_status (InternalError (show_pool_error ck e)))"

fun rpc_await ::
    "('c, 'g, 'm, 'p, 'w, 'k, 'sg, 'r) service_deps \<Rightarrow> readings \<Rightarrow> work
     \<Rightarrow> (('c, 'g, 'm, 'p) pooled_service, awaited, status) io" where
  "rpc_await deps tm (PoolWork request) =
     io_result (\<lambda>r. Ok (PoolAnswer request (map_err to_status r))) (sd_submit deps request)"
| "rpc_await deps tm (KeyWork key_label) =
     io_result (\<lambda>r. Ok (KeyAnswer (key_status (sd_ck deps) r)))
       (get_or_load (sd_moka deps) sv_cache sv_cache_update (\<lambda>i. tm (3 + i)) (sd_shared deps key_label)
          key_label (io_result public_key_outcome (sd_submit deps (JobGetPublicKey key_label))))"

definition observed :: "readings \<Rightarrow> ('a, status) result \<Rightarrow> (('c, 'g, 'm, 'p) pooled_service, 'a, status) io" where
  "observed tm r sv = (r, observe tm r sv)"

fun job_reply :: "job_request \<Rightarrow> rpc \<Rightarrow> job_response \<Rightarrow> (reply, status) result" where
  "job_reply request (RpcSign q) (Signature signature) =
     Ok (ReplySign \<lparr> sp_signature = signature, sp_key_label = sr_key_label q \<rparr>)"
| "job_reply request (RpcEncrypt q) (Ciphertext ciphertext) =
     (case request of
        JobEncrypt _ _ _ iv \<Rightarrow> Ok (ReplyEncrypt \<lparr> ep_ciphertext = ciphertext, ep_iv = iv \<rparr>)
      | _ \<Rightarrow> Err (unexpected (Ciphertext ciphertext)))"
| "job_reply request (RpcDecrypt q) (Plaintext plaintext) = Ok (ReplyDecrypt \<lparr> dp_plaintext = plaintext \<rparr>)"
| "job_reply request _ other = Err (unexpected other)"

fun key_reply :: "('c, 'g, 'm, 'p, 'w, 'k, 'sg, 'r) service_deps \<Rightarrow> rpc \<Rightarrow> lookup \<times> bool \<Rightarrow> (reply, status) result" where
  "key_reply deps rpc (LookupNotFound, _) = Err (pooled_key_not_found (rpc_label rpc))"
| "key_reply deps (RpcVerify q) (Found key, served_from_cache) =
     and_then (pooled_extract_input (vr_input q))
       (\<lambda>input. result_map (\<lambda>valid. ReplyVerify \<lparr> vp_valid = valid, vp_served_from_cache = served_from_cache \<rparr>)
          (map_err (\<lambda>_. status_new Internal ''verification failed'')
             (verify_public (sd_lib deps) (cp_spki_der key) (vr_mechanism q) input (vr_signature q))))"
| "key_reply deps _ (Found key, served_from_cache) =
     Ok (ReplyGetPublicKey \<lparr> kp_spki_der = cp_spki_der key, kp_key_type = cp_key_type key,
                             kp_served_from_cache = served_from_cache \<rparr>)"

fun rpc_finish ::
    "('c, 'g, 'm, 'p, 'w, 'k, 'sg, 'r) service_deps \<Rightarrow> readings \<Rightarrow> rpc \<Rightarrow> awaited
     \<Rightarrow> (('c, 'g, 'm, 'p) pooled_service, reply, status) io" where
  "rpc_finish deps tm rpc (PoolAnswer request r) =
     io_bind (observed tm r) (\<lambda>response. io_lift (job_reply request rpc response))"
| "rpc_finish deps tm rpc (KeyAnswer r) = io_bind (observed tm r) (\<lambda>found. io_lift (key_reply deps rpc found))"

lemma record_result_map: "record_request deps op t t' (result_map f r) sv = record_request deps op t t' r sv"
  by (cases r) (simp_all add: record_request_def)

lemma recorded_map:
  "io_result (result_map g) (recorded deps op tm (io_bind m (\<lambda>_. b)))
     = recorded deps op tm (io_bind m (\<lambda>_. io_result (result_map g) b))"
  by (rule ext) (simp add: io_result_def recorded_def io_bind_def record_result_map record_request_def [of _ _ _ _ "Err _"]
      split: prod.splits result.splits)

lemma serve_parts:
  "serve deps tm certs rpc =
     recorded deps (operation_as_str (rpc_operation rpc)) tm
       (io_bind (admit deps tm certs (rpc_label rpc) (rpc_operation rpc)) (\<lambda>_. rpc_body deps tm rpc))"
  by (cases rpc) (simp_all add: sign_def verify_def encrypt_def decrypt_def get_public_key_def sign_inner_def
      verify_inner_def encrypt_inner_def decrypt_inner_def get_public_key_inner_def recorded_map)

lemma awaited_then:
  "io_bind (rpc_await deps tm (PoolWork request)) (rpc_finish deps tm rpc)
     = io_bind (submit_observed deps tm request) (\<lambda>response. io_lift (job_reply request rpc response))"
  "io_bind (rpc_await deps tm (KeyWork label)) (rpc_finish deps tm rpc)
     = io_bind (public_key deps tm label) (\<lambda>found. io_lift (key_reply deps rpc found))"
  by (rule ext, simp add: submit_observed_def public_key_def key_status_def observed_def io_bind_def
      io_result_def Let_def split: prod.split)+

lemma io_result_bind: "io_result (result_map f) (io_bind m k) = io_bind m (\<lambda>x. io_result (result_map f) (k x))"
  by (rule ext) (simp add: io_result_def io_bind_def split: prod.split result.split)

lemma io_bind_return: "io_bind (io_return x) k = k x"
  by (simp add: io_bind_def io_return_def fun_eq_iff)

lemma replies:
  "io_result (result_map ReplySign) (case response of
      Signature signature \<Rightarrow> io_return \<lparr> sp_signature = signature, sp_key_label = sr_key_label q1 \<rparr>
    | other \<Rightarrow> io_throw (unexpected other)) = io_lift (job_reply request (RpcSign q1) response)"
  "io_result (result_map ReplyEncrypt) (case response of
      Ciphertext ciphertext \<Rightarrow> io_return \<lparr> ep_ciphertext = ciphertext, ep_iv = iv \<rparr>
    | other \<Rightarrow> io_throw (unexpected other)) = io_lift (job_reply (JobEncrypt l p a iv) (RpcEncrypt q2) response)"
  "io_result (result_map ReplyDecrypt) (case response of
      Plaintext plaintext \<Rightarrow> io_return \<lparr> dp_plaintext = plaintext \<rparr>
    | other \<Rightarrow> io_throw (unexpected other)) = io_lift (job_reply request (RpcDecrypt q3) response)"
  by (cases response; simp add: io_result_def io_return_def io_throw_def io_lift_def)+

lemmas staged = io_bind_assoc io_bind_return awaited_then io_result_bind

lemma body_parts:
  "rpc_body deps tm rpc = io_bind (rpc_prepare deps rpc) (\<lambda>w. io_bind (rpc_await deps tm w) (rpc_finish deps tm rpc))"
proof (cases rpc)
  case (RpcVerify q)
  show ?thesis
    unfolding RpcVerify rpc_body.simps verify_body_def rpc_prepare.simps staged
    by (rule ext) (auto simp: io_result_def io_bind_def io_lift_def io_return_def io_throw_def split: prod.split result.split lookup.split)
next
  case (RpcGetPublicKey q)
  show ?thesis
    unfolding RpcGetPublicKey rpc_body.simps get_public_key_body_def rpc_prepare.simps staged
    by (rule ext) (auto simp: io_result_def io_bind_def io_lift_def io_return_def io_throw_def split: prod.split result.split lookup.split)
next
  case (RpcDecrypt q)
  then show ?thesis
    by (cases "length (dr_iv q) = GCM_IV_LEN")
       (simp_all add: decrypt_body_def staged replies(3) [symmetric] del: rpc_await.simps,
        simp add: io_bind_def io_throw_def io_result_def)
qed (simp_all add: sign_body_def encrypt_body_def staged replies(1,2) [symmetric] del: rpc_await.simps)

text \<open>A handler up to its wait, and the whole call.\<close>

definition call_work ::
    "('c, 'g, 'm, 'p, 'w, 'k, 'sg, 'r) service_deps \<Rightarrow> readings \<Rightarrow> peer_certs \<Rightarrow> rpc
     \<Rightarrow> (('c, 'g, 'm, 'p) pooled_service, work, status) io" where
  "call_work deps tm certs rpc =
     io_bind (admit deps tm certs (rpc_label rpc) (rpc_operation rpc)) (\<lambda>_. rpc_prepare deps rpc)"

lemma serve_stages:
  "serve deps tm certs rpc =
     recorded deps (operation_as_str (rpc_operation rpc)) tm
       (io_bind (call_work deps tm certs rpc) (\<lambda>w. io_bind (rpc_await deps tm w) (rpc_finish deps tm rpc)))"
  by (simp add: serve_parts body_parts call_work_def io_bind_assoc)

section \<open>Admission comes first\<close>

text \<open>
  The interface between a handler and its admission check: the handler is the check and then
  its body. What follows from that alone is proved once for the five handlers.
\<close>

locale guarded_handler =
  fixes gate :: "('s, unit, 'e) io"
    and body :: "('s, 'a, 'e) io"
    and handler :: "('s, 'a, 'e) io"
  assumes handler_eq: "handler = io_bind gate (\<lambda>_. body)"
begin

lemma refused: "gate s = (Err e, s1) \<Longrightarrow> handler s = (Err e, s1)"
  by (simp add: handler_eq io_bind_def)

lemma admitted: "gate s = (Ok u, s1) \<Longrightarrow> handler s = body s1"
  by (simp add: handler_eq io_bind_def)

lemma passed: "handler s = (Ok x, s2) \<Longrightarrow> \<exists>s1. gate s = (Ok (), s1) \<and> body s1 = (Ok x, s2)"
  by (simp add: handler_eq io_bind_Ok_iff)

end

interpretation sign_guard: guarded_handler
    "admit deps tm (rq_peer_certs q) (sr_key_label (rq_message q)) Sign" "sign_body deps tm (rq_message q)"
    "sign_inner deps tm q" for deps tm q
  by unfold_locales (rule sign_inner_def)

interpretation verify_guard: guarded_handler
    "admit deps tm (rq_peer_certs q) (vr_key_label (rq_message q)) Verify" "verify_body deps tm (rq_message q)"
    "verify_inner deps tm q" for deps tm q
  by unfold_locales (rule verify_inner_def)

interpretation encrypt_guard: guarded_handler
    "admit deps tm (rq_peer_certs q) (er_key_label (rq_message q)) Encrypt" "encrypt_body deps tm (rq_message q)"
    "encrypt_inner deps tm q" for deps tm q
  by unfold_locales (rule encrypt_inner_def)

interpretation decrypt_guard: guarded_handler
    "admit deps tm (rq_peer_certs q) (dr_key_label (rq_message q)) Decrypt" "decrypt_body deps tm (rq_message q)"
    "decrypt_inner deps tm q" for deps tm q
  by unfold_locales (rule decrypt_inner_def)

interpretation public_key_guard: guarded_handler
    "admit deps tm (rq_peer_certs q) (gr_key_label (rq_message q)) GetPublicKey"
    "get_public_key_body deps tm (rq_message q)" "get_public_key_inner deps tm q" for deps tm q
  by unfold_locales (rule get_public_key_inner_def)

lemmas rpc_defs = sign_def verify_def encrypt_def decrypt_def get_public_key_def recorded_def

lemma record_request_frame [simp]:
  "sv_pool (record_request deps op t t' r sv) = sv_pool sv"
  "sv_authorizer (record_request deps op t t' r sv) = sv_authorizer sv"
  "sv_cache (record_request deps op t t' r sv) = sv_cache sv"
  "sv_rate_limiter (record_request deps op t t' r sv) = sv_rate_limiter sv"
  "sv_breaker (record_request deps op t t' r sv) = sv_breaker sv"
  by (simp_all add: record_request_def Let_def)

lemma serve_refused:
  assumes "admit deps tm certs (rpc_label rpc) (rpc_operation rpc) sv = (Err e, sv1)"
  shows "\<exists>op. serve deps tm certs rpc sv = (Err e, record_request deps op (tm 0) (tm 9) (Err e :: (reply, status) result) sv1)"
  using assms
  by (cases rpc) (auto simp: rpc_defs io_result_def record_request_def sign_guard.refused verify_guard.refused
      encrypt_guard.refused decrypt_guard.refused public_key_guard.refused)

lemma serve_passed:
  assumes "serve deps tm certs rpc sv = (Ok reply, sv2)"
  shows "\<exists>sv1. admit deps tm certs (rpc_label rpc) (rpc_operation rpc) sv = (Ok (), sv1)"
proof (cases "admit deps tm certs (rpc_label rpc) (rpc_operation rpc) sv")
  case (Pair r sv1)
  then show ?thesis using assms serve_refused [of deps tm certs rpc sv _ sv1] by (cases r) auto
qed

lemma admit_decision:
  assumes "sv_authorizer sv = Some az" and "authorizer_inv (sd_x509 deps) policy az"
  shows "admit deps tm certs label op sv = (Ok (), sv1) \<Longrightarrow>
       \<exists>identity. authorize_spec (sd_x509 deps) policy (certs, label, op) = Ok identity"
    and "authorize_spec (sd_x509 deps) policy (certs, label, op) = Err e \<Longrightarrow>
       \<exists>e' sv1. admit deps tm certs label op sv = (Err e', sv1)
         \<and> (fst (allow (tm 1) (sv_breaker sv)) \<longrightarrow> e' = e)
         \<and> (\<not> fst (allow (tm 1) (sv_breaker sv)) \<longrightarrow> st_code e' = Unavailable)
         \<and> sv_pool sv1 = sv_pool sv \<and> sv_cache sv1 = sv_cache sv \<and> sv_rate_limiter sv1 = sv_rate_limiter sv
         \<and> sv_breaker sv1 = snd (allow (tm 1) (sv_breaker sv)) \<and> sv_events sv1 = sv_events sv"
proof -
  obtain ok b where a: "allow (tm 1) (sv_breaker sv) = (ok, b)" by fastforce
  obtain r az1 where z: "authorize (sd_x509 deps) certs label op az = (r, az1)" by fastforce
  have r: "r = authorize_spec (sd_x509 deps) policy (certs, label, op)"
    using authorize_decision [OF assms(2), of certs label op] by (simp add: z)
  show "admit deps tm certs label op sv = (Ok (), sv1) \<Longrightarrow>
       \<exists>identity. authorize_spec (sd_x509 deps) policy (certs, label, op) = Ok identity"
    using assms(1) by (cases r; cases ok) (auto simp: admit_def io_bind_def check_breaker_def check_identity_def a [simplified] z
        r [symmetric] Let_def)
  show "authorize_spec (sd_x509 deps) policy (certs, label, op) = Err e \<Longrightarrow>
       \<exists>e' sv1. admit deps tm certs label op sv = (Err e', sv1)
         \<and> (fst (allow (tm 1) (sv_breaker sv)) \<longrightarrow> e' = e)
         \<and> (\<not> fst (allow (tm 1) (sv_breaker sv)) \<longrightarrow> st_code e' = Unavailable)
         \<and> sv_pool sv1 = sv_pool sv \<and> sv_cache sv1 = sv_cache sv \<and> sv_rate_limiter sv1 = sv_rate_limiter sv
         \<and> sv_breaker sv1 = snd (allow (tm 1) (sv_breaker sv)) \<and> sv_events sv1 = sv_events sv"
    using assms(1) by (cases ok) (simp_all add: admit_def io_bind_def check_breaker_def check_identity_def
        a [simplified] z r [symmetric])
qed

text \<open>
  No operation without permission: with an authorizer in place, whichever of the five calls
  succeeds, the leaf certificate of the peer gives an identity and the policy allows that
  identity this operation on this key. What the pool and other requests do meanwhile does
  not matter.
\<close>

theorem served_only_if_allowed:
  assumes "sv_authorizer sv = Some az" and "authorizer_inv (sd_x509 deps) policy az"
    and "serve deps tm certs rpc sv = (Ok reply, sv')"
  shows "\<exists>leaf chain identity. certs = Some (leaf # chain) \<and> parse_identity (sd_x509 deps) leaf = Ok identity
    \<and> is_allowed policy identity (rpc_label rpc) (rpc_operation rpc)"
proof -
  obtain sv1 where "admit deps tm certs (rpc_label rpc) (rpc_operation rpc) sv = (Ok (), sv1)"
    using serve_passed [OF assms(3)] by blast
  from admit_decision(1) [OF assms(1,2) this] show ?thesis
    by (auto simp: authorize_spec_Ok_iff identity_source_Ok_iff)
qed

text \<open>
  C9. A refusal costs nothing: a request that the policy does not allow, or that has no
  identity, fails with the authorizer's status, or as unavailable while the circuit is open. It
  submits nothing to the pool, does not look at the key cache, takes no token of a rate
  limit bucket, and is not counted by the circuit breaker as a success or a failure.
\<close>

theorem refused_without_effect:
  assumes "sv_authorizer sv = Some az" and "authorizer_inv (sd_x509 deps) policy az"
    and "authorize_spec (sd_x509 deps) policy (certs, rpc_label rpc, rpc_operation rpc) = Err e"
    and "serve deps tm certs rpc sv = (r, sv')"
  shows "(\<exists>e'. r = Err e' \<and> (if fst (allow (tm 1) (sv_breaker sv)) then e' = e else st_code e' = Unavailable))
    \<and> sv_pool sv' = sv_pool sv \<and> sv_cache sv' = sv_cache sv \<and> sv_rate_limiter sv' = sv_rate_limiter sv
    \<and> sv_breaker sv' = snd (allow (tm 1) (sv_breaker sv))"
proof -
  from admit_decision(2) [OF assms(1-3), of tm] obtain e' sv1
    where adm: "admit deps tm certs (rpc_label rpc) (rpc_operation rpc) sv = (Err e', sv1)"
      and "if fst (allow (tm 1) (sv_breaker sv)) then e' = e else st_code e' = Unavailable"
      and frame: "sv_pool sv1 = sv_pool sv" "sv_cache sv1 = sv_cache sv" "sv_rate_limiter sv1 = sv_rate_limiter sv"
        "sv_breaker sv1 = snd (allow (tm 1) (sv_breaker sv))" by auto
  moreover have "r = Err e' \<and> sv_pool sv' = sv_pool sv1 \<and> sv_cache sv' = sv_cache sv1
      \<and> sv_rate_limiter sv' = sv_rate_limiter sv1 \<and> sv_breaker sv' = sv_breaker sv1"
    using serve_refused [OF adm] assms(4) by auto
  ultimately show ?thesis by simp
qed

section \<open>What reaches the circuit breaker\<close>

lemma observe_frame [simp]:
  "sv_pool (observe tm r sv) = sv_pool sv"
  "sv_authorizer (observe tm r sv) = sv_authorizer sv"
  "sv_cache (observe tm r sv) = sv_cache sv"
  "sv_rate_limiter (observe tm r sv) = sv_rate_limiter sv"
  "sv_events (observe tm r sv) = sv_events sv"
  by (simp_all add: observe_def split: result.splits code.splits)

text \<open>An outcome that says the token is unhealthy.\<close>

definition unhealthy :: "('a, status) result \<Rightarrow> bool" where
  "unhealthy r \<longleftrightarrow> (\<exists>e. r = Err e \<and> st_code e \<in> {Internal, DeadlineExceeded})"

lemma observe_breaker:
  "sv_breaker (observe tm r sv) =
     (if unhealthy r then record_failure (tm 6) (tm 7) (tm 8) (sv_breaker sv) else record_success (tm 6) (tm 7) (sv_breaker sv))"
  by (cases r) (auto simp: observe_def unhealthy_def split: code.splits)

abbreviation closed :: "('c, 'g, 'm, 'p) pooled_service \<Rightarrow> bool" where
  "closed sv \<equiv> breaker_state (sv_breaker sv) = Closed"

lemma record_success_closed: "breaker_state b = Closed \<Longrightarrow> breaker_state (record_success t1 t2 b) = Closed"
  by (simp add: record_success_def Let_def)

lemma observe_closed: "closed sv \<Longrightarrow> \<not> unhealthy r \<Longrightarrow> closed (observe tm r sv)"
  by (simp add: observe_breaker record_success_closed)


lemma check_identity_breaker [simp]: "sv_breaker (snd (check_identity from_der certs label op sv)) = sv_breaker sv"
  by (simp add: check_identity_def case_prod_beta Let_def split: option.splits)

lemma check_share_breaker [simp]: "sv_breaker (snd (check_share deps now identity sv)) = sv_breaker sv"
  by (simp add: check_share_def case_prod_beta Let_def split: option.splits)


text \<open>
  The answers of the pool that say the token failed: the errors of the module, of the worker and of a
  worker that does not answer. A lookup of a public key leaves no other way to fail than a missing key.
\<close>

fun token_failure :: "job_request \<Rightarrow> (job_response, pool_error) result \<Rightarrow> bool" where
  "token_failure (JobGetPublicKey _) r \<longleftrightarrow>
     (case r of Ok (PublicKey _ _) \<Rightarrow> False | Err (KeyNotFound _) \<Rightarrow> False | _ \<Rightarrow> True)"
| "token_failure _ r \<longleftrightarrow>
     (case r of Err (Hsm _ _) \<Rightarrow> True | Err (InternalError _) \<Rightarrow> True | Err Timeout \<Rightarrow> True | _ \<Rightarrow> False)"

text \<open>
  How far a call gets: it may be answered without the pool, because it is refused, malformed or about a
  cached key; it may share the lookup of another call; or it hands a job to the pool, in the state given.
\<close>

datatype 's contact = NoContact | Shares string | Submits job_request 's

definition pool_contact ::
    "('c, 'g, 'm, 'p, 'w, 'k, 'sg, 'r) service_deps \<Rightarrow> readings \<Rightarrow> peer_certs \<Rightarrow> rpc \<Rightarrow> ('c, 'g, 'm, 'p) pooled_service
     \<Rightarrow> ('c, 'g, 'm, 'p) pooled_service contact" where
  "pool_contact deps tm certs rpc sv =
     (case call_work deps tm certs rpc sv of
        (Err _, _) \<Rightarrow> NoContact
      | (Ok (PoolWork request), sv1) \<Rightarrow> Submits request sv1
      | (Ok (KeyWork label), sv1) \<Rightarrow>
          (case mk_try_get (sd_moka deps) (tm 4) label (pc_entries (sv_cache sv1)) of
             (Cached _, _) \<Rightarrow> NoContact
           | (Coalesced, _) \<Rightarrow> Shares label
           | (Init, m) \<Rightarrow> Submits (JobGetPublicKey label) (sv_cache_update (\<lambda>c. c\<lparr>pc_entries := m\<rparr>) sv1)))"






text \<open>What a call waits for: the kind of work fits the call.\<close>

lemma prepare_work:
  assumes "rpc_prepare deps rpc sv = (Ok w, sv1)"
  shows "case w of PoolWork request \<Rightarrow> rpc_operation rpc \<notin> {Verify, GetPublicKey} \<and> (\<forall>l. request \<noteq> JobGetPublicKey l)
    | KeyWork label \<Rightarrow> rpc_operation rpc \<in> {Verify, GetPublicKey} \<and> label = rpc_label rpc"
  using assms by (cases rpc) (auto simp: io_iffs draw_iv_def io_throw_def io_return_def split: if_splits)

lemma call_work_kind:
  assumes "call_work deps tm certs rpc sv = (Ok w, sv1)"
  shows "case w of PoolWork request \<Rightarrow> rpc_operation rpc \<notin> {Verify, GetPublicKey} \<and> (\<forall>l. request \<noteq> JobGetPublicKey l)
    | KeyWork label \<Rightarrow> rpc_operation rpc \<in> {Verify, GetPublicKey} \<and> label = rpc_label rpc"
  using assms prepare_work unfolding call_work_def io_bind_Ok_iff by metis

fun answer_failed :: "awaited \<Rightarrow> bool" where
  "answer_failed (PoolAnswer _ r) = unhealthy r"
| "answer_failed (KeyAnswer r) = unhealthy r"

lemma finish_breaker:
  "sv_breaker (snd (rpc_finish deps tm rpc a sv)) =
     (if answer_failed a then record_failure (tm 6) (tm 7) (tm 8) (sv_breaker sv) else record_success (tm 6) (tm 7) (sv_breaker sv))"
  by (cases a) (auto simp: observed_def io_bind_def io_lift_def observe_breaker split: result.split)

text \<open>The answer of a lookup and the breaker it leaves, by what the map says.\<close>

lemma key_await:
  fixes deps sv
  assumes "mk_try_get (sd_moka deps) (tm 4) label (pc_entries (sv_cache sv)) = (g, m)"
  defines "source \<equiv> (case g of Cached v \<Rightarrow> (Ok v, sv) | Coalesced \<Rightarrow> (sd_shared deps label, sv)
      | Init \<Rightarrow> io_result public_key_outcome (sd_submit deps (JobGetPublicKey label)) (sv_cache_update (\<lambda>c. c\<lparr>pc_entries := m\<rparr>) sv))"
  shows "\<exists>present. fst (rpc_await deps tm (KeyWork label) sv)
        = Ok (KeyAnswer (key_status (sd_ck deps) (result_map (\<lambda>v. (v, present)) (fst source))))
    \<and> sv_breaker (snd (rpc_await deps tm (KeyWork label) sv)) = sv_breaker (snd source)"
proof -
  have "mk_try_get (sd_moka deps) (tm (3 + 1)) label (pc_entries (sv_cache sv)) = (g, m)" using assms(1) by simp
  then show ?thesis
    unfolding source_def
    by (intro exI [of _ "mk_contains_key (sd_moka deps) (tm (3 + 0)) label (pc_entries (sv_cache sv))"], cases g)
       (auto simp: get_or_load_def try_get_with_by_ref_def io_result_def Let_def case_prod_beta
         split: result.splits)
qed

lemma pool_answer_failed:
  "(\<forall>l. request \<noteq> JobGetPublicKey l) \<Longrightarrow> unhealthy (map_err to_status r) \<longleftrightarrow> token_failure request r"
proof -
  assume "\<forall>l. request \<noteq> JobGetPublicKey l"
  moreover have "unhealthy (map_err to_status r) \<longleftrightarrow>
      (case r of Err (Hsm _ _) \<Rightarrow> True | Err (InternalError _) \<Rightarrow> True | Err Timeout \<Rightarrow> True | _ \<Rightarrow> False)"
    by (auto simp: unhealthy_def split: result.splits pool_error.splits)
  ultimately show ?thesis by (cases request) simp_all
qed

lemma key_answer_failed: "unhealthy (key_status ck (result_map f r)) \<longleftrightarrow> \<not> is_ok r"
  by (cases r) (simp_all add: unhealthy_def key_status_def)

lemma unhealthy_key_Ok [simp]: "\<not> unhealthy (key_status ck (Ok x))"
  by (simp add: unhealthy_def key_status_def)

lemma key_outcome_failed: "is_ok (public_key_outcome r) \<longleftrightarrow> \<not> token_failure (JobGetPublicKey label) r"
  by (cases r) (auto split: job_response.splits pool_error.splits)

lemma serve_after_work:
  assumes "call_work deps tm certs rpc sv = (Ok w, sv1)" and "rpc_await deps tm w sv1 = (Ok a, sv2)"
  shows "sv_breaker (snd (serve deps tm certs rpc sv)) = sv_breaker (snd (rpc_finish deps tm rpc a sv2))"
    and "fst (serve deps tm certs rpc sv) = fst (rpc_finish deps tm rpc a sv2)"
  using assms by (simp_all add: serve_stages recorded_def io_bind_def case_prod_beta Let_def)


lemma serve_submitted:
  assumes "pool_contact deps tm certs rpc sv = Submits request sv1" and "sd_submit deps request sv1 = (r, sv2)"
  shows "sv_breaker (snd (serve deps tm certs rpc sv)) =
     (if token_failure request r then record_failure (tm 6) (tm 7) (tm 8) (sv_breaker sv2)
      else record_success (tm 6) (tm 7) (sv_breaker sv2))
    \<and> (rpc_operation rpc \<in> {Verify, GetPublicKey} \<longleftrightarrow> (\<exists>l. request = JobGetPublicKey l))
    \<and> (\<forall>e. r = Err e \<longrightarrow> (\<forall>l. e \<noteq> KeyNotFound l) \<longrightarrow> fst (serve deps tm certs rpc sv) =
         Err (if rpc_operation rpc \<in> {Verify, GetPublicKey} then to_status (InternalError (show_pool_error (sd_ck deps) e)) else to_status e))"
proof -
  obtain w sv0 where work: "call_work deps tm certs rpc sv = (Ok w, sv0)"
    using assms(1) by (auto simp: pool_contact_def split: prod.splits result.splits)
  note kind = call_work_kind [OF work]
  show ?thesis
  proof (cases w)
    case (PoolWork request')
    with assms(1) work have eq: "request' = request" "sv0 = sv1" by (simp_all add: pool_contact_def)
    have await: "rpc_await deps tm w sv0 = (Ok (PoolAnswer request (map_err to_status r)), sv2)"
      using assms(2) by (simp add: PoolWork eq io_result_def)
    have "rpc_operation rpc \<notin> {Verify, GetPublicKey}" "\<forall>l. request \<noteq> JobGetPublicKey l"
      using kind by (simp_all add: PoolWork eq)
    moreover have "fst (serve deps tm certs rpc sv) = Err (to_status e)" if "r = Err e" for e
      using serve_after_work(2) [OF work await] that by (simp add: observed_def io_bind_def)
    ultimately show ?thesis
      using serve_after_work(1) [OF work await] pool_answer_failed [of request r]
      by (simp add: finish_breaker del: rpc_finish.simps)
  next
    case (KeyWork label)
    obtain m where g: "mk_try_get (sd_moka deps) (tm 4) label (pc_entries (sv_cache sv0)) = (Init, m)"
      and eq: "request = JobGetPublicKey label" "sv1 = sv_cache_update (\<lambda>c. c\<lparr>pc_entries := m\<rparr>) sv0"
      using assms(1) work KeyWork by (auto simp: pool_contact_def split: prod.splits try_get.splits)
    have load: "io_result public_key_outcome (sd_submit deps (JobGetPublicKey label)) (sv_cache_update (\<lambda>c. c\<lparr>pc_entries := m\<rparr>) sv0)
        = (public_key_outcome r, sv2)"
      using assms(2) by (simp add: eq io_result_def)
    obtain a sv3 present where await: "rpc_await deps tm w sv0 = (Ok a, sv3)"
      and a: "a = KeyAnswer (key_status (sd_ck deps) (result_map (\<lambda>v. (v, present)) (public_key_outcome r)))"
      and sv3: "sv_breaker sv3 = sv_breaker sv2"
      using key_await [where tm = tm, OF g] unfolding try_get.case load fst_conv snd_conv KeyWork by (metis prod.collapse)
    have "answer_failed a \<longleftrightarrow> token_failure request r"
      using key_outcome_failed [of r label] by (simp add: a key_answer_failed eq del: token_failure.simps)
    moreover have "fst (serve deps tm certs rpc sv) = Err (to_status (InternalError (show_pool_error (sd_ck deps) e)))"
      if "r = Err e" "\<forall>l. e \<noteq> KeyNotFound l" for e
      using that serve_after_work(2) [OF work await] by (cases e) (simp_all add: a key_status_def observed_def io_bind_def)
    ultimately show ?thesis
      using serve_after_work(1) [OF work await] kind
      by (simp add: finish_breaker sv3 KeyWork eq del: token_failure.simps rpc_finish.simps)
  qed
qed



text \<open>
  C36. A full, slow or stopping pool is reported differently for public keys: when the job a call hands to
  the pool is answered that way, \<open>Sign\<close>, \<open>Encrypt\<close> and \<open>Decrypt\<close> fail with \<open>RESOURCE_EXHAUSTED\<close>,
  \<open>DEADLINE_EXCEEDED\<close> and \<open>UNAVAILABLE\<close>, and only the timeout counts against the token; \<open>Verify\<close> and
  \<open>GetPublicKey\<close> fail with \<open>INTERNAL\<close> in all three cases, and the breaker counts a failure of the token.
\<close>

theorem public_key_masks_pool_errors:
  assumes "pool_contact deps tm certs rpc sv = Submits request sv1" and "sd_submit deps request sv1 = (Err e, sv2)"
    and "e \<in> {Overloaded, Timeout, ShuttingDown}" and "serve deps tm certs rpc sv = (r, sv')"
  shows "if rpc_operation rpc \<in> {Verify, GetPublicKey}
    then failed_with Internal r \<and> sv_breaker sv' = record_failure (tm 6) (tm 7) (tm 8) (sv_breaker sv2)
    else failed_with (if e = Overloaded then ResourceExhausted else if e = Timeout then DeadlineExceeded else Unavailable) r
      \<and> sv_breaker sv' = (if e = Timeout then record_failure (tm 6) (tm 7) (tm 8) (sv_breaker sv2)
          else record_success (tm 6) (tm 7) (sv_breaker sv2))"
proof -
  note facts = serve_submitted [OF assms(1,2)] assms(4)
  show ?thesis
  proof (cases "rpc_operation rpc \<in> {Verify, GetPublicKey}")
    case True
    then obtain l where "request = JobGetPublicKey l" using facts by auto
    with True facts assms(3) show ?thesis by (auto simp: failed_with_def)
  next
    case False
    then have "\<forall>l. request \<noteq> JobGetPublicKey l" using facts by auto
    then have "token_failure request (Err e) \<longleftrightarrow> e = Timeout" using assms(3) by (cases request) auto
    with False facts assms(3) show ?thesis by (auto simp: failed_with_def)
  qed
qed

section \<open>What reaches the pool\<close>

text \<open>
  Warm verification leaves the token alone: when the key is in the cache at the probe and
  at the lookup, an admitted \<open>Verify\<close> with a well-formed input is answered by verifying the
  signature in process under the cached key, reported as served from the cache, and the
  pool is not touched.
\<close>

theorem verify_served_from_cache:
  assumes laws: "moka_laws (sd_moka deps) live policy"
    and adm: "admit deps tm (rq_peer_certs q) (vr_key_label (rq_message q)) Verify sv = (Ok (), sv1)"
    and "live (pc_entries (sv_cache sv1)) (tm 3) (vr_key_label (rq_message q)) = Some v0"
    and live: "live (pc_entries (sv_cache sv1)) (tm 4) (vr_key_label (rq_message q)) = Some (Found key)"
    and "pooled_extract_input (vr_input (rq_message q)) = Ok input"
    and "verify_public (sd_lib deps) (cp_spki_der key) (vr_mechanism (rq_message q)) input (vr_signature (rq_message q))
      = Ok valid"
  shows "fst (verify deps tm q sv) = Ok \<lparr> vp_valid = valid, vp_served_from_cache = True \<rparr>
    \<and> sv_pool (snd (verify deps tm q sv)) = sv_pool sv1"
proof -
  let ?label = "vr_key_label (rq_message q)"
  obtain m where "mk_try_get (sd_moka deps) (tm (3 + 1)) ?label (pc_entries (sv_cache sv1)) = (Cached (Found key), m)"
    using moka_lawsD(4) [OF laws, of "tm 4" ?label] live by (metis prod.collapse add_One_commute numeral_plus_one semiring_norm(2,8))
  moreover have "mk_contains_key (sd_moka deps) (tm (3 + 0)) ?label (pc_entries (sv_cache sv1))"
    using moka_lawsD(3) [OF laws] assms(3) by simp
  ultimately have "\<exists>sv2. public_key deps tm ?label sv1 = (Ok (Found key, True), sv2) \<and> sv_pool sv2 = sv_pool sv1"
    by (simp add: public_key_def get_or_load_cached Let_def)
  then obtain sv2 where "public_key deps tm ?label sv1 = (Ok (Found key, True), sv2)" "sv_pool sv2 = sv_pool sv1"
    by blast
  then have "\<exists>sv3. verify_inner deps tm q sv = (Ok \<lparr> vp_valid = valid, vp_served_from_cache = True \<rparr>, sv3)
      \<and> sv_pool sv3 = sv_pool sv1"
    unfolding verify_guard.admitted [OF adm]
    by (simp add: verify_body_def io_bind_def io_lift_def io_return_def assms(5,6))
  then show ?thesis by (auto simp: verify_def recorded_def)
qed

text \<open>
  A signature is made by the token, of what was asked: an answer to \<open>Sign\<close> carries the
  signature that the pool returned for one job with the label of the request, whose mechanism
  and payload prepare the digest of the input in the request; it is never made up or kept.
\<close>

theorem sign_reply_from_pool:
  assumes "sign_inner deps tm q sv = (Ok response, sv')"
  shows "\<exists>input prepared sv1 sv2.
      pooled_extract_input (sr_input (rq_message q)) = Ok input
    \<and> prepare (sd_lib deps) (sr_mechanism (rq_message q)) input = Ok prepared
    \<and> verification_digest (sd_lib deps) prepared = digest_of (sd_lib deps) input
    \<and> sd_submit deps (JobSign (sr_key_label (rq_message q)) (po_algorithm prepared) (po_payload prepared)) sv1
        = (Ok (Signature (sp_signature response)), sv2)
    \<and> sp_key_label response = sr_key_label (rq_message q)"
proof -
  obtain sv1 where body: "sign_body deps tm (rq_message q) sv1 = (Ok response, sv')"
    using sign_guard.passed [OF assms] by blast
  then obtain input prepared r sv2 where i: "pooled_extract_input (sr_input (rq_message q)) = Ok input"
    and p: "prepare (sd_lib deps) (sr_mechanism (rq_message q)) input = Ok prepared"
    and s: "submit_observed deps tm (JobSign (sr_key_label (rq_message q)) (po_algorithm prepared) (po_payload prepared)) sv1
      = (Ok r, sv2)"
    and k: "(case r of Signature signature \<Rightarrow>
        io_return \<lparr> sp_signature = signature, sp_key_label = sr_key_label (rq_message q) \<rparr>
      | other \<Rightarrow> io_throw (unexpected other)) sv2 = (Ok response, sv')"
    by (auto simp: sign_body_def io_iffs)
  then have "r = Signature (sp_signature response)" "sp_key_label response = sr_key_label (rq_message q)"
    by (auto simp: io_return_def io_throw_def split: job_response.splits)
  moreover have "\<exists>sv2'. sd_submit deps (JobSign (sr_key_label (rq_message q)) (po_algorithm prepared) (po_payload prepared)) sv1
      = (Ok r, sv2')"
    using s by (auto simp: submit_observed_def Let_def split: prod.splits)
  ultimately show ?thesis using i p prepare_verification_digest [OF p] by blast
qed

section \<open>Accounting\<close>

text \<open>
  What is kept by the building blocks of a call: anything that does not look at the parts of the
  service they change, or is kept by those changes, if the pool keeps it.
\<close>

definition service_frame :: "x509_parser \<Rightarrow> (('c, 'g, 'm, 'p) pooled_service \<Rightarrow> bool) \<Rightarrow> bool" where
  "service_frame from_der P \<longleftrightarrow>
     (\<forall>sv b. P sv \<longrightarrow> P (sv\<lparr>sv_breaker := b\<rparr>))
     \<and> (\<forall>sv l. P sv \<longrightarrow> P (sv\<lparr>sv_rate_limiter := l\<rparr>))
     \<and> (\<forall>sv c. P sv \<longrightarrow> P (sv\<lparr>sv_cache := c\<rparr>))
     \<and> (\<forall>sv az certs label op. P sv \<longrightarrow> sv_authorizer sv = Some az \<longrightarrow>
          P (sv\<lparr>sv_authorizer := Some (snd (authorize from_der certs label op az))\<rparr>))
     \<and> (\<forall>sv n. P sv \<longrightarrow> P (sv\<lparr>sv_drawn := n\<rparr>))"

lemma service_frameD:
  assumes "service_frame from_der P" and "P sv"
  shows "P (sv\<lparr>sv_breaker := b\<rparr>)" "P (sv\<lparr>sv_rate_limiter := l\<rparr>)" "P (sv\<lparr>sv_cache := c\<rparr>)"
    "sv_authorizer sv = Some az \<Longrightarrow> P (sv\<lparr>sv_authorizer := Some (snd (authorize from_der certs label op az))\<rparr>)"
    "P (sv\<lparr>sv_drawn := n\<rparr>)"
  using assms unfolding service_frame_def by blast+

text \<open>What the pool does and what is then reported to the breaker.\<close>

definition outcome_frame :: "(('c, 'g, 'm, 'p) pooled_service \<Rightarrow> bool) \<Rightarrow> bool" where
  "outcome_frame P \<longleftrightarrow>
     (\<forall>sv c. P sv \<longrightarrow> P (sv\<lparr>sv_cache := c\<rparr>))
     \<and> (\<forall>sv t t'. P sv \<longrightarrow> P (sv\<lparr>sv_breaker := record_success t t' (sv_breaker sv)\<rparr>))
     \<and> (\<forall>sv t t' t''. P sv \<longrightarrow> P (sv\<lparr>sv_breaker := record_failure t t' t'' (sv_breaker sv)\<rparr>))"

lemma outcome_frameD:
  assumes "outcome_frame P" and "P sv"
  shows "P (sv\<lparr>sv_cache := c\<rparr>)" "P (observe tm r sv)"
  using assms by (auto simp: outcome_frame_def observe_def split: result.split code.split)

lemma lookup_kept:
  fixes deps
  assumes frame: "outcome_frame P" and pool: "\<forall>request. io_keeps P (sd_submit deps request)" and sv: "P sv"
  shows "P (snd (get_or_load (sd_moka deps) sv_cache sv_cache_update (\<lambda>i. tm (3 + i)) (sd_shared deps label) label
      (io_result public_key_outcome (sd_submit deps (JobGetPublicKey label))) sv))"
proof -
  have "io_keeps P (io_result public_key_outcome (sd_submit deps (JobGetPublicKey label)))"
    using pool by (intro keeps_intros) simp
  moreover have "P sv \<Longrightarrow> P (sv_cache_update f sv)" for sv f
    using outcome_frameD(1) [OF frame, of sv "f (sv_cache sv)"] by (cases sv) simp
  ultimately show ?thesis
    by (intro get_or_load_inv [where P = P and Q = "\<lambda>_. True", THEN conjunct1]) (auto intro: sv dest: io_keepsD)
qed

lemma work_kept:
  fixes deps
  assumes frame: "outcome_frame P" and pool: "\<forall>request. io_keeps P (sd_submit deps request)"
  shows "io_keeps P (submit_observed deps tm request)" "io_keeps P (public_key deps tm label)"
proof -
  have submit: "io_keeps P (sd_submit deps request)" for request using pool by simp
  note observed = outcome_frameD(2) [OF frame]
  show "io_keeps P (submit_observed deps tm request)"
    by (simp add: io_keeps_def submit_observed_def case_prod_beta Let_def observed io_keepsD [OF submit])
  show "io_keeps P (public_key deps tm label)"
    by (simp add: io_keeps_def public_key_def case_prod_beta Let_def observed lookup_kept [OF frame pool])
qed

lemma parts_kept:
  fixes deps
  assumes frame: "service_frame (sd_x509 deps) P" and pool: "\<forall>request. io_keeps P (sd_submit deps request)"
  shows "io_keeps P (admit deps tm certs label op)" "io_keeps P (submit_observed deps tm request)"
    "io_keeps P (public_key deps tm label)" "io_keeps P (draw_iv deps)"
proof -
  note frames = service_frameD [OF frame]
  have "io_keeps P (check_breaker now)" "io_keeps P (check_share lim now identity)" for now lim identity
    using frames(1,2) by (auto simp: io_keeps_def check_breaker_def check_share_def case_prod_beta Let_def
        split: option.splits)
  moreover have "io_keeps P (check_identity (sd_x509 deps) certs label op)"
    using frames(4) by (auto simp: io_keeps_def check_identity_def case_prod_beta Let_def split: option.splits)
  ultimately show "io_keeps P (admit deps tm certs label op)" unfolding admit_def by (intro keeps_intros)
  have "outcome_frame P" using frames(1,3) by (auto simp: outcome_frame_def)
  then show "io_keeps P (submit_observed deps tm request)" "io_keeps P (public_key deps tm label)"
    using pool by (auto intro: work_kept)
  show "io_keeps P (draw_iv deps)" using frames(5) by (simp add: io_keeps_def draw_iv_def)
qed

text \<open>A property of the log is kept by the handlers, before they record, if the pool keeps it.\<close>

definition about_events :: "(('c, 'g, 'm, 'p) pooled_service \<Rightarrow> bool) \<Rightarrow> bool" where
  "about_events P \<longleftrightarrow> (\<forall>sv sv'. sv_events sv = sv_events sv' \<longrightarrow> P sv \<longrightarrow> P sv')"

lemma about_events_frame: "about_events P \<Longrightarrow> service_frame from_der P"
  unfolding about_events_def service_frame_def by simp

lemmas events_kept = parts_kept [OF about_events_frame]

definition counter_value :: "string \<Rightarrow> ('c, 'g, 'm, 'p) pooled_service \<Rightarrow> u64" where
  "counter_value name sv = counter_after name (sv_events sv) 0"

lemma inner_keeps:
  assumes "about_events P" and "\<forall>request. io_keeps P (sd_submit deps request)"
  shows "io_keeps P (sign_inner deps tm q1)" "io_keeps P (verify_inner deps tm q2)" "io_keeps P (encrypt_inner deps tm q3)"
    "io_keeps P (decrypt_inner deps tm q4)" "io_keeps P (get_public_key_inner deps tm q5)"
  by (auto simp: sign_inner_def verify_inner_def encrypt_inner_def decrypt_inner_def get_public_key_inner_def
      sign_body_def verify_body_def encrypt_body_def decrypt_body_def get_public_key_body_def Let_def
      intro!: keeps_intros events_kept [OF assms] split: job_response.splits lookup.splits)

lemma record_counters:
  fixes r :: "('a, status) result"
  shows "counter_value REQUESTS_TOTAL (record_request deps op t t' r sv) = counter_value REQUESTS_TOTAL sv + 1"
    "counter_value AUTHZ_ALLOWED (record_request deps op t t' r sv) = counter_value AUTHZ_ALLOWED sv + of_bool (is_ok r)"
    "counter_value AUTHZ_DENIED (record_request deps op t t' r sv)
       = counter_value AUTHZ_DENIED sv + of_bool (failed_with PermissionDenied r)"
    "counter_value UNAUTHENTICATED (record_request deps op t t' r sv)
       = counter_value UNAUTHENTICATED sv + of_bool (failed_with Unauthenticated r)"
    "counter_value RATE_LIMITED (record_request deps op t t' r sv)
       = counter_value RATE_LIMITED sv + of_bool (failed_with ResourceExhausted r)"
  by (cases r; simp add: record_request_def counter_value_def counter_after_append Let_def metric_names failed_with_def
      split: code.splits)+

lemma serve_recorded:
  assumes "about_events P" and "\<forall>request. io_keeps P (sd_submit deps request)"
    and "serve deps tm certs rpc sv = (r, sv')" and "P sv"
  shows "\<exists>sv1 op. P sv1 \<and> sv' = record_request deps op (tm 0) (tm 9) r sv1"
proof -
  note keeps = inner_keeps [OF assms(1,2), THEN io_keepsD, OF assms(4)]
  show ?thesis
    using assms(3)
    by (cases rpc; simp add: rpc_defs io_result_def case_prod_beta Let_def; elim conjE; hypsubst;
        simp only: record_result_map; blast intro: keeps)
qed

text \<open>
  C35. The request metrics: each call, however it ends, is counted once by the request counter;
  it counts as allowed exactly if it succeeded, as denied or unauthenticated exactly if it failed
  with that status, and as rate limited exactly if it failed with \<open>RESOURCE_EXHAUSTED\<close>, which
  is also the status of a full queue.
\<close>

theorem serve_metrics:
  assumes pool: "\<And>request sv name. counter_value name (snd (sd_submit deps request sv)) = counter_value name sv"
    and run: "serve deps tm certs rpc sv = (r, sv')"
  shows "counter_value REQUESTS_TOTAL sv' = counter_value REQUESTS_TOTAL sv + 1
    \<and> counter_value AUTHZ_ALLOWED sv' = counter_value AUTHZ_ALLOWED sv + of_bool (is_ok r)
    \<and> counter_value AUTHZ_DENIED sv' = counter_value AUTHZ_DENIED sv + of_bool (failed_with PermissionDenied r)
    \<and> counter_value UNAUTHENTICATED sv' = counter_value UNAUTHENTICATED sv + of_bool (failed_with Unauthenticated r)
    \<and> counter_value RATE_LIMITED sv' = counter_value RATE_LIMITED sv + of_bool (failed_with ResourceExhausted r)"
proof -
  obtain sv1 op where "\<forall>name. counter_value name sv1 = counter_value name sv"
    and "sv' = record_request deps op (tm 0) (tm 9) r sv1"
    using serve_recorded [where P = "\<lambda>s. \<forall>name. counter_value name s = counter_value name sv", OF _ _ run] pool
    by (auto simp: io_keeps_def about_events_def counter_value_def)
  then show ?thesis by (simp add: record_counters)
qed

section \<open>Evaluation\<close>

text \<open>A pool that counts the jobs it gets and holds one key pair, and a policy for one identity.\<close>

fun demo_answer :: "job_request \<Rightarrow> (job_response, pool_error) result" where
  "demo_answer (JobSign _ _ payload) = Ok (Signature (1 # payload))"
| "demo_answer (JobVerify _ _ _ _) = Ok (Verified True)"
| "demo_answer (JobEncrypt _ plaintext _ _) = Ok (Ciphertext (9 # plaintext))"
| "demo_answer (JobDecrypt _ ciphertext _ _) = Ok (Plaintext (tl ciphertext))"
| "demo_answer (JobGetPublicKey label) = (if label = ''ec'' then Ok (PublicKey [6, 6] ''EC'') else Err (KeyNotFound label))"

type_synonym demo_state = "(string \<Rightarrow> nat option, nat, shelf, nat) pooled_service"

definition demo_submit :: "(job_request \<Rightarrow> (job_response, pool_error) result) \<Rightarrow> job_request \<Rightarrow> (demo_state, job_response, pool_error) io" where
  "demo_submit answer request sv = (answer request, sv\<lparr>sv_pool := sv_pool sv + 1\<rparr>)"

definition demo_deps ::
    "(job_request \<Rightarrow> (job_response, pool_error) result)
     \<Rightarrow> (string \<Rightarrow> nat option, nat, shelf, nat, soft_token, bytes, bytes, bytes) service_deps" where
  "demo_deps answer =
     \<lparr> sd_x509 = sample_x509, sd_limiter = plain_deps, sd_moka = shelf_moka, sd_lib = sample_lib, sd_ck = soft_ck,
       sd_submit = demo_submit answer, sd_shared = (\<lambda>_. Ok LookupNotFound), sd_random = (\<lambda>k n. replicate n (of_nat k)),
       sd_code_description = (\<lambda>_. ''error'') \<rparr>"

definition demo_policy :: policy where
  "demo_policy = [(''spiffe://a'', [(''ec'', {Sign, Verify})])]"

definition demo_service :: demo_state where
  "demo_service = pooled_new 0 (Some (authorizer_new demo_policy)) (key_cache_new shelf_moka cache_config_default)
     (Some (rate_limiter_new plain_deps \<lparr> rc_per_second = 7, rc_burst = 2, rc_max_identities = 8 \<rparr>))
     (breaker_new breaker_config_default 0)"

abbreviation "demo_sign_request \<equiv> \<lparr> sr_key_label = ''ec'', sr_mechanism = 1,
  sr_input = Some \<lparr> sm_input = Some (OneofDigest (replicate 32 5)) \<rparr> \<rparr>"

lemmas demo_service_defs = demo_deps_def demo_service_def pooled_new_def demo_policy_def

lemma demo_authorizer: "authorizer_inv (sd_x509 (demo_deps answer)) demo_policy (authorizer_new demo_policy)"
  by (simp add: demo_deps_def authorizer_inv_new)

lemma breaker_new_closed: "breaker_state (breaker_new config now) = Closed"
  by (simp add: breaker_new_def breaker_state_def)

lemma demo_admit:
  "\<exists>sv1. admit (demo_deps answer) tm (Some [[48]]) ''ec'' Sign demo_service = (Ok (), sv1)
     \<and> sv_cache sv1 = sv_cache demo_service \<and> sv_pool sv1 = 0"
  "\<exists>sv1. admit (demo_deps answer) tm (Some [[48]]) ''ec'' Verify demo_service = (Ok (), sv1)
     \<and> sv_cache sv1 = sv_cache demo_service \<and> sv_pool sv1 = 0"
  by (simp_all add: admit_def io_bind_def check_breaker_def check_identity_def check_share_def demo_service_defs
      breaker_new_closed authorize_def authorizer_new_def identify_def leaf_certificate_def cache_lookup_def
      extractor_new_def parse_identity_def sample_x509_def cache_remember_def max_cached_identities_def is_allowed_def
      rate_limiter_new_def rate_check_def bucket_of_def plain_deps_def Let_def)

lemma demo_sign_inner:
  "\<exists>sv'. sign_inner (demo_deps demo_answer) tm \<lparr> rq_peer_certs = Some [[48]], rq_message = demo_sign_request \<rparr> demo_service
     = (Ok \<lparr> sp_signature = 1 # replicate 32 5, sp_key_label = ''ec'' \<rparr>, sv')"
proof -
  obtain sv1 where "admit (demo_deps demo_answer) tm (Some [[48]]) ''ec'' Sign demo_service = (Ok (), sv1)"
    using demo_admit(1) by blast
  then show ?thesis
    by (simp add: sign_guard.admitted sign_body_def io_bind_def io_lift_def io_return_def pooled_extract_input_def
        prepare_def signature_mechanism_of_def check_digest_len_def sha256_len_def submit_observed_def demo_deps_def
        demo_submit_def Let_def)
qed

theorem served_only_if_allowed_witness:
  "\<exists>sv'. serve (demo_deps demo_answer) (\<lambda>_. 0) (Some [[48]]) (RpcSign demo_sign_request) demo_service
      = (Ok (ReplySign \<lparr> sp_signature = 1 # replicate 32 5, sp_key_label = ''ec'' \<rparr>), sv')
   \<and> (\<exists>leaf chain identity. Some [[48]] = Some (leaf # chain) \<and> parse_identity sample_x509 leaf = Ok identity
        \<and> is_allowed demo_policy identity ''ec'' Sign)"
proof -
  obtain sv' where run: "serve (demo_deps demo_answer) (\<lambda>_. 0) (Some [[48]]) (RpcSign demo_sign_request) demo_service
      = (Ok (ReplySign \<lparr> sp_signature = 1 # replicate 32 5, sp_key_label = ''ec'' \<rparr>), sv')"
    using demo_sign_inner [of "\<lambda>_. 0"] by (auto simp: sign_def recorded_def io_result_def)
  have "sv_authorizer demo_service = Some (authorizer_new demo_policy)" by (simp add: demo_service_def pooled_new_def)
  from served_only_if_allowed [OF this demo_authorizer run] run show ?thesis by (simp add: demo_deps_def)
qed

theorem refused_without_effect_witness:
  "\<exists>e. fst (serve (demo_deps demo_answer) (\<lambda>_. 0) (Some [[49]]) (RpcSign demo_sign_request) demo_service) = Err e
     \<and> st_code e = PermissionDenied
     \<and> sv_pool (snd (serve (demo_deps demo_answer) (\<lambda>_. 0) (Some [[49]]) (RpcSign demo_sign_request) demo_service)) = 0"
proof -
  have az: "sv_authorizer demo_service = Some (authorizer_new demo_policy)" by (simp add: demo_service_def pooled_new_def)
  have spec: "authorize_spec (sd_x509 (demo_deps demo_answer)) demo_policy (Some [[49]], rpc_label (RpcSign demo_sign_request),
      rpc_operation (RpcSign demo_sign_request)) = Err (status_new PermissionDenied (denial_message ''cn'' ''ec'' Sign))"
    by (simp add: authorize_spec_def identity_source_def leaf_certificate_def parse_identity_def demo_deps_def
        sample_x509_def first_common_name_def is_allowed_def demo_policy_def)
  have "fst (allow 0 (sv_breaker demo_service))" "sv_pool demo_service = 0"
    by (simp_all add: demo_service_def pooled_new_def breaker_new_closed)
  then show ?thesis
    using refused_without_effect [OF az demo_authorizer spec prod.collapse [symmetric], of "\<lambda>_. 0"] by auto
qed



abbreviation "demo_verify_request \<equiv> \<lparr> vr_key_label = ''ec'', vr_mechanism = 1,
  vr_input = Some \<lparr> sm_input = Some (OneofDigest (replicate 32 5)) \<rparr>, vr_signature = [] \<rparr>"

lemma demo_contact:
  "\<exists>request sv1. pool_contact (demo_deps answer) (\<lambda>_. 0) (Some [[48]]) (RpcVerify demo_verify_request) demo_service = Submits request sv1"
proof -
  obtain sv1 where "admit (demo_deps answer) (\<lambda>_. 0) (Some [[48]]) ''ec'' Verify demo_service = (Ok (), sv1)"
    and cache: "sv_cache sv1 = sv_cache demo_service"
    using demo_admit(2) by blast
  then have "call_work (demo_deps answer) (\<lambda>_. 0) (Some [[48]]) (RpcVerify demo_verify_request) demo_service = (Ok (KeyWork ''ec''), sv1)"
    by (simp add: call_work_def io_bind_def io_lift_def io_return_def pooled_extract_input_def)
  moreover have "\<exists>m. mk_try_get shelf_moka 0 ''ec'' (pc_entries (sv_cache sv1)) = (Init, m)"
    by (simp add: cache demo_service_defs key_cache_new_def shelf_moka_def shelf_live_def)
  ultimately show ?thesis by (auto simp: pool_contact_def demo_deps_def)
qed

theorem public_key_masks_pool_errors_witness:
  "failed_with Internal (fst (serve (demo_deps (\<lambda>_. Err Overloaded)) (\<lambda>_. 0) (Some [[48]]) (RpcVerify demo_verify_request) demo_service))"
proof -
  let ?deps = "demo_deps (\<lambda>_. Err Overloaded)"
  obtain request sv1 where contact: "pool_contact ?deps (\<lambda>_. 0) (Some [[48]]) (RpcVerify demo_verify_request) demo_service = Submits request sv1"
    using demo_contact by blast
  have "sd_submit ?deps request sv1 = (Err Overloaded, sv1\<lparr>sv_pool := sv_pool sv1 + 1\<rparr>)"
    by (simp add: demo_deps_def demo_submit_def)
  from public_key_masks_pool_errors [OF contact this _ prod.collapse [symmetric]] show ?thesis by simp
qed

text \<open>The same service with the key already in the cache.\<close>

definition warm_service :: demo_state where
  "warm_service = demo_service\<lparr>sv_cache := (sv_cache demo_service)\<lparr>pc_entries :=
     \<lparr> sh_entries = [(''ec'', Found \<lparr> cp_spki_der = [6, 6], cp_key_type = ''EC'' \<rparr>, None)], sh_policy = (\<lambda>_. None), sh_loading = [] \<rparr>\<rparr>\<rparr>"

theorem verify_served_from_cache_witness:
  "fst (verify (demo_deps demo_answer) (\<lambda>_. 0)
      \<lparr> rq_peer_certs = Some [[48]], rq_message = \<lparr> vr_key_label = ''ec'', vr_mechanism = 1,
        vr_input = Some \<lparr> sm_input = Some (OneofDigest (replicate 32 5)) \<rparr>, vr_signature = 6 # replicate 32 5 \<rparr> \<rparr> warm_service)
   = Ok \<lparr> vp_valid = True, vp_served_from_cache = True \<rparr>"
proof -
  let ?q = "\<lparr> rq_peer_certs = Some [[48]], rq_message = \<lparr> vr_key_label = ''ec'', vr_mechanism = 1,
        vr_input = Some \<lparr> sm_input = Some (OneofDigest (replicate 32 5)) \<rparr>, vr_signature = 6 # replicate 32 5 \<rparr> \<rparr>"
  obtain sv1 where adm: "admit (demo_deps demo_answer) (\<lambda>_. 0) (rq_peer_certs ?q) (vr_key_label (rq_message ?q)) Verify warm_service
      = (Ok (), sv1)" and cache: "sv_cache sv1 = sv_cache warm_service"
    by (simp add: warm_service_def admit_def io_bind_def check_breaker_def check_identity_def check_share_def demo_service_defs
        breaker_new_closed authorize_def authorizer_new_def identify_def leaf_certificate_def cache_lookup_def
        extractor_new_def parse_identity_def sample_x509_def cache_remember_def max_cached_identities_def is_allowed_def
        rate_limiter_new_def rate_check_def bucket_of_def plain_deps_def Let_def)
  have live: "shelf_live (pc_entries (sv_cache sv1)) t ''ec'' = Some (Found \<lparr> cp_spki_der = [6, 6], cp_key_type = ''EC'' \<rparr>)" for t
    by (simp add: cache warm_service_def shelf_live_def)
  have laws: "moka_laws (sd_moka (demo_deps demo_answer)) shelf_live sh_policy" by (simp add: demo_deps_def shelf_laws)
  have "pooled_extract_input (vr_input (rq_message ?q)) = Ok (InputDigest (replicate 32 5))"
    by (simp add: pooled_extract_input_def)
  moreover have "verify_public (sd_lib (demo_deps demo_answer)) [6, 6] 1 (InputDigest (replicate 32 5)) (6 # replicate 32 5) = Ok True"
    by (simp add: verify_public_def signature_mechanism_of_def check_digest_len_def sha256_len_def demo_deps_def
        verify_ecdsa_prehash_def sample_lib_def)
  ultimately show ?thesis
    using verify_served_from_cache [OF laws adm] live by simp
qed

theorem sign_reply_from_pool_witness:
  "\<exists>input prepared. prepare sample_lib 1 input = Ok prepared
     \<and> pooled_extract_input (sr_input demo_sign_request) = Ok input
     \<and> verification_digest sample_lib prepared = digest_of sample_lib input"
proof -
  obtain sv' where "sign_inner (demo_deps demo_answer) (\<lambda>_. 0) \<lparr> rq_peer_certs = Some [[48]], rq_message = demo_sign_request \<rparr>
      demo_service = (Ok \<lparr> sp_signature = 1 # replicate 32 5, sp_key_label = ''ec'' \<rparr>, sv')"
    using demo_sign_inner by blast
  from sign_reply_from_pool [OF this] show ?thesis by (auto simp: demo_deps_def)
qed

theorem serve_metrics_witness:
  "counter_value REQUESTS_TOTAL (snd (serve (demo_deps (\<lambda>_. Err Overloaded)) (\<lambda>_. 0) (Some [[48]])
      (RpcSign demo_sign_request) demo_service)) = 1"
proof -
  have "counter_value name (snd (sd_submit (demo_deps (\<lambda>_. Err Overloaded)) q sv)) = counter_value name sv" for q sv name
    by (simp add: demo_deps_def demo_submit_def counter_value_def)
  moreover have "counter_value REQUESTS_TOTAL demo_service = 0"
    by (simp add: counter_value_def demo_service_def pooled_new_def)
  ultimately show ?thesis using serve_metrics [OF _ prod.collapse [symmetric]] by (metis add_0)
qed

end
