(* ===== verification/Backends.thy ===== *)
theory Backends
  imports Single_Service Pooled_Service
begin

text \<open>
  The two implementations of the service against each other: a call that the pooled service hands to a worker
  gets the answer the single-session handler would give on the worker's session, and makes the same
  calls on the token; verification in process answers as verification on the token does.
\<close>

section \<open>Jobs and handlers\<close>


lemma pooled_helpers_agree:
  "pooled_extract_input = extract_input" "pooled_require_aes_gcm = require_aes_gcm" "GCM_IV_LEN = single_gcm_iv_len"
  "pooled_iv_length_error = iv_length_error"
proof -
  have "pooled_signing_input i = to_signing_input i" for i by (cases i) simp_all
  then have eq: "pooled_signing_input = to_signing_input" by (rule ext)
  show "pooled_extract_input = extract_input"
    unfolding pooled_extract_input_def extract_input_def eq by (rule refl)
qed (simp_all add: fun_eq_iff pooled_require_aes_gcm_def require_aes_gcm_def GCM_IV_LEN_def single_gcm_iv_len_def
    pooled_iv_length_error_def iv_length_error_def)

text \<open>
  A worker resolves a label as a search does when it has no handle for it, or one that a search in its
  session would still find.
\<close>

definition handle_current :: "'w cryptoki \<Rightarrow> 'w worker_env \<Rightarrow> key_kind \<Rightarrow> string \<Rightarrow> bool" where
  "handle_current ck v kind label \<longleftrightarrow>
     (\<forall>h. cached_handle kind label (wv_worker v) = Some h \<longrightarrow>
        find_object ck (wk_session (wv_worker v)) (kind_object_class kind) label (wv_world v) = (Ok (Some h), wv_world v))"

lemma resolved_cases:
  assumes "handle_current ck v kind label"
  obtains (found) key v1 w1 where "worker_handle ck kind label v = (Ok key, v1)" "wv_world v1 = w1"
      "wk_session (wv_worker v1) = wk_session (wv_worker v)"
      "require_object ck (wk_session (wv_worker v)) (kind_object_class kind) label (wv_world v) = (Ok key, w1)"
    | (failed) e e' v1 w1 where "worker_handle ck kind label v = (Err e, v1)" "wv_world v1 = w1"
      "e = KeyNotFound label \<and> st_code e' = NotFound \<or> (\<exists>m. e = InternalError m) \<and> st_code e' = Internal"
      "require_object ck (wk_session (wv_worker v)) (kind_object_class kind) label (wv_world v) = (Err e', w1)"
proof -
  let ?find = "find_object ck (wk_session (wv_worker v)) (kind_object_class kind) label (wv_world v)"
  obtain f w1 where f: "?find = (f, w1)" by fastforce
  show thesis
  proof (cases "cached_handle kind label (wv_worker v)")
    case (Some h)
    with assms have "?find = (Ok (Some h), wv_world v)" by (simp add: handle_current_def)
    with Some show ?thesis
      using found [of h "snd (worker_handle ck kind label v)"]
      by (simp add: worker_handle_def require_object_def io_bind_def io_lift_def io_result_def)
  next
    case None
    then have run: "worker_handle ck kind label v =
        (let v1 = v\<lparr>wv_metrics := (wv_metrics v)\<lparr>pm_handle_cache_misses := pm_handle_cache_misses (wv_metrics v) + 1\<rparr>, wv_world := w1\<rparr>
         in case f of Err e \<Rightarrow> (Err (InternalError (show_anyhow (show_cause ck) e)), v1)
            | Ok None \<Rightarrow> (Err (KeyNotFound label), v1)
            | Ok (Some h) \<Rightarrow> (Ok h, v1\<lparr>wv_worker := store_handle kind label h (wv_worker v1)\<rparr>))"
      using f by (simp add: worker_handle_def io_bind_def io_result_def on_world_def Let_def split: result.split option.split)
    have req: "require_object ck (wk_session (wv_worker v)) (kind_object_class kind) label (wv_world v) =
        ((case f of Err _ \<Rightarrow> Err (hsm_failure ''C_FindObjects'') | Ok None \<Rightarrow> Err (key_not_found label) | Ok (Some h) \<Rightarrow> Ok h), w1)"
      using f by (simp add: require_object_def io_bind_def io_lift_def io_result_def split: result.split option.split)
    show ?thesis
    proof (cases f)
      case (Ok x)
      then show ?thesis using run req found failed
        by (cases x) (simp_all add: Let_def key_not_found_def)
    next
      case (Err e)
      then show ?thesis using run req failed by (simp add: Let_def hsm_failure_def)
    qed
  qed
qed

lemma with_session_run:
  "wk_session (wv_worker v1) = s \<Longrightarrow>
     fst (with_session f v1) = fst (f s (wv_world v1)) \<and> wv_world (snd (with_session f v1)) = snd (f s (wv_world v1))"
  by (simp add: with_session_def on_world_def case_prod_beta Let_def)

text \<open>A job and a token operation: the same result, up to the text of an error, and the same world.\<close>

definition same_run ::
    "('a \<Rightarrow> job_response) \<Rightarrow> (job_response, pool_error) result \<times> 'w worker_env \<Rightarrow> ('a, status) result \<times> 'w \<Rightarrow> bool" where
  "same_run C x y \<longleftrightarrow>
     map_err (\<lambda>e. st_code (to_status e)) (fst x) = result_map C (map_err st_code (fst y)) \<and> wv_world (snd x) = snd y"

lemmas same_run_simps = same_run_def fst_io_bind snd_io_bind


lemma verify_job_run:
  fixes v
  assumes "handle_current ck v PublicKind label"
  defines "s \<equiv> wk_session (wv_worker v)"
  shows "same_run Verified (dispatch ck lib (JobVerify label alg payload sig) v)
    (io_bind (require_object ck s PUBLIC_KEY label)
       (\<lambda>key. io_result single_verify_outcome (ck_verify ck s (algorithm_mechanism alg) key payload sig)) (wv_world v))"
proof (cases rule: resolved_cases [OF assms(1), case_names found failed])
  case (found key v1 w1)
  have "map_err (\<lambda>e. st_code (to_status e)) (verify_outcome r) = result_map Verified (map_err st_code (single_verify_outcome r))" for r
    by (cases r rule: verify_outcome.cases) (simp_all add: hsm_failure_def)
  with found show ?thesis by (simp add: same_run_simps with_session_run s_def)
next
  case (failed e e' v1 w1)
  then show ?thesis by (auto simp: same_run_simps s_def)
qed







section \<open>The handlers agree\<close>

text \<open>A result up to the text of its error, and a reply up to the flag that only the pooled service sets.\<close>

definition outcome :: "('a, status) result \<Rightarrow> ('a, code) result" where
  "outcome r = map_err st_code r"

lemma outcome_simps [simp]: "outcome (Ok x) = Ok x" "outcome (Err e) = Err (st_code e)"
  by (simp_all add: outcome_def)














section \<open>Verification in process and on the token\<close>

text \<open>
  What it means for both sides to implement the standards for one key pair. \<open>valid scheme digest signature\<close> is
  the verdict of a signature scheme under the public key on the SHA-256 digest of a message, as FIPS 186 and
  RFC 8017 define it. A token that has the key as \<open>pub\<close> accepts with a mechanism of that scheme exactly the
  valid signatures over what the mechanism signs, and reports the others as invalid; the library that is given the key as
  \<open>spki\<close> reads it, and accepts the valid signatures over a digest.
\<close>

definition token_verifies ::
    "'w cryptoki \<Rightarrow> (bytes \<Rightarrow> bytes) \<Rightarrow> signature_mechanism set \<Rightarrow> (signature_mechanism \<Rightarrow> bytes \<Rightarrow> bytes \<Rightarrow> bool)
     \<Rightarrow> session \<Rightarrow> object_handle \<Rightarrow> 'w \<Rightarrow> bool" where
  "token_verifies ck hash schemes valid s pub w \<longleftrightarrow>
     (\<forall>m payload scheme digest sig. signs_digest hash m payload scheme digest \<longrightarrow> scheme \<in> schemes \<longrightarrow>
        (if valid scheme digest sig then fst (ck_verify ck s m pub payload sig w) = Ok ()
         else \<exists>rv f. rv \<in> {SignatureInvalid, SignatureLenRange} \<and> fst (ck_verify ck s m pub payload sig w) = Err (Pkcs11 rv f)))"

definition library_verifies ::
    "('k, 'sg, 'r) crypto_lib \<Rightarrow> signature_mechanism set \<Rightarrow> (signature_mechanism \<Rightarrow> bytes \<Rightarrow> bytes \<Rightarrow> bool) \<Rightarrow> bytes \<Rightarrow> bool" where
  "library_verifies lib schemes valid spki \<longleftrightarrow>
     (EcdsaSha256 \<in> schemes \<longrightarrow>
        (\<exists>key. p256_verifying_key lib spki = Ok key \<and> (\<forall>digest sig. length digest = 32 \<longrightarrow>
           (case p256_signature lib sig of None \<Rightarrow> False | Some sg \<Rightarrow> p256_verify_prehash lib key digest sg)
             = valid EcdsaSha256 digest sig)))
     \<and> (RsaPkcsSha256 \<in> schemes \<longrightarrow>
        (\<exists>key. rsa_from_public_key_der lib spki = Ok key \<and> (\<forall>digest sig. length digest = 32 \<longrightarrow>
           rsa_verify_pkcs1v15 lib key digest sig = valid RsaPkcsSha256 digest sig)))
     \<and> (RsaPssSha256 \<in> schemes \<longrightarrow>
        (\<exists>key. rsa_from_public_key_der lib spki = Ok key \<and> (\<forall>digest sig. length digest = 32 \<longrightarrow>
           rsa_verify_pss lib key digest sig = valid RsaPssSha256 digest sig)))"

lemma verify_public_valid:
  assumes laws: "lib_laws lib" and "library_verifies lib schemes valid spki" and "signature_mechanism_of mechanism = Some scheme"
    and "scheme \<in> schemes" "scheme \<noteq> Unspecified" and "case input of InputMessage _ \<Rightarrow> True | InputDigest d \<Rightarrow> length d = 32"
  shows "verify_public lib spki mechanism input sig = Ok (valid scheme (asked_digest (sha256 lib) input) sig)"
proof -
  have len: "length (sha256 lib m) = 32" and key: "p256_from_public_key_der lib spki = p256_verifying_key lib spki"
    and ring: "ring_verify lib (p256_to_encoded_point lib k) m sig \<longleftrightarrow>
      (case p256_signature lib sig of None \<Rightarrow> False | Some sg \<Rightarrow> p256_verify_prehash lib k (sha256 lib m) sg)" for k m
    using laws by (simp_all add: lib_laws_def)
  show ?thesis
    using assms(2-6) by (cases scheme; cases input)
      (auto simp: verify_public_def library_verifies_def verify_ecdsa_ring_def verify_ecdsa_prehash_def verify_rsa_def
        sec1_point_from_spki_def key ring len digest_of_def sha256_len_def)
qed

lemma single_verify_valid:
  assumes "signature_mechanism_of (vr_mechanism q) = Some scheme" and "scheme \<in> schemes" "scheme \<noteq> Unspecified"
    and "extract_input (vr_input q) = Ok input" and "case input of InputMessage _ \<Rightarrow> True | InputDigest d \<Rightarrow> length d = 32"
    and find: "find_object ck (ss_session self) PUBLIC_KEY (vr_key_label q) w = (Ok (Some pub), w1)"
    and token: "token_verifies ck (sha256 lib) schemes valid (ss_session self) pub w1"
  shows "fst (single_verify ck lib self q w) =
    Ok \<lparr> vp_valid = valid scheme (asked_digest (sha256 lib) input) (vr_signature q), vp_served_from_cache = False \<rparr>"
proof -
  have "is_ok (prepare lib (vr_mechanism q) input)"
    using assms(1,3,5) by (cases input) (simp_all add: is_ok_prepare well_formed_input_def sha256_len_def)
  then obtain op where op: "prepare lib (vr_mechanism q) input = Ok op" by (auto simp: is_ok_iff)
  from prepare_signs [OF op] assms(1)
  have "signs_digest (sha256 lib) (algorithm_mechanism (po_algorithm op)) (po_payload op) scheme (asked_digest (sha256 lib) input)"
    by auto
  from token [unfolded token_verifies_def, rule_format, OF this assms(2), of "vr_signature q"]
  have "single_verify_outcome (fst (ck_verify ck (ss_session self) (algorithm_mechanism (po_algorithm op)) pub
      (po_payload op) (vr_signature q) w1)) = Ok (valid scheme (asked_digest (sha256 lib) input) (vr_signature q))"
    by (auto split: if_splits)
  moreover have "require_object ck (ss_session self) PUBLIC_KEY (vr_key_label q) w = (Ok pub, w1)"
    by (simp add: require_object_def io_bind_def io_lift_def io_result_def find)
  ultimately show ?thesis
    by (simp add: single_verify_def fst_io_bind assms(4) prepare_request_def op io_return_def)
qed

text \<open>
  C12. Verifying in process gives the token's answer, and both give the right one: for a key pair whose
  public half the token has and the cache holds, with a token and a library that implement the
  standards, a well-formed \<open>Verify\<close> for a scheme of that key is answered by the pooled service, which verifies in process,
  and by the single-session service, which asks the token, with the same verdict, the one the standard
  gives for the digest of the caller's input.
\<close>

theorem verify_in_process_as_on_token:
  assumes "lib_laws (sd_lib deps)" and "library_verifies (sd_lib deps) schemes valid (cp_spki_der key)"
    and "token_verifies ck (sha256 (sd_lib deps)) schemes valid (ss_session self) pub w1"
    and "public_key deps tm (vr_key_label q) sv = (Ok (Found key, served), sv1)"
    and "find_object ck (ss_session self) PUBLIC_KEY (vr_key_label q) w = (Ok (Some pub), w1)"
    and "extract_input (vr_input q) = Ok input" and "case input of InputMessage _ \<Rightarrow> True | InputDigest d \<Rightarrow> length d = 32"
    and "signature_mechanism_of (vr_mechanism q) = Some scheme" and "scheme \<in> schemes" and "scheme \<noteq> Unspecified"
    and "verdict = valid scheme (asked_digest (sha256 (sd_lib deps)) input) (vr_signature q)"
  shows "verify_body deps tm q sv = (Ok \<lparr> vp_valid = verdict, vp_served_from_cache = served \<rparr>, sv1)
    \<and> fst (single_verify ck (sd_lib deps) self q w) = Ok \<lparr> vp_valid = verdict, vp_served_from_cache = False \<rparr>"
  using verify_public_valid [OF assms(1,2,8,9,10,7), of "vr_signature q"]
    single_verify_valid [OF assms(8,9,10,6,7,5,3)]
  by (simp add: verify_body_def io_bind_def io_lift_def io_return_def pooled_helpers_agree assms(4,6,11))

text \<open>
  C34. A malformed \<open>Verify\<close> is blamed on the server by one backend only: with an unknown or
  unspecified mechanism, or a digest that is not 32 bytes long, the single-session service fails
  with \<open>INVALID_ARGUMENT\<close> before it asks the token, while the pooled service, once it has found
  the key, fails with \<open>INTERNAL\<close>.
\<close>

theorem malformed_verify_differs:
  assumes "extract_input (vr_input q) = Ok input"
    and "signature_mechanism_of (vr_mechanism q) \<in> {None, Some Unspecified} \<or> (\<exists>d. input = InputDigest d \<and> length d \<noteq> 32)"
    and "public_key deps tm (vr_key_label q) sv = (Ok (Found key, served), sv1)"
  shows "(\<exists>e. verify_body deps tm q sv = (Err e, sv1) \<and> st_code e = Internal)
    \<and> (\<exists>e. single_verify ck lib self q w = (Err e, w) \<and> st_code e = InvalidArgument)"
proof -
  have bad: "\<not> well_formed_input (vr_mechanism q) input"
    using assms(2) by (auto simp: well_formed_input_def sha256_len_def)
  then have "\<not> is_ok (prepare lib (vr_mechanism q) input)" by (simp add: is_ok_prepare)
  then obtain e where "prepare lib (vr_mechanism q) input = Err e" by (cases "prepare lib (vr_mechanism q) input") auto
  then have "\<exists>e. single_verify ck lib self q w = (Err e, w) \<and> st_code e = InvalidArgument"
    by (simp add: single_verify_def io_bind_def io_lift_def assms(1) prepare_request_def invalid_argument_def)
  moreover obtain e' where "verify_public (sd_lib deps) (cp_spki_der key) (vr_mechanism q) input (vr_signature q) = Err e'"
    using bad by (cases "vr_mechanism q" rule: mechanism_cases; cases input)
      (auto simp: verify_public_def well_formed_input_def digest_of_def check_digest_len_def)
  then have "\<exists>e. verify_body deps tm q sv = (Err e, sv1) \<and> st_code e = Internal"
    by (simp add: verify_body_def io_bind_def io_lift_def pooled_helpers_agree assms(1,3))
  ultimately show ?thesis by blast
qed

section \<open>Evaluation\<close>

text \<open>A worker of the software token with session 2, and a pool that answers with what this worker makes of a job.\<close>

definition solo_worker :: "soft_token worker_env" where
  "solo_worker = \<lparr> wv_worker = \<lparr> wk_id = 0, wk_slot = 5, wk_token = demo_config, wk_session = 2, wk_handles = [] \<rparr>,
     wv_world = demo_token, wv_metrics = pool_metrics_default, wv_events = [] \<rparr>"

abbreviation "solo_deps \<equiv> demo_deps (\<lambda>job. fst (execute soft_ck sample_lib job solo_worker))"


text \<open>The demo key: its signatures are the digest behind the tag of the key, 2.\<close>

definition tagged :: "signature_mechanism \<Rightarrow> bytes \<Rightarrow> bytes \<Rightarrow> bool" where
  "tagged scheme digest sig \<longleftrightarrow> sig = 2 # digest"

definition tagged_service :: demo_state where
  "tagged_service = demo_service\<lparr>sv_cache := (sv_cache demo_service)\<lparr>pc_entries :=
     \<lparr> sh_entries = [(''ec'', Found \<lparr> cp_spki_der = [2, 2], cp_key_type = ''EC'' \<rparr>, None)], sh_policy = (\<lambda>_. None), sh_loading = [] \<rparr>\<rparr>\<rparr>"

theorem verify_in_process_as_on_token_witness:
  "fst (verify_body (demo_deps demo_answer) (\<lambda>_. 0) (demo_verify_request\<lparr>vr_signature := 2 # replicate 32 5\<rparr>) tagged_service)
     = Ok \<lparr> vp_valid = True, vp_served_from_cache = True \<rparr>
   \<and> fst (single_verify soft_ck sample_lib demo_single (demo_verify_request\<lparr>vr_signature := 2 # replicate 32 5\<rparr>) demo_token)
     = Ok \<lparr> vp_valid = True, vp_served_from_cache = False \<rparr>"
proof -
  let ?q = "demo_verify_request\<lparr>vr_signature := 2 # replicate 32 5\<rparr>" and ?deps = "demo_deps demo_answer"
  have lib: "sd_lib ?deps = sample_lib" by (simp add: demo_deps_def)
  have library: "library_verifies sample_lib {EcdsaSha256} tagged [2, 2]"
    by (auto simp: library_verifies_def sample_lib_def tagged_def)
  have token: "token_verifies soft_ck (sha256 sample_lib) {EcdsaSha256} tagged 2 21 demo_token"
    by (auto simp: token_verifies_def tagged_def soft_ck_def tk_verify_def tk_guard_def tk_object_def demo_live demo_objects_def
        as_bytes_def io_return_def tk_fail_def io_throw_def elim: signs_digest.cases)
  have "\<exists>sv1. public_key ?deps (\<lambda>_. 0) ''ec'' tagged_service = (Ok (Found \<lparr> cp_spki_der = [2, 2], cp_key_type = ''EC'' \<rparr>, True), sv1)"
    by (simp add: public_key_def get_or_load_def try_get_with_by_ref_def demo_deps_def shelf_moka_def shelf_live_def
        tagged_service_def Let_def)
  then obtain sv1 where key: "public_key ?deps (\<lambda>_. 0) ''ec'' tagged_service
      = (Ok (Found \<lparr> cp_spki_der = [2, 2], cp_key_type = ''EC'' \<rparr>, True), sv1)" by blast
  have find: "find_object soft_ck 2 PUBLIC_KEY ''ec'' demo_token = (Ok (Some 21), demo_token)"
    by (simp add: demo_find demo_objects_def as_bytes_def)
  show ?thesis
    using verify_in_process_as_on_token [of ?deps "{EcdsaSha256}" tagged "\<lparr> cp_spki_der = [2, 2], cp_key_type = ''EC'' \<rparr>"
        soft_ck demo_single 21 demo_token "\<lambda>_. 0" ?q tagged_service True sv1 demo_token "InputDigest (replicate 32 5)" EcdsaSha256 True]
      library token key find sample_lib_laws
    by (simp add: lib extract_input_def signature_mechanism_of_def tagged_def)
qed

theorem malformed_verify_differs_witness:
  "\<exists>e sv1. verify_body (demo_deps demo_answer) (\<lambda>_. 0)
      \<lparr> vr_key_label = ''ec'', vr_mechanism = 9, vr_input = Some \<lparr> sm_input = Some (OneofMessage [1]) \<rparr>, vr_signature = [] \<rparr>
      warm_service = (Err e, sv1) \<and> st_code e = Internal"
proof -
  have "\<exists>sv1. public_key (demo_deps demo_answer) (\<lambda>_. 0) ''ec'' warm_service
      = (Ok (Found \<lparr> cp_spki_der = [6, 6], cp_key_type = ''EC'' \<rparr>, True), sv1)"
    by (simp add: public_key_def get_or_load_def try_get_with_by_ref_def demo_deps_def shelf_moka_def shelf_live_def
        warm_service_def Let_def)
  then obtain sv1 where "public_key (demo_deps demo_answer) (\<lambda>_. 0) ''ec'' warm_service
      = (Ok (Found \<lparr> cp_spki_der = [6, 6], cp_key_type = ''EC'' \<rparr>, True), sv1)" by blast
  then show ?thesis
    using malformed_verify_differs [of "\<lparr> vr_key_label = ''ec'', vr_mechanism = 9,
        vr_input = Some \<lparr> sm_input = Some (OneofMessage [1]) \<rparr>, vr_signature = [] \<rparr>" "InputMessage [1]"]
    by (fastforce simp: extract_input_def signature_mechanism_of_def)
qed

end
