(* ===== verification/Telemetry.thy ===== *)
theory Telemetry
  imports Pool Pooled_Service
begin

text \<open>
  The exported metrics, \<open>telemetry/metrics.rs\<close>: histogram buckets, descriptions, the metrics
  endpoint, and the sampler that turns the totals kept by pool, cache and breaker into
  exported counters. The Prometheus recorder and the HTTP server are parameters.
\<close>

section \<open>Buckets and descriptions\<close>

definition REQUEST_BUCKETS :: "f64 list" where
  "REQUEST_BUCKETS = map f64_of_rat
     [1/10000, 25/100000, 5/10000, 75/100000,
      1/1000, 125/100000, 15/10000, 175/100000, 2/1000,
      3/1000, 5/1000, 75/10000, 1/100,
      25/1000, 5/100, 1/10, 5/10, 1]"

definition INTERNAL_BUCKETS :: "f64 list" where
  "INTERNAL_BUCKETS = map f64_of_rat
     [1/100000, 25/1000000, 5/100000, 1/10000, 25/100000, 5/10000, 75/100000, 1/1000, 25/10000, 5/1000,
      1/100, 5/100, 1/10]"

datatype metric_kind = CounterMetric | GaugeMetric | HistogramMetric

datatype metric_unit = Seconds

record description =
  de_kind :: metric_kind
  de_name :: string
  de_unit :: "metric_unit option"
  de_text :: string

definition describe_counter :: "string \<Rightarrow> string \<Rightarrow> description" where
  "describe_counter name t = \<lparr> de_kind = CounterMetric, de_name = name, de_unit = None, de_text = t \<rparr>"

definition describe_gauge :: "string \<Rightarrow> string \<Rightarrow> description" where
  "describe_gauge name t = \<lparr> de_kind = GaugeMetric, de_name = name, de_unit = None, de_text = t \<rparr>"

definition describe_histogram :: "string \<Rightarrow> metric_unit \<Rightarrow> string \<Rightarrow> description" where
  "describe_histogram name u t = \<lparr> de_kind = HistogramMetric, de_name = name, de_unit = Some u, de_text = t \<rparr>"

definition describe :: "description list" where
  "describe =
     [describe_counter REQUESTS_TOTAL ''gRPC requests by operation and result'',
      describe_histogram REQUEST_DURATION Seconds ''End-to-end request latency, measured inside the handler'',
      describe_histogram QUEUE_WAIT Seconds ''Time a job waited for a worker'',
      describe_histogram HSM_SERVICE Seconds ''Time a worker spent in PKCS#11'',
      describe_gauge QUEUE_DEPTH ''Jobs currently waiting for a worker'',
      describe_gauge WORKERS ''Worker threads, each owning one PKCS#11 session'',
      describe_counter CACHE_HITS ''Public key cache hits'',
      describe_counter CACHE_MISSES ''Public key cache misses'',
      describe_gauge CACHE_ENTRIES ''Public keys currently cached'',
      describe_counter AUTHZ_DENIED ''Requests denied by the authorization policy'',
      describe_counter AUTHZ_ALLOWED ''Requests permitted by the authorization policy'',
      describe_counter UNAUTHENTICATED ''Requests with no usable client certificate'',
      describe_counter SHED_TOTAL ''Requests shed because the queue was full'',
      describe_counter RATE_LIMITED ''Requests rejected by the per-identity rate limit'',
      describe_gauge BREAKER_STATE ''Circuit breaker: 0 closed, 1 open, 2 half-open'',
      describe_counter BREAKER_TRIPS ''Times the circuit breaker has opened'',
      describe_counter SESSION_RESETS ''PKCS#11 sessions reopened after a fatal error'']"

text \<open>The builder of the Prometheus recorder, over the process-wide recorder state \<open>'r\<close>.\<close>

record ('b, 'h, 'r) prometheus =
  pb_new :: 'b
  pb_set_buckets :: "string \<Rightarrow> f64 list \<Rightarrow> 'b \<Rightarrow> ('b, string) result"
  pb_install_recorder :: "'b \<Rightarrow> ('r, 'h, string) io"
  pb_describe :: "description \<Rightarrow> 'r \<Rightarrow> 'r"
  pb_render :: "'h \<Rightarrow> 'r \<Rightarrow> string"

definition metric_buckets :: "('b, 'h, 'r) prometheus \<Rightarrow> ('b, failure) result" where
  "metric_buckets pb =
     and_then (lib_context ''failed to set request buckets''
                 (pb_set_buckets pb REQUEST_DURATION REQUEST_BUCKETS (pb_new pb)))
       (\<lambda>b1. and_then (lib_context ''failed to set queue buckets'' (pb_set_buckets pb QUEUE_WAIT INTERNAL_BUCKETS b1))
         (\<lambda>b2. lib_context ''failed to set service buckets'' (pb_set_buckets pb HSM_SERVICE INTERNAL_BUCKETS b2)))"

definition install :: "('b, 'h, 'r) prometheus \<Rightarrow> ('r, 'h, failure) io" where
  "install pb =
     io_bind (io_lift (metric_buckets pb))
       (\<lambda>b. io_bind (io_result (lib_context ''failed to install the Prometheus recorder'') (pb_install_recorder pb b))
         (\<lambda>handle r. (Ok handle, fold (pb_describe pb) describe r)))"

text \<open>The router of \<open>serve\<close>: what a \<open>GET\<close> of a path is answered with; \<open>None\<close> is 404.\<close>

definition metrics_route :: "('b, 'h, 'r) prometheus \<Rightarrow> 'h \<Rightarrow> 'r \<Rightarrow> string \<Rightarrow> string option" where
  "metrics_route pb handle r path =
     (if path = ''/metrics'' then Some (pb_render pb handle r)
      else if path = ''/healthz'' then Some ''ok''
      else None)"

text \<open>
  \<open>serve\<close>: bind the address, then answer with the router until the server fails. Binding and the HTTP
  server are arguments. The task \<open>main\<close> spawns for it only logs an error.
\<close>

definition metrics_serve ::
    "('a \<Rightarrow> ('w, 'l, string) io) \<Rightarrow> ('l \<Rightarrow> ('r \<Rightarrow> string \<Rightarrow> string option) \<Rightarrow> ('w, unit, string) io) \<Rightarrow> ('a \<Rightarrow> string)
     \<Rightarrow> ('b, 'h, 'r) prometheus \<Rightarrow> 'h \<Rightarrow> 'a \<Rightarrow> ('w, unit, failure) io" where
  "metrics_serve bind http_serve show_addr pb handle addr =
     io_bind (io_result (lib_context (''failed to bind the metrics listener on '' @ show_addr addr)) (bind addr))
       (\<lambda>listener. io_result (lib_context ''metrics server failed'') (http_serve listener (metrics_route pb handle)))"

definition metrics_task :: "('w, unit, failure) io \<Rightarrow> 'w \<Rightarrow> (string \<times> failure) list \<times> 'w" where
  "metrics_task served w =
     (case served w of (Ok _, w1) \<Rightarrow> ([], w1) | (Err e, w1) \<Rightarrow> ([(''metrics endpoint stopped'', e)], w1))"

text \<open>Whichever part fails, the failure ends in one logged line that says what it was.\<close>

lemma metrics_task_logs:
  "bind addr w = (Err e, w1) \<Longrightarrow> metrics_task (metrics_serve bind http_serve show_addr pb handle addr) w
     = ([(''metrics endpoint stopped'', AnyError [''failed to bind the metrics listener on '' @ show_addr addr] (Message e))], w1)"
  "bind addr w = (Ok l, w1) \<Longrightarrow> http_serve l (metrics_route pb handle) w1 = (Err e, w2) \<Longrightarrow>
     metrics_task (metrics_serve bind http_serve show_addr pb handle addr) w
     = ([(''metrics endpoint stopped'', AnyError [''metrics server failed''] (Message e))], w2)"
  by (simp_all add: metrics_task_def metrics_serve_def io_bind_def io_result_def lib_context_def)

section \<open>The sampler\<close>

definition queue_len :: "'q flume \<Rightarrow> ('w, 'q) pool_sys \<Rightarrow> usize" where
  "queue_len fl s = fl_len fl (ps_queue s)"

text \<open>What one tick reads. The loads are of independent atomics and may be of different moments.\<close>

record sample =
  sm_queue_len :: usize
  sm_entries :: u64
  sm_state :: breaker_state
  sm_hits :: u64
  sm_misses :: u64
  sm_shed :: u64
  sm_resets :: u64
  sm_trips :: u64

definition take_sample ::
    "'q flume \<Rightarrow> 'm moka \<Rightarrow> ('w, 'q) pool_sys \<Rightarrow> 'm public_key_cache \<Rightarrow> circuit_breaker \<Rightarrow> sample" where
  "take_sample fl mk pool cache breaker =
     \<lparr> sm_queue_len = queue_len fl pool, sm_entries = entry_count mk cache,
       sm_state = breaker_state breaker,
       sm_hits = cm_hits (pc_metrics cache), sm_misses = cm_misses (pc_metrics cache),
       sm_shed = pm_jobs_rejected_queue_full (ps_metrics pool),
       sm_resets = pm_session_resets (ps_metrics pool), sm_trips = cb_trips breaker \<rparr>"

record sampler =
  la_hits :: u64
  la_misses :: u64
  la_shed :: u64
  la_resets :: u64

definition sampler_start :: sampler where
  "sampler_start = \<lparr> la_hits = 0, la_misses = 0, la_shed = 0, la_resets = 0 \<rparr>"

definition saturating_sub :: "u64 \<Rightarrow> u64 \<Rightarrow> u64" where
  "saturating_sub a b = (if b \<le> a then a - b else 0)"

fun state_gauge :: "breaker_state \<Rightarrow> f64" where
  "state_gauge Closed = Fin 0"
| "state_gauge Open = Fin 1"
| "state_gauge HalfOpen = Fin 2"

text \<open>One turn of the loop: the recorded events and the new last totals.\<close>

definition sampler_tick :: "sample \<Rightarrow> sampler \<Rightarrow> metric_event list \<times> sampler" where
  "sampler_tick sm prev =
     ([GaugeSet QUEUE_DEPTH (u64_as_f64 (sm_queue_len sm)),
       GaugeSet CACHE_ENTRIES (u64_as_f64 (sm_entries sm)),
       GaugeSet BREAKER_STATE (state_gauge (sm_state sm)),
       CounterIncrement CACHE_HITS [] (saturating_sub (sm_hits sm) (la_hits prev)),
       CounterIncrement CACHE_MISSES [] (saturating_sub (sm_misses sm) (la_misses prev)),
       CounterIncrement SHED_TOTAL [] (saturating_sub (sm_shed sm) (la_shed prev)),
       CounterIncrement SESSION_RESETS [] (saturating_sub (sm_resets sm) (la_resets prev)),
       CounterAbsolute BREAKER_TRIPS (sm_trips sm)],
      \<lparr> la_hits = sm_hits sm, la_misses = sm_misses sm, la_shed = sm_shed sm, la_resets = sm_resets sm \<rparr>)"

fun sampler_run :: "sample list \<Rightarrow> sampler \<Rightarrow> metric_event list" where
  "sampler_run [] prev = []"
| "sampler_run (sm # sms) prev = (let (es, prev1) = sampler_tick sm prev in es @ sampler_run sms prev1)"

section \<open>Exported totals\<close>

definition totals_le :: "sample \<Rightarrow> sample \<Rightarrow> bool" where
  "totals_le a b \<longleftrightarrow>
     sm_hits a \<le> sm_hits b \<and> sm_misses a \<le> sm_misses b \<and> sm_shed a \<le> sm_shed b
     \<and> sm_resets a \<le> sm_resets b \<and> sm_trips a \<le> sm_trips b"

text \<open>The five counters the sampler feeds, as they stand after a log.\<close>

definition exported :: "metric_event list \<Rightarrow> u64 \<Rightarrow> sampler \<Rightarrow> u64 \<times> sampler" where
  "exported es trips prev =
     (counter_after BREAKER_TRIPS es trips,
      \<lparr> la_hits = counter_after CACHE_HITS es (la_hits prev), la_misses = counter_after CACHE_MISSES es (la_misses prev),
        la_shed = counter_after SHED_TOTAL es (la_shed prev), la_resets = counter_after SESSION_RESETS es (la_resets prev) \<rparr>)"

definition sample_totals :: "sample \<Rightarrow> u64 \<times> sampler" where
  "sample_totals sm =
     (sm_trips sm,
      \<lparr> la_hits = sm_hits sm, la_misses = sm_misses sm, la_shed = sm_shed sm, la_resets = sm_resets sm \<rparr>)"

lemma saturating_sub_add: "b \<le> a \<Longrightarrow> b + saturating_sub a b = a"
  by (simp add: saturating_sub_def)

lemma exported_tick:
  assumes "la_hits prev \<le> sm_hits sm" "la_misses prev \<le> sm_misses sm" "la_shed prev \<le> sm_shed sm"
    "la_resets prev \<le> sm_resets sm" "trips \<le> sm_trips sm"
  shows "exported (fst (sampler_tick sm prev)) trips prev = sample_totals sm"
  using assms by (simp add: exported_def sample_totals_def sampler_tick_def metric_names saturating_sub_add max_def)

lemma exported_append:
  "exported (es @ fs) trips prev = (let (t, p) = exported es trips prev in exported fs t p)"
  by (simp add: exported_def counter_after_append)

lemma exported_run:
  assumes "sorted_wrt totals_le sms" "sms \<noteq> []" "la_hits prev \<le> sm_hits (hd sms)"
    "la_misses prev \<le> sm_misses (hd sms)" "la_shed prev \<le> sm_shed (hd sms)"
    "la_resets prev \<le> sm_resets (hd sms)" "trips \<le> sm_trips (hd sms)"
  shows "exported (sampler_run sms prev) trips prev = sample_totals (last sms)"
  using assms
proof (induction sms arbitrary: prev trips)
  case (Cons sm sms)
  have tick: "exported (fst (sampler_tick sm prev)) trips prev = sample_totals sm"
    using Cons.prems by (intro exported_tick) simp_all
  show ?case
  proof (cases "sms = []")
    case True
    with tick show ?thesis by (simp add: case_prod_beta)
  next
    case False
    then have "totals_le sm (hd sms)" using Cons.prems(1) by simp
    then have "exported (sampler_run sms (snd (sample_totals sm))) (fst (sample_totals sm)) (snd (sample_totals sm))
        = sample_totals (last sms)"
      using Cons.prems(1) False by (intro Cons.IH) (simp_all add: totals_le_def sample_totals_def)
    moreover have "snd (sampler_tick sm prev) = snd (sample_totals sm)"
      by (simp add: sampler_tick_def sample_totals_def)
    ultimately show ?thesis
      using tick False by (simp add: exported_append case_prod_beta Let_def)
  qed
qed simp

text \<open>
  C27. The exported counters are the internal totals: as long as the totals only grow, after any number
  of ticks the hit, miss, shed, reset and trip counters equal the totals the last tick read, however
  often the sampler ran, so reporting differences neither loses nor double counts an event.
\<close>

theorem sampler_exports_totals:
  assumes "sorted_wrt totals_le sms" and "sms \<noteq> []"
  shows "counter_after CACHE_HITS (sampler_run sms sampler_start) 0 = sm_hits (last sms)
    \<and> counter_after CACHE_MISSES (sampler_run sms sampler_start) 0 = sm_misses (last sms)
    \<and> counter_after SHED_TOTAL (sampler_run sms sampler_start) 0 = sm_shed (last sms)
    \<and> counter_after SESSION_RESETS (sampler_run sms sampler_start) 0 = sm_resets (last sms)
    \<and> counter_after BREAKER_TRIPS (sampler_run sms sampler_start) 0 = sm_trips (last sms)"
proof -
  have "exported (sampler_run sms sampler_start) 0 sampler_start = sample_totals (last sms)"
    by (rule exported_run) (use assms in \<open>simp_all add: sampler_start_def\<close>)
  then show ?thesis by (simp add: exported_def sample_totals_def sampler_start_def)
qed

definition quiet_sample :: sample where
  "quiet_sample =
     \<lparr> sm_queue_len = 0, sm_entries = 1, sm_state = Closed, sm_hits = 2, sm_misses = 1, sm_shed = 0,
       sm_resets = 0, sm_trips = 0 \<rparr>"

definition busy_sample :: sample where
  "busy_sample = quiet_sample\<lparr>sm_hits := 7, sm_shed := 4, sm_trips := 1, sm_state := Open\<rparr>"

theorem sampler_exports_totals_witness:
  "counter_after CACHE_HITS (sampler_run [quiet_sample, quiet_sample, busy_sample] sampler_start) 0 = 7
   \<and> counter_after SHED_TOTAL (sampler_run [quiet_sample, quiet_sample, busy_sample] sampler_start) 0 = 4"
  using sampler_exports_totals [of "[quiet_sample, quiet_sample, busy_sample]"]
  by (simp add: totals_le_def busy_sample_def quiet_sample_def)

section \<open>Every event belongs to a described metric\<close>

fun event_name :: "metric_event \<Rightarrow> string" where
  "event_name (CounterIncrement name _ _) = name"
| "event_name (CounterAbsolute name _) = name"
| "event_name (GaugeSet name _) = name"
| "event_name (HistogramRecord name _ _) = name"

fun event_kind :: "metric_event \<Rightarrow> metric_kind" where
  "event_kind (CounterIncrement _ _ _) = CounterMetric"
| "event_kind (CounterAbsolute _ _) = CounterMetric"
| "event_kind (GaugeSet _ _) = GaugeMetric"
| "event_kind (HistogramRecord _ _ _) = HistogramMetric"

definition described :: "metric_event \<Rightarrow> bool" where
  "described e \<longleftrightarrow> (event_kind e, event_name e) \<in> set (map (\<lambda>d. (de_kind d, de_name d)) describe)"

lemmas described_simps = described_def describe_def describe_counter_def describe_gauge_def describe_histogram_def

lemma described_events:
  "described (HistogramRecord QUEUE_WAIT l x)" "described (HistogramRecord HSM_SERVICE l x)"
  "described (HistogramRecord REQUEST_DURATION l x)" "described (CounterIncrement REQUESTS_TOTAL l n)"
  "described (CounterIncrement RATE_LIMITED l n)" "described (CounterIncrement AUTHZ_DENIED l n)"
  "described (CounterIncrement UNAUTHENTICATED l n)" "described (CounterIncrement AUTHZ_ALLOWED l n)"
  by (simp_all add: described_simps)

lemma sampler_tick_described: "list_all described (fst (sampler_tick sm prev))"
  by (simp add: sampler_tick_def described_simps)

lemma record_request_described:
  "list_all described (sv_events sv) \<Longrightarrow> list_all described (sv_events (record_request deps op t t' r sv))"
  by (simp add: record_request_def Let_def described_events split: result.splits code.splits)

lemma run_job_events:
  "list_all described (wv_events v) \<Longrightarrow> list_all described (wv_events (snd (run_job ck lib t1 t2 t3 jb v)))"
proof -
  obtain kind label where "request_key (jb_request jb) = (kind, label)" by (cases "request_key (jb_request jb)")
  then have "wv_events (snd (dispatch ck lib (jb_request jb) v)) = wv_events v"
    using dispatch_frame worker_handle_metrics by metis
  then have "wv_events (snd (execute ck lib (jb_request jb) v)) = wv_events v"
    by (simp add: execute_def case_prod_beta Let_def reset_session_def on_world_def
        split: result.splits pool_error.splits prod.splits)
  moreover assume "list_all described (wv_events v)"
  ultimately show ?thesis by (simp add: run_job_def case_prod_beta Let_def described_events)
qed

lemma pool_await_events [simp]: "ps_events (pool_await rid outcome s) = ps_events s"
  by (simp add: pool_await_def answer_def split: option.splits caller.splits await_outcome.splits)

lemma pool_step_described:
  assumes "pool_step ck lib fl job_timeout s t" and "list_all described (ps_events s)"
  shows "list_all described (ps_events t)"
  using assms
  by (cases rule: pool_step.cases)
    (auto simp: pool_submit_def pool_take_def pool_finish_def pool_exit_def pool_close_def answer_def
      case_prod_beta Let_def intro!: run_job_events split: send_outcome.splits)

lemma pool_start_events:
  assumes "pool_start ck fl dies spawn_error schedule now token config w = (Ok s, w')"
  shows "ps_events s = []"
proof -
  obtain r w1 where load: "load_module ck token w = (r, w1)" by fastforce
  obtain msgs wks w2 where "start_workers ck (case r of Ok slot \<Rightarrow> slot) token dies schedule w1 = (msgs, wks, w2)"
    by (metis surj_pair)
  with load assms show ?thesis
    by (auto simp: pool_start_def split: result.splits option.splits)
qed

lemma pool_started_described: "pool_started ck fl chan token config s \<Longrightarrow> list_all described (ps_events s)"
  by (auto simp: pool_started_def dest: pool_start_events)

interpretation pool_log: inductive_invariant
    "pool_started ck fl chan token config" "pool_step ck lib fl job_timeout" "\<lambda>s. list_all described (ps_events s)"
    for ck fl chan token config lib job_timeout
  by unfold_locales (auto intro: pool_started_described pool_step_described)

lemma serve_described:
  assumes "\<forall>request. io_keeps (\<lambda>sv. list_all described (sv_events sv)) (sd_submit deps request)"
  shows "io_keeps (\<lambda>sv. list_all described (sv_events sv)) (serve deps tm certs rpc)"
proof -
  let ?P = "\<lambda>sv. list_all described (sv_events sv)"
  have "?P (snd (serve deps tm certs rpc sv))" if sv: "?P sv" for sv
  proof -
    have "about_events ?P" by (simp add: about_events_def)
    then obtain sv1 op where "?P sv1"
      and "snd (serve deps tm certs rpc sv) = record_request deps op (tm 0) (tm 9) (fst (serve deps tm certs rpc sv)) sv1"
      using serve_recorded [OF _ assms prod.collapse [symmetric] sv] by blast
    then show ?thesis by (simp add: record_request_described)
  qed
  then show ?thesis by (simp add: io_keeps_def)
qed

text \<open>
  C28. Every exported series is documented with its kind: no two descriptions share a name, and
  whatever the workers, the request handlers and the sampler record is an event of a described
  metric, a counter event for a counter, a level for a gauge and a measurement for a
  histogram.
\<close>

theorem metrics_described:
  assumes "reachable (pool_started ck fl chan token config) (pool_step ck lib fl job_timeout) pool"
    and "\<forall>request. io_keeps (\<lambda>sv. list_all described (sv_events sv)) (sd_submit deps request)"
    and "list_all described (sv_events sv)"
  shows "distinct (map de_name describe) \<and> list_all described (ps_events pool)
    \<and> list_all described (sv_events (snd (serve deps tm certs rpc sv)))
    \<and> list_all described (fst (sampler_tick sm prev))"
proof (intro conjI)
  show "distinct (map de_name describe)" by (simp add: described_simps metric_names)
  show "list_all described (ps_events pool)" using assms(1) by (rule pool_log.inv_reachable)
  show "list_all described (sv_events (snd (serve deps tm certs rpc sv)))"
    using io_keepsD [OF serve_described [OF assms(2)] assms(3)] .
  show "list_all described (fst (sampler_tick sm prev))" by (rule sampler_tick_described)
qed

theorem metrics_described_witness:
  "list_all described (ps_events pool_finished)
   \<and> list_all described (sv_events (snd (serve (demo_deps demo_answer) (\<lambda>_. 0) (Some [[48]])
         (RpcSign demo_sign_request) demo_service)))
   \<and> list_all described (fst (sampler_tick busy_sample sampler_start))"
proof -
  have "\<forall>request. io_keeps (\<lambda>sv. list_all described (sv_events sv)) (sd_submit (demo_deps demo_answer) request)"
    by (simp add: io_keeps_def demo_deps_def demo_submit_def)
  moreover have "list_all described (sv_events demo_service)" by (simp add: demo_service_def pooled_new_def)
  ultimately show ?thesis using metrics_described [OF pool_finished_reachable] by blast
qed

end
