(* ===== verification/Provision.thy ===== *)
theory Provision
  imports Token_Session Sample_Token
begin

text \<open>
  Creating the demo keys, \<open>pkcs11/provision.rs\<close> and \<open>bin/provision.rs\<close>. The programs that print
  run on a console: the world of the token together with the lines written so far.
\<close>

section \<open>A console\<close>

record 'w console =
  co_world :: 'w
  co_lines :: "string list"

definition println :: "string \<Rightarrow> ('w console, unit, 'e) io" where
  "println line = (\<lambda>c. (Ok (), c\<lparr>co_lines := co_lines c @ [line]\<rparr>))"

definition on_token :: "('w, 'a, 'e) io \<Rightarrow> ('w console, 'a, 'e) io" where
  "on_token m = (\<lambda>c. let (r, w) = m (co_world c) in (r, c\<lparr>co_world := w\<rparr>))"

definition token_effect :: "('w \<Rightarrow> 'w) \<Rightarrow> 'w console \<Rightarrow> 'w console" where
  "token_effect f c = c\<lparr>co_world := f (co_world c)\<rparr>"

text \<open>Leaving a scope: what it owns is dropped, whether it ended well or not.\<close>

definition scoped :: "('w \<Rightarrow> 'w) \<Rightarrow> ('w console, 'a, 'e) io \<Rightarrow> ('w console, 'a, 'e) io" where
  "scoped leave m = (\<lambda>c. let (r, c1) = m c in (r, token_effect leave c1))"

fun for_each :: "('a \<Rightarrow> ('w, unit, 'e) io) \<Rightarrow> 'a list \<Rightarrow> ('w, unit, 'e) io" where
  "for_each f [] = io_return ()"
| "for_each f (x # xs) = io_bind (f x) (\<lambda>_. for_each f xs)"

section \<open>Templates\<close>

definition SECP256R1_OID_DER :: bytes where
  "SECP256R1_OID_DER = [0x06, 0x08, 0x2A, 0x86, 0x48, 0xCE, 0x3D, 0x03, 0x01, 0x07]"

definition DEMO_EC_KEY :: string where "DEMO_EC_KEY = ''demo-ec-p256''"
definition DEMO_RSA_KEY :: string where "DEMO_RSA_KEY = ''demo-rsa-2048''"
definition DEMO_AES_KEY :: string where "DEMO_AES_KEY = ''demo-aes-256''"

datatype provisioned = Created | AlreadyPresent

fun show_provisioned :: "provisioned \<Rightarrow> string" where
  "show_provisioned Created = ''Created''"
| "show_provisioned AlreadyPresent = ''AlreadyPresent''"

definition private_key_base :: "string \<Rightarrow> attribute list" where
  "private_key_base label =
     [AToken True, APrivate True, ASensitive True, AExtractable False, ASign True, ALabel (as_bytes label)]"

definition public_key_base :: "string \<Rightarrow> attribute list" where
  "public_key_base label = [AToken True, APrivate False, AVerify True, ALabel (as_bytes label)]"

section \<open>Operations\<close>

definition ensure_ec_key :: "'w cryptoki \<Rightarrow> session \<Rightarrow> string \<Rightarrow> ('w, provisioned, failure) io" where
  "ensure_ec_key ck session label =
     io_bind (find_object ck session PRIVATE_KEY label)
       (\<lambda>found. if found \<noteq> None then io_return AlreadyPresent
         else let public_template = public_key_base label @ [AKeyType EC, AEcParams SECP256R1_OID_DER] in
           io_bind (io_result (ck_context ''C_GenerateKeyPair(CKM_EC_KEY_PAIR_GEN) failed'')
                      (ck_generate_key_pair ck session MEccKeyPairGen public_template (private_key_base label)))
             (\<lambda>_. io_return Created))"

definition ensure_rsa_key :: "'w cryptoki \<Rightarrow> session \<Rightarrow> string \<Rightarrow> ('w, provisioned, failure) io" where
  "ensure_rsa_key ck session label =
     io_bind (find_object ck session PRIVATE_KEY label)
       (\<lambda>found. if found \<noteq> None then io_return AlreadyPresent
         else let public_template = public_key_base label @
                    [AKeyType RSA, AModulusBits 2048, APublicExponent [0x01, 0x00, 0x01], AEncrypt True];
                  private_template = private_key_base label @ [ADecrypt True] in
           io_bind (io_result (ck_context ''C_GenerateKeyPair(CKM_RSA_PKCS_KEY_PAIR_GEN) failed'')
                      (ck_generate_key_pair ck session MRsaPkcsKeyPairGen public_template private_template))
             (\<lambda>_. io_return Created))"

definition ensure_aes_key :: "'w cryptoki \<Rightarrow> session \<Rightarrow> string \<Rightarrow> ('w, provisioned, failure) io" where
  "ensure_aes_key ck session label =
     io_bind (find_object ck session SECRET_KEY label)
       (\<lambda>found. if found \<noteq> None then io_return AlreadyPresent
         else let template =
                [AToken True, APrivate True, ASensitive True, AExtractable False, AEncrypt True, ADecrypt True,
                 AKeyType AES, AValueLen 32, ALabel (as_bytes label)] in
           io_bind (io_result (ck_context ''C_GenerateKey(CKM_AES_KEY_GEN) failed'')
                      (ck_generate_key ck session MAesKeyGen template))
             (\<lambda>_. io_return Created))"

definition ensure_demo_keys :: "'w cryptoki \<Rightarrow> session \<Rightarrow> ('w, (string \<times> provisioned) list, failure) io" where
  "ensure_demo_keys ck session =
     io_bind (ensure_ec_key ck session DEMO_EC_KEY)
       (\<lambda>ec. io_bind (ensure_rsa_key ck session DEMO_RSA_KEY)
         (\<lambda>rsa. io_bind (ensure_aes_key ck session DEMO_AES_KEY)
           (\<lambda>aes. io_return [(DEMO_EC_KEY, ec), (DEMO_RSA_KEY, rsa), (DEMO_AES_KEY, aes)])))"

definition provision_main :: "'w cryptoki \<Rightarrow> environ \<Rightarrow> ('w console, unit, failure) io" where
  "provision_main ck env =
     io_bind (io_lift (token_config_from_env env))
       (\<lambda>config. io_bind (println (''provisioning token '' @ quote @ tc_token_label config @ quote))
         (\<lambda>_. io_bind (on_token (open_token ck config))
           (\<lambda>(slot, session). scoped (\<lambda>w. ck_drop_context ck (ck_drop_session ck session w))
              (io_bind (on_token (ensure_demo_keys ck session))
                (\<lambda>outcomes. io_bind
                   (for_each (\<lambda>(label, outcome). println (''  '' @ label @ '': '' @ show_provisioned outcome)) outcomes)
                   (\<lambda>_. io_bind (\<lambda>c. (Ok (), token_effect (\<lambda>w. snd (ck_logout ck session w)) c))
                     (\<lambda>_. println ''provisioning complete'')))))))"

section \<open>What is assumed of the token\<close>

text \<open>
  On the worlds in \<open>ready\<close> the session can search and generate. A search returns the objects
  that have all attributes of the template and changes nothing; generating a key adds new
  objects of the right class with the attributes of the templates, and leaves the others
  alone.
\<close>

definition key_store ::
    "'w cryptoki \<Rightarrow> session \<Rightarrow> ('w \<Rightarrow> bool) \<Rightarrow> ('w \<Rightarrow> object_handle \<rightharpoonup> attribute set) \<Rightarrow> bool" where
  "key_store ck session ready objs \<longleftrightarrow>
     (\<forall>w template. ready w \<longrightarrow>
        (\<exists>hs. ck_find_objects ck session template w = (Ok hs, w)
           \<and> set hs = {h. \<exists>attrs. objs w h = Some attrs \<and> set template \<subseteq> attrs}))
     \<and> (\<forall>w m pub priv p q w'. ready w \<longrightarrow> ck_generate_key_pair ck session m pub priv w = (Ok (p, q), w') \<longrightarrow>
          ready w' \<and> p \<noteq> q \<and> objs w p = None \<and> objs w q = None
          \<and> (\<exists>ps qs. objs w' = (objs w)(p \<mapsto> ps, q \<mapsto> qs)
               \<and> set pub \<subseteq> ps \<and> AClass PRIVATE_KEY \<notin> ps \<and> AClass SECRET_KEY \<notin> ps
               \<and> insert (AClass PRIVATE_KEY) (set priv) \<subseteq> qs))
     \<and> (\<forall>w m template h w'. ready w \<longrightarrow> ck_generate_key ck session m template w = (Ok h, w') \<longrightarrow>
          ready w' \<and> objs w h = None
          \<and> (\<exists>hs. objs w' = (objs w)(h \<mapsto> hs) \<and> insert (AClass SECRET_KEY) (set template) \<subseteq> hs))"

text \<open>Keys that cannot leave the token.\<close>

definition protected :: "attribute set \<Rightarrow> bool" where
  "protected attrs \<longleftrightarrow>
     (AClass PRIVATE_KEY \<in> attrs \<or> AClass SECRET_KEY \<in> attrs) \<longrightarrow>
     {AToken True, APrivate True, ASensitive True, AExtractable False} \<subseteq> attrs"

definition holds_key :: "('w \<Rightarrow> object_handle \<rightharpoonup> attribute set) \<Rightarrow> object_class \<Rightarrow> string \<Rightarrow> 'w \<Rightarrow> bool" where
  "holds_key objs class label w \<longleftrightarrow>
     (\<exists>h attrs. objs w h = Some attrs \<and> {AClass class, ALabel (as_bytes label)} \<subseteq> attrs)"

definition grown :: "('w \<Rightarrow> object_handle \<rightharpoonup> attribute set) \<Rightarrow> 'w \<Rightarrow> 'w \<Rightarrow> bool" where
  "grown objs w w' \<longleftrightarrow>
     (\<forall>h attrs. objs w h = Some attrs \<longrightarrow> objs w' h = Some attrs)
     \<and> (\<forall>h attrs. objs w h = None \<longrightarrow> objs w' h = Some attrs \<longrightarrow> protected attrs)"

section \<open>Provisioning is safe and idempotent\<close>

lemma grown_refl [simp]: "grown objs w w"
  by (simp add: grown_def)

lemma grown_trans: "grown objs w w1 \<Longrightarrow> grown objs w1 w2 \<Longrightarrow> grown objs w w2"
  unfolding grown_def by (metis not_Some_eq option.inject)

lemma grown_holds:
  assumes "grown objs w w'" and "holds_key objs c label w"
  shows "holds_key objs c label w'"
proof -
  obtain h attrs where key: "objs w h = Some attrs" "{AClass c, ALabel (as_bytes label)} \<subseteq> attrs"
    using assms(2) unfolding holds_key_def by blast
  have "objs w' h = Some attrs" using assms(1) key(1) by (simp add: grown_def)
  with key(2) show ?thesis unfolding holds_key_def by blast
qed

text \<open>What an \<open>ensure\<close> operation promises: it leaves a key that is there alone and otherwise adds it.\<close>

definition ensures ::
    "('w \<Rightarrow> bool) \<Rightarrow> ('w \<Rightarrow> object_handle \<rightharpoonup> attribute set) \<Rightarrow> object_class \<Rightarrow> string \<Rightarrow> ('w, provisioned, failure) io \<Rightarrow> bool" where
  "ensures ready objs c label m \<longleftrightarrow>
     (\<forall>w. ready w \<longrightarrow> holds_key objs c label w \<longrightarrow> m w = (Ok AlreadyPresent, w))
     \<and> (\<forall>w r w'. ready w \<longrightarrow> \<not> holds_key objs c label w \<longrightarrow> m w = (Ok r, w') \<longrightarrow>
          r = Created \<and> ready w' \<and> grown objs w w' \<and> holds_key objs c label w')"

lemma ensuresI:
  assumes "\<And>w. ready w \<Longrightarrow> holds_key objs c label w \<Longrightarrow> m w = (Ok AlreadyPresent, w)"
    and "\<And>w r w'. ready w \<Longrightarrow> \<not> holds_key objs c label w \<Longrightarrow> m w = (Ok r, w') \<Longrightarrow>
      r = Created \<and> ready w' \<and> grown objs w w' \<and> holds_key objs c label w'"
  shows "ensures ready objs c label m"
  using assms unfolding ensures_def by blast

lemma ensures_present: "ensures ready objs c label m \<Longrightarrow> ready w \<Longrightarrow> holds_key objs c label w \<Longrightarrow> m w = (Ok AlreadyPresent, w)"
  unfolding ensures_def by blast

lemma ensuresD:
  assumes "ensures ready objs c label m" and "ready w" and run: "m w = (Ok r, w')"
  shows "ready w' \<and> grown objs w w' \<and> holds_key objs c label w' \<and> (r = AlreadyPresent \<longleftrightarrow> holds_key objs c label w)"
proof (cases "holds_key objs c label w")
  case True
  then have "m w = (Ok AlreadyPresent, w)" by (rule ensures_present [OF assms(1,2)])
  with run have "r = AlreadyPresent" "w' = w" by simp_all
  with True assms(2) show ?thesis by simp
next
  case False
  with assms have "r = Created \<and> ready w' \<and> grown objs w w' \<and> holds_key objs c label w'"
    unfolding ensures_def by blast
  with False show ?thesis by simp
qed

lemma key_store_find:
  assumes "key_store ck session ready objs" and "ready w"
  shows "\<exists>hs. ck_find_objects ck session template w = (Ok hs, w)
    \<and> set hs = {h. \<exists>attrs. objs w h = Some attrs \<and> set template \<subseteq> attrs}"
  using assms(1) [unfolded key_store_def, THEN conjunct1, rule_format, OF assms(2)] .

lemma key_store_pair:
  assumes "key_store ck session ready objs" and "ready w"
    and "ck_generate_key_pair ck session m pub priv w = (Ok (p, q), w')"
  shows "ready w' \<and> p \<noteq> q \<and> objs w p = None \<and> objs w q = None
    \<and> (\<exists>ps qs. objs w' = (objs w)(p \<mapsto> ps, q \<mapsto> qs)
         \<and> set pub \<subseteq> ps \<and> AClass PRIVATE_KEY \<notin> ps \<and> AClass SECRET_KEY \<notin> ps
         \<and> insert (AClass PRIVATE_KEY) (set priv) \<subseteq> qs)"
  using assms(1) [unfolded key_store_def, THEN conjunct2, THEN conjunct1, rule_format, OF assms(2,3)] .

lemma key_store_key:
  assumes "key_store ck session ready objs" and "ready w"
    and "ck_generate_key ck session m template w = (Ok h, w')"
  shows "ready w' \<and> objs w h = None
    \<and> (\<exists>hs. objs w' = (objs w)(h \<mapsto> hs) \<and> insert (AClass SECRET_KEY) (set template) \<subseteq> hs)"
  using assms(1) [unfolded key_store_def, THEN conjunct2, THEN conjunct2, rule_format, OF assms(2,3)] .

lemma find_object_holds:
  assumes "key_store ck session ready objs" and "ready w"
  obtains found where "find_object ck session c label w = (Ok found, w)"
    "found \<noteq> None \<longleftrightarrow> holds_key objs c label w"
proof -
  obtain hs where "ck_find_objects ck session [AClass c, ALabel (as_bytes label)] w = (Ok hs, w)"
    and "set hs = {h. \<exists>attrs. objs w h = Some attrs \<and> {AClass c, ALabel (as_bytes label)} \<subseteq> attrs}"
    using key_store_find [OF assms, of "[AClass c, ALabel (as_bytes label)]"] by auto
  moreover from this(2) have "hs \<noteq> [] \<longleftrightarrow> holds_key objs c label w"
    unfolding holds_key_def set_empty [symmetric] by auto
  ultimately show ?thesis
    by (intro that [of "case hs of [] \<Rightarrow> None | h # _ \<Rightarrow> Some h"])
       (auto simp: find_object_def io_result_def split: list.splits)
qed

lemma ensures_pair:
  assumes store: "key_store ck session ready objs"
    and priv: "{AToken True, APrivate True, ASensitive True, AExtractable False, ALabel (as_bytes label)} \<subseteq> set priv"
  shows "ensures ready objs PRIVATE_KEY label
     (io_bind (find_object ck session PRIVATE_KEY label)
       (\<lambda>found. if found \<noteq> None then io_return AlreadyPresent
         else io_bind (io_result (ck_context context) (ck_generate_key_pair ck session m pub priv))
                (\<lambda>_. io_return Created)))"
proof (rule ensuresI, goal_cases)
  case (1 w)
  obtain found where "find_object ck session PRIVATE_KEY label w = (Ok found, w)" "found \<noteq> None"
    using find_object_holds [OF store 1(1)] 1(2) by metis
  then show ?case by (simp add: io_bind_def io_return_def)
next
  case (2 w r w')
  obtain found where "find_object ck session PRIVATE_KEY label w = (Ok found, w)" "found = None"
    using find_object_holds [OF store 2(1)] 2(2) by metis
  with 2(3) obtain p q where gen: "ck_generate_key_pair ck session m pub priv w = (Ok (p, q), w')" and "r = Created"
    by (auto simp: io_iffs)
  from key_store_pair [OF store 2(1) gen] obtain ps qs where new: "ready w'" "p \<noteq> q" "objs w p = None" "objs w q = None"
      "objs w' = (objs w)(p \<mapsto> ps, q \<mapsto> qs)" "AClass PRIVATE_KEY \<notin> ps" "AClass SECRET_KEY \<notin> ps"
      "insert (AClass PRIVATE_KEY) (set priv) \<subseteq> qs"
    by blast
  have "protected ps" "protected qs" using new(6-8) priv by (auto simp: protected_def)
  then have "grown objs w w'" using new(3-5) by (auto simp: grown_def)
  moreover have "holds_key objs PRIVATE_KEY label w'"
    using new(2,5,8) priv unfolding holds_key_def by (intro exI [of _ q] exI [of _ qs]) auto
  ultimately show ?case using \<open>r = Created\<close> new(1) by simp
qed

lemma ensures_ec: "key_store ck session ready objs \<Longrightarrow> ensures ready objs PRIVATE_KEY label (ensure_ec_key ck session label)"
  unfolding ensure_ec_key_def Let_def by (rule ensures_pair) (simp_all add: private_key_base_def)

lemma ensures_rsa: "key_store ck session ready objs \<Longrightarrow> ensures ready objs PRIVATE_KEY label (ensure_rsa_key ck session label)"
  unfolding ensure_rsa_key_def Let_def by (rule ensures_pair) (simp_all add: private_key_base_def)

lemma ensures_secret:
  assumes store: "key_store ck session ready objs"
    and template: "{AToken True, APrivate True, ASensitive True, AExtractable False, ALabel (as_bytes label)} \<subseteq> set template"
  shows "ensures ready objs SECRET_KEY label
     (io_bind (find_object ck session SECRET_KEY label)
       (\<lambda>found. if found \<noteq> None then io_return AlreadyPresent
         else io_bind (io_result (ck_context context) (ck_generate_key ck session m template))
                (\<lambda>_. io_return Created)))"
proof (rule ensuresI, goal_cases)
  case (1 w)
  obtain found where "find_object ck session SECRET_KEY label w = (Ok found, w)" "found \<noteq> None"
    using find_object_holds [OF store 1(1)] 1(2) by metis
  then show ?case by (simp add: io_bind_def io_return_def)
next
  case (2 w r w')
  obtain found where "find_object ck session SECRET_KEY label w = (Ok found, w)" "found = None"
    using find_object_holds [OF store 2(1)] 2(2) by metis
  with 2(3) obtain h where gen: "ck_generate_key ck session m template w = (Ok h, w')" and "r = Created"
    by (auto simp: io_iffs)
  from key_store_key [OF store 2(1) gen] obtain hs where new: "ready w'" "objs w h = None"
      "objs w' = (objs w)(h \<mapsto> hs)" "insert (AClass SECRET_KEY) (set template) \<subseteq> hs"
    by blast
  have "protected hs" using new(4) template by (auto simp: protected_def)
  then have "grown objs w w'" using new(2,3) by (auto simp: grown_def)
  moreover have "holds_key objs SECRET_KEY label w'"
    using new(3,4) template unfolding holds_key_def by (intro exI [of _ h] exI [of _ hs]) auto
  ultimately show ?case using \<open>r = Created\<close> new(1) by simp
qed

lemma ensures_aes: "key_store ck session ready objs \<Longrightarrow> ensures ready objs SECRET_KEY label (ensure_aes_key ck session label)"
  unfolding ensure_aes_key_def Let_def by (rule ensures_secret) simp_all

lemma ensure_demo_keys_iff:
  "ensure_demo_keys ck session w = (Ok r, w') \<longleftrightarrow>
     (\<exists>ec w1 rsa w2 aes. ensure_ec_key ck session DEMO_EC_KEY w = (Ok ec, w1)
        \<and> ensure_rsa_key ck session DEMO_RSA_KEY w1 = (Ok rsa, w2)
        \<and> ensure_aes_key ck session DEMO_AES_KEY w2 = (Ok aes, w')
        \<and> r = [(DEMO_EC_KEY, ec), (DEMO_RSA_KEY, rsa), (DEMO_AES_KEY, aes)])"
  unfolding ensure_demo_keys_def io_iffs by blast

definition holds_demo_keys :: "('w \<Rightarrow> object_handle \<rightharpoonup> attribute set) \<Rightarrow> 'w \<Rightarrow> bool" where
  "holds_demo_keys objs w \<longleftrightarrow>
     holds_key objs PRIVATE_KEY DEMO_EC_KEY w \<and> holds_key objs PRIVATE_KEY DEMO_RSA_KEY w
     \<and> holds_key objs SECRET_KEY DEMO_AES_KEY w"

lemma provisioned_state:
  assumes store: "key_store ck session ready objs" and "ready w"
    and "ensure_demo_keys ck session w = (Ok r, w')"
  shows "ready w' \<and> grown objs w w' \<and> holds_demo_keys objs w'"
proof -
  obtain ec w1 rsa w2 aes where steps: "ensure_ec_key ck session DEMO_EC_KEY w = (Ok ec, w1)"
    "ensure_rsa_key ck session DEMO_RSA_KEY w1 = (Ok rsa, w2)" "ensure_aes_key ck session DEMO_AES_KEY w2 = (Ok aes, w')"
    using assms(3) unfolding ensure_demo_keys_iff by blast
  note s1 = ensuresD [OF ensures_ec [OF store] assms(2) steps(1)]
  note s2 = ensuresD [OF ensures_rsa [OF store] s1 [THEN conjunct1] steps(2)]
  note s3 = ensuresD [OF ensures_aes [OF store] s2 [THEN conjunct1] steps(3)]
  have g1: "grown objs w w1" and g2: "grown objs w1 w2" and g3: "grown objs w2 w'" using s1 s2 s3 by simp_all
  have "holds_key objs PRIVATE_KEY DEMO_EC_KEY w1" "holds_key objs PRIVATE_KEY DEMO_RSA_KEY w2" using s1 s2 by simp_all
  then have "holds_key objs PRIVATE_KEY DEMO_EC_KEY w'" "holds_key objs PRIVATE_KEY DEMO_RSA_KEY w'"
    by (simp_all add: grown_holds [OF grown_trans [OF g2 g3]] grown_holds [OF g3])
  then show ?thesis
    using s3 grown_trans [OF g1 grown_trans [OF g2 g3]] by (simp add: holds_demo_keys_def)
qed

text \<open>
  C25. Provisioning never weakens a key: on a token that keeps what it is given, a successful run
  leaves the three demo keys on the token, leaves every object that was there as it was, and every
  private or secret key it added is a token object that is private, sensitive and not
  extractable.
\<close>

theorem provision_protects:
  assumes "key_store ck session ready objs" and "ready w"
    and "ensure_demo_keys ck session w = (Ok r, w')"
  shows "holds_demo_keys objs w'
    \<and> (\<forall>h attrs. objs w h = Some attrs \<longrightarrow> objs w' h = Some attrs)
    \<and> (\<forall>h attrs. objs w h = None \<longrightarrow> objs w' h = Some attrs \<longrightarrow>
         AClass PRIVATE_KEY \<in> attrs \<or> AClass SECRET_KEY \<in> attrs \<longrightarrow>
         {AToken True, APrivate True, ASensitive True, AExtractable False} \<subseteq> attrs)"
  using provisioned_state [OF assms] by (simp add: grown_def protected_def)

text \<open>
  C30. Provisioning is idempotent: run again after a success, it reports all three keys as already
  present and changes nothing on the token.
\<close>

theorem provision_idempotent:
  assumes store: "key_store ck session ready objs" and "ready w"
    and "ensure_demo_keys ck session w = (Ok r, w')"
  shows "ensure_demo_keys ck session w'
    = (Ok [(DEMO_EC_KEY, AlreadyPresent), (DEMO_RSA_KEY, AlreadyPresent), (DEMO_AES_KEY, AlreadyPresent)], w')"
proof -
  have ready: "ready w'" and held: "holds_demo_keys objs w'" using provisioned_state [OF assms] by simp_all
  have "ensure_ec_key ck session DEMO_EC_KEY w' = (Ok AlreadyPresent, w')"
    "ensure_rsa_key ck session DEMO_RSA_KEY w' = (Ok AlreadyPresent, w')"
    "ensure_aes_key ck session DEMO_AES_KEY w' = (Ok AlreadyPresent, w')"
    using held unfolding holds_demo_keys_def
    by (simp_all add: ensures_present [OF ensures_ec [OF store] ready] ensures_present [OF ensures_rsa [OF store] ready]
        ensures_present [OF ensures_aes [OF store] ready])
  then show ?thesis unfolding ensure_demo_keys_iff by blast
qed

section \<open>Evaluation\<close>

text \<open>
  The software token with room for a thousand objects, which refuses a public key template that
  names another class.
\<close>

definition vault_ck :: "soft_token cryptoki" where
  "vault_ck = soft_ck\<lparr>
     ck_generate_key_pair := (\<lambda>s m pub priv w.
       if length (tk_objects w) < 1000 \<and> AClass PRIVATE_KEY \<notin> set pub \<and> AClass SECRET_KEY \<notin> set pub
       then tk_key_pair s m pub priv w else tk_fail (OtherRv 209) ''C_GenerateKeyPair'' w),
     ck_generate_key := (\<lambda>s m template w.
       if length (tk_objects w) < 1000 then tk_secret_key s m template w
       else tk_fail (OtherRv 49) ''C_GenerateKey'' w)\<rparr>"

definition vault_objs :: "soft_token \<Rightarrow> object_handle \<rightharpoonup> attribute set" where
  "vault_objs w h = map_option set (map_of (tk_objects w) h)"

definition vault_ready :: "soft_token \<Rightarrow> bool" where
  "vault_ready w \<longleftrightarrow> tk_live 1 w \<and> tk_logged w \<and> length (tk_objects w) < 2000
     \<and> map fst (tk_objects w) = map (\<lambda>i. of_nat i + 100) [0..<length (tk_objects w)]"

definition empty_vault :: soft_token where
  "empty_vault = blank_token\<lparr>tk_open := [1], tk_next := 2, tk_logged := True\<rparr>"

lemma vault_distinct: "vault_ready w \<Longrightarrow> distinct (map fst (tk_objects w))"
  by (auto simp: vault_ready_def distinct_map inj_on_def word_of_nat_eq_iff take_bit_eq_mod)

lemma vault_next_free:
  assumes "vault_ready w" and "length (tk_objects w) \<le> n" and "n < 2010"
  shows "map_of (tk_objects w) (of_nat n + 100) = None"
proof -
  have fst: "map fst (tk_objects w) = map (\<lambda>i. of_nat i + 100) [0..<length (tk_objects w)]"
    and "length (tk_objects w) < 2000" using assms(1) by (simp_all add: vault_ready_def)
  have "of_nat n + 100 \<notin> set (map fst (tk_objects w))"
    unfolding fst using assms(2,3) by (auto simp: word_of_nat_eq_iff take_bit_eq_mod)
  then show ?thesis by (simp add: map_of_eq_None_iff)
qed

lemma vault_find:
  assumes "vault_ready w"
  shows "\<exists>hs. ck_find_objects vault_ck 1 template w = (Ok hs, w)
    \<and> set hs = {h. \<exists>attrs. vault_objs w h = Some attrs \<and> set template \<subseteq> attrs}"
proof -
  have "tk_live 1 w" "tk_logged w" using assms by (simp_all add: vault_ready_def)
  moreover have "map_of (tk_objects w) h = Some attrs \<longleftrightarrow> (h, attrs) \<in> set (tk_objects w)" for h attrs
    using vault_distinct [OF assms] by simp
  ultimately show ?thesis
    by (auto simp: vault_ck_def soft_ck_def tk_find_def tk_guard_def tk_visible_def vault_objs_def image_iff) blast
qed

lemma vault_pair:
  assumes ready: "vault_ready w" and gen: "ck_generate_key_pair vault_ck 1 m pub priv w = (Ok (p, q), w')"
  shows "vault_ready w' \<and> p \<noteq> q \<and> vault_objs w p = None \<and> vault_objs w q = None
    \<and> (\<exists>ps qs. vault_objs w' = (vault_objs w)(p \<mapsto> ps, q \<mapsto> qs)
         \<and> set pub \<subseteq> ps \<and> AClass PRIVATE_KEY \<notin> ps \<and> AClass SECRET_KEY \<notin> ps
         \<and> insert (AClass PRIVATE_KEY) (set priv) \<subseteq> qs)"
proof -
  let ?n = "length (tk_objects w)"
  have live: "tk_live 1 w" and fst: "map fst (tk_objects w) = map (\<lambda>i. of_nat i + 100) [0..<?n]"
    using ready by (simp_all add: vault_ready_def)
  have small: "?n < 1000" and cls: "AClass PRIVATE_KEY \<notin> set pub" "AClass SECRET_KEY \<notin> set pub"
    using gen by (auto simp: vault_ck_def tk_fail_def io_throw_def split: if_splits)
  have p: "p = of_nat ?n + 100" and q: "q = of_nat (Suc ?n) + 100"
    and w': "w' = w\<lparr>tk_objects := tk_objects w @ [(p, AClass PUBLIC_KEY # pub), (q, AClass PRIVATE_KEY # priv)]\<rparr>"
    using gen live small cls by (auto simp: vault_ck_def tk_key_pair_def tk_guard_def tk_add_def Let_def)
  have free: "map_of (tk_objects w) p = None" "map_of (tk_objects w) q = None"
    unfolding p q using small by (intro vault_next_free [OF ready]; simp)+
  have "p \<noteq> q" unfolding p q by simp
  moreover have "vault_ready w'"
    using ready small by (simp add: vault_ready_def w' fst p q tk_live_def)
  moreover have "vault_objs w' = (vault_objs w)(p \<mapsto> set (AClass PUBLIC_KEY # pub), q \<mapsto> set (AClass PRIVATE_KEY # priv))"
    using free \<open>p \<noteq> q\<close> by (auto simp: vault_objs_def w' fun_eq_iff map_add_def split: option.splits)
  ultimately show ?thesis
    using free cls by (auto simp: vault_objs_def)
qed

lemma vault_key:
  assumes ready: "vault_ready w" and gen: "ck_generate_key vault_ck 1 m template w = (Ok h, w')"
  shows "vault_ready w' \<and> vault_objs w h = None
    \<and> (\<exists>hs. vault_objs w' = (vault_objs w)(h \<mapsto> hs) \<and> insert (AClass SECRET_KEY) (set template) \<subseteq> hs)"
proof -
  let ?n = "length (tk_objects w)"
  have live: "tk_live 1 w" and fst: "map fst (tk_objects w) = map (\<lambda>i. of_nat i + 100) [0..<?n]"
    using ready by (simp_all add: vault_ready_def)
  have small: "?n < 1000" using gen by (auto simp: vault_ck_def tk_fail_def io_throw_def split: if_splits)
  have h: "h = of_nat ?n + 100" and w': "w' = w\<lparr>tk_objects := tk_objects w @ [(h, AClass SECRET_KEY # template)]\<rparr>"
    using gen live small by (auto simp: vault_ck_def tk_secret_key_def tk_guard_def tk_add_def Let_def)
  have free: "map_of (tk_objects w) h = None"
    unfolding h using small by (intro vault_next_free [OF ready]) simp_all
  moreover have "vault_ready w'" using ready small by (simp add: vault_ready_def w' fst h tk_live_def)
  moreover have "vault_objs w' = (vault_objs w)(h \<mapsto> set (AClass SECRET_KEY # template))"
    using free by (auto simp: vault_objs_def w' fun_eq_iff map_add_def split: option.splits)
  ultimately show ?thesis by (auto simp: vault_objs_def)
qed

lemma vault_store: "key_store vault_ck 1 vault_ready vault_objs"
  unfolding key_store_def
  by (rule conjI, intro allI impI, erule vault_find, rule conjI, intro allI impI, erule (1) vault_pair,
      intro allI impI, erule (1) vault_key)

lemma empty_vault_ready: "vault_ready empty_vault"
  by (simp add: vault_ready_def empty_vault_def blank_token_def tk_live_def)

lemma empty_vault_run:
  "\<exists>w. ensure_demo_keys vault_ck 1 empty_vault
     = (Ok [(DEMO_EC_KEY, Created), (DEMO_RSA_KEY, Created), (DEMO_AES_KEY, Created)], w)"
  by (simp add: ensure_demo_keys_def ensure_ec_key_def ensure_rsa_key_def ensure_aes_key_def find_object_def io_simps
      vault_ck_def soft_token_simps empty_vault_def blank_token_def private_key_base_def public_key_base_def
      DEMO_EC_KEY_def DEMO_RSA_KEY_def DEMO_AES_KEY_def)

theorem provision_protects_witness:
  "\<exists>r w. ensure_demo_keys vault_ck 1 empty_vault = (Ok r, w) \<and> holds_demo_keys vault_objs w"
proof -
  obtain r w where run: "ensure_demo_keys vault_ck 1 empty_vault = (Ok r, w)" using empty_vault_run by blast
  with provision_protects [OF vault_store empty_vault_ready run] show ?thesis by simp
qed

theorem provision_idempotent_witness:
  "\<exists>r w. ensure_demo_keys vault_ck 1 empty_vault = (Ok r, w)
     \<and> ensure_demo_keys vault_ck 1 w
         = (Ok [(DEMO_EC_KEY, AlreadyPresent), (DEMO_RSA_KEY, AlreadyPresent), (DEMO_AES_KEY, AlreadyPresent)], w)"
proof -
  obtain r w where run: "ensure_demo_keys vault_ck 1 empty_vault = (Ok r, w)" using empty_vault_run by blast
  with provision_idempotent [OF vault_store empty_vault_ready run] show ?thesis by simp
qed

end
