(* ===== verification/Token_Check.thy ===== *)
theory Token_Check
  imports Provision Crypto
begin

text \<open>
  The smoke test \<open>bin/token-check.rs\<close>: it opens the token, checks the protection of the demo
  keys and that they work, and probes that the session can write. The model of the token, which
  the program only prints, is read through an argument.
\<close>

section \<open>Checks\<close>

definition EXPECTED_KEYPAIRS :: "string list" where
  "EXPECTED_KEYPAIRS = [''demo-ec-p256'', ''demo-rsa-2048'']"

definition EXPECTED_SECRET_KEYS :: "string list" where
  "EXPECTED_SECRET_KEYS = [''demo-aes-256'']"

text \<open>\<open>str::contains\<close>.\<close>

definition str_contains :: "string \<Rightarrow> string \<Rightarrow> bool" where
  "str_contains needle s = list_ex (\<lambda>i. take (length needle) (drop i s) = needle) [0..<Suc (length s)]"

text \<open>The loop over the attributes of the private key: the first bad one ends the check.\<close>

fun check_attributes :: "attribute list \<Rightarrow> (unit, failure) result" where
  "check_attributes [] = Ok ()"
| "check_attributes (ASensitive False # _) = Err (anyhow_msg ''private key is CKA_SENSITIVE=false'')"
| "check_attributes (AExtractable True # _) = Err (anyhow_msg ''private key is CKA_EXTRACTABLE=true'')"
| "check_attributes (_ # attrs) = check_attributes attrs"

definition probe_mechanism :: "string \<Rightarrow> ck_mechanism" where
  "probe_mechanism label = (if str_contains ''rsa'' label then MSha256RsaPkcs else MEcdsa)"

definition probe_payload :: "('k, 'sg, 'r) crypto_lib \<Rightarrow> string \<Rightarrow> bytes" where
  "probe_payload lib label =
     (if str_contains ''rsa'' label then as_bytes ''token-check'' else sha256 lib (as_bytes ''token-check''))"

definition check_keypair ::
    "'w cryptoki \<Rightarrow> ('k, 'sg, 'r) crypto_lib \<Rightarrow> session \<Rightarrow> string \<Rightarrow> ('w, string, failure) io" where
  "check_keypair ck lib session label =
     io_bind (find_object_pair ck session label)
       (\<lambda>pair. io_bind (io_lift (ok_or (anyhow_msg ''key pair not found; did softhsm-init run?'') pair))
       (\<lambda>(private_key, public_key). io_bind
          (io_result (ck_context ''C_GetAttributeValue failed'')
             (ck_get_attributes ck session private_key [TSensitive, TExtractable]))
       (\<lambda>attrs. io_bind (io_lift (check_attributes attrs))
       (\<lambda>_. io_bind (io_result (ck_context ''C_Sign failed'')
               (ck_sign ck session (probe_mechanism label) private_key (probe_payload lib label)))
       (\<lambda>signature. io_bind (io_result (ck_context ''C_Verify failed'')
               (ck_verify ck session (probe_mechanism label) public_key (probe_payload lib label) signature))
       (\<lambda>_. io_return (''sensitive, non-extractable, signs ok ('' @ show_nat (length signature)
               @ '' byte signature)'')))))))"

definition write_probe :: "'w cryptoki \<Rightarrow> session \<Rightarrow> ('w, unit, failure) io" where
  "write_probe ck session =
     io_bind (io_result (ck_context ''C_CreateObject failed -- session is not read/write'')
                (ck_create_object ck session
                   [AClass DATA, AToken False, APrivate False, ALabel (as_bytes ''token-check-probe''),
                    AValue (as_bytes ''probe'')]))
       (\<lambda>handle. io_result (ck_context ''C_DestroyObject failed'') (ck_destroy_object ck session handle))"

section \<open>The program\<close>

text \<open>The loops print one line per key and collect what failed.\<close>

fun check_keypairs ::
    "'w cryptoki \<Rightarrow> ('k, 'sg, 'r) crypto_lib \<Rightarrow> session \<Rightarrow> string list \<Rightarrow> ('w console, string list, failure) io" where
  "check_keypairs ck lib session [] = io_return []"
| "check_keypairs ck lib session (label # labels) =
     io_case (on_token (check_keypair ck lib session label))
       (\<lambda>checked. case checked of
          Ok note \<Rightarrow> io_bind (println (''keypair     : '' @ label @ '' -> '' @ note))
            (\<lambda>_. check_keypairs ck lib session labels)
        | Err err \<Rightarrow> io_bind (println (''keypair     : '' @ label @ '' -> FAILED: '' @ show_chain (show_cause ck) err))
            (\<lambda>_. io_bind (check_keypairs ck lib session labels)
              (\<lambda>failures. io_return ((label @ '': '' @ show_chain (show_cause ck) err) # failures))))"

fun check_secret_keys ::
    "'w cryptoki \<Rightarrow> session \<Rightarrow> string list \<Rightarrow> ('w console, string list, failure) io" where
  "check_secret_keys ck session [] = io_return []"
| "check_secret_keys ck session (label # labels) =
     io_bind (on_token (find_object ck session SECRET_KEY label))
       (\<lambda>found. case found of
          Some _ \<Rightarrow> io_bind (println (''secret key  : '' @ label @ '' -> present''))
            (\<lambda>_. check_secret_keys ck session labels)
        | None \<Rightarrow> io_bind (println (''secret key  : '' @ label @ '' -> FAILED: not found''))
            (\<lambda>_. io_bind (check_secret_keys ck session labels)
              (\<lambda>failures. io_return ((label @ '': not found'') # failures))))"

definition check_writes :: "'w cryptoki \<Rightarrow> session \<Rightarrow> ('w console, string list, failure) io" where
  "check_writes ck session =
     io_case (on_token (write_probe ck session))
       (\<lambda>probe. case probe of
          Ok _ \<Rightarrow> io_bind (println ''rw probe    : ok (created and destroyed a session object)'') (\<lambda>_. io_return [])
        | Err err \<Rightarrow> io_bind (println (''rw probe    : FAILED: '' @ show_chain (show_cause ck) err))
            (\<lambda>_. io_return [''read/write probe: '' @ show_chain (show_cause ck) err]))"

fun join :: "string \<Rightarrow> string list \<Rightarrow> string" where
  "join sep [] = []"
| "join sep [s] = s"
| "join sep (s # t # ss) = s @ sep @ join sep (t # ss)"

definition newline :: string where
  "newline = [CHR 0x0A]"

definition verdict :: "string list \<Rightarrow> ('w console, unit, failure) io" where
  "verdict failures =
     (if failures = []
      then println (newline @ ''token-check passed: proxy can open the shared token read/write.'')
      else io_throw (anyhow_msg (''token-check failed:'' @ newline @ ''  - '' @ join (newline @ ''  - '') failures)))"

definition run_checks ::
    "'w cryptoki \<Rightarrow> ('k, 'sg, 'r) crypto_lib \<Rightarrow> session \<Rightarrow> ('w console, unit, failure) io" where
  "run_checks ck lib session =
     io_bind (check_keypairs ck lib session EXPECTED_KEYPAIRS)
       (\<lambda>pairs. io_bind (check_secret_keys ck session EXPECTED_SECRET_KEYS)
       (\<lambda>secrets. io_bind (check_writes ck session)
       (\<lambda>writes. io_bind (\<lambda>c. (Ok (), token_effect (\<lambda>w. snd (ck_logout ck session w)) c))
       (\<lambda>_. verdict (pairs @ secrets @ writes)))))"

definition token_check_main ::
    "'w cryptoki \<Rightarrow> ('k, 'sg, 'r) crypto_lib \<Rightarrow> (slot \<Rightarrow> ('w, string, ck_error) io) \<Rightarrow> environ
     \<Rightarrow> ('w console, unit, failure) io" where
  "token_check_main ck lib token_model env =
     io_bind (io_lift (token_config_from_env env))
       (\<lambda>config. io_bind (for_each println
            [''== token-check =='', ''module      : '' @ tc_module_path config, ''token label : '' @ tc_token_label config])
       (\<lambda>_. io_bind (on_token (open_token ck config))
       (\<lambda>(slot, session). scoped (\<lambda>w. ck_drop_context ck (ck_drop_session ck session w))
          (io_bind (on_token (io_result (ck_context ''C_GetTokenInfo failed'') (token_model slot)))
            (\<lambda>model. io_bind (for_each println
                 [''slot        : '' @ show_nat (unat slot), ''token model : '' @ trim model,
                  ''login       : ok (read/write session)''])
            (\<lambda>_. run_checks ck lib session))))))"

section \<open>What a pass means\<close>

lemma check_attributes_iff:
  "check_attributes attrs = Ok () \<longleftrightarrow> ASensitive False \<notin> set attrs \<and> AExtractable True \<notin> set attrs"
  by (induction attrs rule: check_attributes.induct) auto

lemma io_case_iff: "io_case m k w = (y, w') \<longleftrightarrow> (\<exists>r w1. m w = (r, w1) \<and> k r w1 = (y, w'))"
  by (auto simp: io_case_def split: prod.splits)

lemma println_iff: "println line c = (y, c') \<longleftrightarrow> y = Ok () \<and> c' = c\<lparr>co_lines := co_lines c @ [line]\<rparr>"
  by (auto simp: println_def)

lemma on_token_iff: "on_token m c = (r, c') \<longleftrightarrow> (\<exists>w. m (co_world c) = (r, w) \<and> c' = c\<lparr>co_world := w\<rparr>)"
  by (auto simp: on_token_def split: prod.splits)

lemma scoped_iff: "scoped f m c = (r, c') \<longleftrightarrow> (\<exists>c1. m c = (r, c1) \<and> c' = token_effect f c1)"
  by (auto simp: scoped_def split: prod.splits)

lemmas console_iffs = io_iffs io_case_iff println_iff on_token_iff scoped_iff

text \<open>A key pair that is there, is not reported as readable, and whose signature verifies.\<close>

definition keypair_usable ::
    "'w cryptoki \<Rightarrow> ('k, 'sg, 'r) crypto_lib \<Rightarrow> session \<Rightarrow> string \<Rightarrow> 'w \<Rightarrow> 'w \<Rightarrow> bool" where
  "keypair_usable ck lib session label w w' \<longleftrightarrow>
     (\<exists>private_key public_key w1 attrs w2 signature w3.
        find_object_pair ck session label w = (Ok (Some (private_key, public_key)), w1)
        \<and> ck_get_attributes ck session private_key [TSensitive, TExtractable] w1 = (Ok attrs, w2)
        \<and> ASensitive False \<notin> set attrs \<and> AExtractable True \<notin> set attrs
        \<and> ck_sign ck session (probe_mechanism label) private_key (probe_payload lib label) w2 = (Ok signature, w3)
        \<and> ck_verify ck session (probe_mechanism label) public_key (probe_payload lib label) signature w3 = (Ok (), w'))"

lemma check_keypair_usable:
  "check_keypair ck lib session label w = (Ok note, w') \<Longrightarrow> keypair_usable ck lib session label w w'"
  unfolding check_keypair_def keypair_usable_def
  by (auto simp: io_iffs check_attributes_iff)

text \<open>A loop that collected no failure went through its keys one after the other, from world to world.\<close>

fun chained :: "('k \<Rightarrow> 'w \<Rightarrow> 'w \<Rightarrow> bool) \<Rightarrow> 'k list \<Rightarrow> 'w \<Rightarrow> 'w \<Rightarrow> bool" where
  "chained P [] w w' \<longleftrightarrow> w' = w"
| "chained P (k # ks) w w' \<longleftrightarrow> (\<exists>w1. P k w w1 \<and> chained P ks w1 w')"

lemma check_keypairs_clean:
  "check_keypairs ck lib session labels c = (Ok [], c') \<Longrightarrow>
     chained (keypair_usable ck lib session) labels (co_world c) (co_world c')"
proof (induction labels arbitrary: c)
  case (Cons l labels)
  obtain checked w' where "check_keypair ck lib session l (co_world c) = (checked, w')" by fastforce
  with Cons.prems(1) obtain msg w1 out where "check_keypair ck lib session l (co_world c) = (Ok msg, w1)"
    and rest: "check_keypairs ck lib session labels (c\<lparr>co_world := w1, co_lines := out\<rparr>) = (Ok [], c')"
    by (cases checked) (auto simp: console_iffs)
  then show ?case using Cons.IH [OF rest] by (auto dest: check_keypair_usable)
qed (simp add: io_iffs)

lemma check_secret_keys_clean:
  "check_secret_keys ck session labels c = (Ok [], c') \<Longrightarrow>
     chained (\<lambda>label w w'. \<exists>h. find_object ck session SECRET_KEY label w = (Ok (Some h), w')) labels
       (co_world c) (co_world c')"
proof (induction labels arbitrary: c)
  case (Cons l labels)
  from Cons.prems(1) obtain h w1 out where "find_object ck session SECRET_KEY l (co_world c) = (Ok (Some h), w1)"
    and rest: "check_secret_keys ck session labels (c\<lparr>co_world := w1, co_lines := out\<rparr>) = (Ok [], c')"
    by (auto simp: console_iffs split: option.split_asm)
  then show ?case using Cons.IH [OF rest] by auto
qed (simp add: io_iffs)

lemma check_writes_clean:
  assumes "check_writes ck session c = (Ok [], c')"
  shows "write_probe ck session (co_world c) = (Ok (), co_world c')"
proof -
  obtain probe w' where "write_probe ck session (co_world c) = (probe, w')" by fastforce
  with assms show ?thesis by (cases probe) (auto simp: check_writes_def console_iffs)
qed

lemma run_checks_clean:
  assumes "run_checks ck lib session c = (Ok (), c')"
  shows "\<exists>w1 w2 w3. chained (keypair_usable ck lib session) EXPECTED_KEYPAIRS (co_world c) w1
    \<and> chained (\<lambda>label w w'. \<exists>h. find_object ck session SECRET_KEY label w = (Ok (Some h), w')) EXPECTED_SECRET_KEYS w1 w2
    \<and> write_probe ck session w2 = (Ok (), w3)
    \<and> co_world c' = snd (ck_logout ck session w3)"
proof -
  from assms obtain pairs c1 secrets c2 writes c3 c4 where
    p: "check_keypairs ck lib session EXPECTED_KEYPAIRS c = (Ok pairs, c1)"
    and s: "check_secret_keys ck session EXPECTED_SECRET_KEYS c1 = (Ok secrets, c2)"
    and w: "check_writes ck session c2 = (Ok writes, c3)"
    and l: "c4 = token_effect (\<lambda>w. snd (ck_logout ck session w)) c3"
    and v: "verdict (pairs @ secrets @ writes) c4 = (Ok (), c')"
    unfolding run_checks_def io_bind_Ok_iff by blast
  from v have "pairs = []" "secrets = []" "writes = []" "co_world c' = co_world c4"
    by (auto simp: verdict_def io_throw_def println_def split: if_splits)
  with check_keypairs_clean check_secret_keys_clean check_writes_clean p s w l show ?thesis
    by (intro exI [of _ "co_world c1"] exI [of _ "co_world c2"] exI [of _ "co_world c3"])
       (auto simp: token_effect_def)
qed

text \<open>
  C31. A pass is evidence about one session and one run: when the check exits successfully, it opened the
  token in the world it was started in, and from there, in this order and in that session, it read
  the token information, found each of the two demo key pairs with a private key that the token
  did not report as readable or extractable and whose signature it verified with the public key,
  found the demo secret key, and created and destroyed an object; then it logged out and closed
  what it had opened.
\<close>

theorem token_check_sound:
  assumes "token_check_main ck lib token_model env c = (Ok (), c')"
  shows "\<exists>config slot session model h w1 w2 w3 w4 w5 w6.
      token_config_from_env env = Ok config
    \<and> open_token ck config (co_world c) = (Ok (slot, session), w1)
    \<and> token_model slot w1 = (Ok model, w2)
    \<and> keypair_usable ck lib session ''demo-ec-p256'' w2 w3
    \<and> keypair_usable ck lib session ''demo-rsa-2048'' w3 w4
    \<and> find_object ck session SECRET_KEY ''demo-aes-256'' w4 = (Ok (Some h), w5)
    \<and> write_probe ck session w5 = (Ok (), w6)
    \<and> co_world c' = ck_drop_context ck (ck_drop_session ck session (snd (ck_logout ck session w6)))"
proof -
  from assms obtain config slot session w1 model w2 out c2 where opened: "token_config_from_env env = Ok config"
    "open_token ck config (co_world c) = (Ok (slot, session), w1)" "token_model slot w1 = (Ok model, w2)"
    and checks: "run_checks ck lib session (c\<lparr>co_world := w2, co_lines := out\<rparr>) = (Ok (), c2)"
    and c': "c' = token_effect (\<lambda>w. ck_drop_context ck (ck_drop_session ck session w)) c2"
    unfolding token_check_main_def by (auto simp: console_iffs)
  from run_checks_clean [OF checks] obtain w3 w4 w5 w6 h where
    "keypair_usable ck lib session ''demo-ec-p256'' w2 w3" "keypair_usable ck lib session ''demo-rsa-2048'' w3 w4"
    "find_object ck session SECRET_KEY ''demo-aes-256'' w4 = (Ok (Some h), w5)"
    "write_probe ck session w5 = (Ok (), w6)" "co_world c2 = snd (ck_logout ck session w6)"
    by (auto simp: EXPECTED_KEYPAIRS_def EXPECTED_SECRET_KEYS_def)
  with opened c' show ?thesis unfolding token_effect_def by (intro exI conjI; (assumption | simp))
qed

section \<open>Evaluation\<close>

text \<open>The vault with the demo keys as provisioning leaves them, before any session is opened.\<close>

definition demo_environ :: environ where
  "demo_environ = [''USER_PIN'' \<mapsto> ''1234'', ''TOKEN_LABEL'' \<mapsto> ''t'']"

definition filled_vault :: "soft_token console" where
  "filled_vault = snd (provision_main vault_ck demo_environ \<lparr> co_world = blank_token, co_lines = [] \<rparr>)"

definition no_model :: "slot \<Rightarrow> (soft_token, string, ck_error) io" where
  "no_model slot = io_return ''SoftHSM''"

lemma vault_calls:
  "ck_find_objects vault_ck = tk_find" "ck_get_attributes vault_ck = tk_get_attributes" "ck_sign vault_ck = tk_sign"
  "ck_verify vault_ck = tk_verify" "ck_drop_session vault_ck = tk_close_session"
  "ck_drop_context vault_ck = (\<lambda>w. w\<lparr>tk_open := [], tk_logged := False\<rparr>)"
  "ck_logout vault_ck = (\<lambda>s. tk_guard s (\<lambda>w. (Ok (), w\<lparr>tk_logged := False\<rparr>)))"
  "ck_create_object vault_ck = (\<lambda>s attrs. tk_guard s (\<lambda>w. let (h, w1) = tk_add attrs w in (Ok h, w1)))"
  "ck_destroy_object vault_ck = (\<lambda>s h. tk_guard s (\<lambda>w.
     (Ok (), w\<lparr>tk_objects := filter (\<lambda>(x, _). x \<noteq> h) (tk_objects w)\<rparr>)))"
  "length (tk_objects w) < 1000 \<Longrightarrow> AClass PRIVATE_KEY \<notin> set pub \<Longrightarrow> AClass SECRET_KEY \<notin> set pub \<Longrightarrow>
     ck_generate_key_pair vault_ck s m pub priv w = tk_key_pair s m pub priv w"
  "length (tk_objects w) < 1000 \<Longrightarrow> ck_generate_key vault_ck s m template w = tk_secret_key s m template w"
  by (simp_all add: vault_ck_def soft_ck_def)

lemma trim_sample: "trim ''t '' = ''t''" "trim ''u'' = ''u''"
  by code_simp+

lemma open_filled:
  "token_config_from_env demo_environ =
     Ok \<lparr> tc_module_path = ''/usr/lib/softhsm/libsofthsm2.so'', tc_token_label = ''t'', tc_user_pin = ''1234'' \<rparr>"
  by (simp add: token_config_from_env_def demo_environ_def)

lemma open_vault:
  assumes "\<not> tk_removed w" "\<not> tk_logged w" "tk_next w \<notin> set (tk_dead w)" "tc_token_label config = ''t''"
    "tc_user_pin config = ''1234''"
  shows "open_token vault_ck config w
    = (Ok (5, tk_next w), w\<lparr>tk_next := tk_next w + 1, tk_open := tk_next w # tk_open w, tk_logged := True\<rparr>)"
  using assms
  by (simp add: open_token_def load_module_def locate_slot_def login_session_def on_error_def io_simps vault_ck_def
      soft_token_simps trim_sample)

lemma filled_vault_objects:
  "co_world filled_vault = blank_token\<lparr>tk_next := 2, tk_objects :=
     [(100, AClass PUBLIC_KEY # public_key_base DEMO_EC_KEY @ [AKeyType EC, AEcParams SECP256R1_OID_DER]),
      (101, AClass PRIVATE_KEY # private_key_base DEMO_EC_KEY),
      (102, AClass PUBLIC_KEY # public_key_base DEMO_RSA_KEY @
         [AKeyType RSA, AModulusBits 2048, APublicExponent [0x01, 0x00, 0x01], AEncrypt True]),
      (103, AClass PRIVATE_KEY # private_key_base DEMO_RSA_KEY @ [ADecrypt True]),
      (104, [AClass SECRET_KEY, AToken True, APrivate True, ASensitive True, AExtractable False, AEncrypt True,
         ADecrypt True, AKeyType AES, AValueLen 32, ALabel (as_bytes DEMO_AES_KEY)])]\<rparr>"
  by (simp add: filled_vault_def provision_main_def open_filled open_vault on_token_def println_def scoped_def token_effect_def
      ensure_demo_keys_def ensure_ec_key_def ensure_rsa_key_def ensure_aes_key_def find_object_def io_simps
      vault_calls soft_token_simps blank_token_def private_key_base_def public_key_base_def
      DEMO_EC_KEY_def DEMO_RSA_KEY_def DEMO_AES_KEY_def)

lemma filled_vault_passes:
  "fst (token_check_main vault_ck sample_lib no_model demo_environ filled_vault) = Ok ()"
proof -
  note keys = DEMO_EC_KEY_def DEMO_RSA_KEY_def DEMO_AES_KEY_def EXPECTED_KEYPAIRS_def EXPECTED_SECRET_KEYS_def
  have chk: "check_keypair vault_ck sample_lib 2 label w =
      (Ok (''sensitive, non-extractable, signs ok ('' @ show_nat (Suc (length (probe_payload sample_lib label)))
         @ '' byte signature)''), w)"
    if "w = (co_world filled_vault)\<lparr>tk_next := 3, tk_open := [2], tk_logged := True\<rparr>"
      and "label \<in> set EXPECTED_KEYPAIRS" for label w
    using that
    by (auto simp: keys filled_vault_objects check_keypair_def find_object_pair_def find_object_def io_simps vault_calls
        soft_token_simps blank_token_def private_key_base_def public_key_base_def)
  show ?thesis
    by (simp add: token_check_main_def run_checks_def open_filled open_vault blank_token_def io_simps println_def
        on_token_def scoped_def no_model_def check_writes_def write_probe_def verdict_def chk filled_vault_objects
        find_object_def vault_calls soft_token_simps token_effect_def keys)
qed

theorem token_check_sound_witness:
  "\<exists>config slot session w1 w2 w3. token_config_from_env demo_environ = Ok config
     \<and> open_token vault_ck config (co_world filled_vault) = (Ok (slot, session), w1)
     \<and> no_model slot w1 = (Ok ''SoftHSM'', w2)
     \<and> keypair_usable vault_ck sample_lib session ''demo-ec-p256'' w2 w3"
proof -
  have "token_check_main vault_ck sample_lib no_model demo_environ filled_vault
      = (Ok (), snd (token_check_main vault_ck sample_lib no_model demo_environ filled_vault))"
    by (rule prod_eqI) (simp_all add: filled_vault_passes)
  from token_check_sound [OF this] show ?thesis by (fastforce simp: no_model_def io_return_def)
qed

end
