(* ===== verification/Interleaving.thy ===== *)
theory Interleaving
  imports Pooled_Service
begin

text \<open>
  The pooled service under load: many calls are in progress at once, and the runtime switches between
  them. A call goes through the sections of \<open>pooled.rs\<close> that touch shared state one step each, with any
  steps of other calls in between: the breaker, the authorizer, the limiter, the preparation of its job,
  the answer of the pool, or the stages of a lookup in the key cache, then the report to the breaker with the
  rest of the handler, and the metrics. A call that waits can be dropped, when its client goes away or the
  server's timeout strikes.
\<close>

section \<open>A call in progress\<close>

record call =
  ca_readings :: readings
  ca_certs :: peer_certs
  ca_rpc :: rpc

datatype phase =
    Arrived
  | PastBreaker
  | Identified "string option"
  | Admitted
  | Working work
  | Looking string bool
  | Loading string bool
  | Sharing string bool
  | Awaited awaited
  | Done "(reply, status) result"
  | Answered "(reply, status) result"
  | Dropped

fun next_phase :: "('a \<Rightarrow> phase) \<Rightarrow> ('a, status) result \<times> 's \<Rightarrow> phase \<times> 's" where
  "next_phase f (Ok x, sv) = (f x, sv)"
| "next_phase f (Err e, sv) = (Done (Err e), sv)"

text \<open>
  The end of a lookup in \<open>cache/mod.rs\<close>: a result is counted, and passed on with the flag that says whether
  the key was there when the lookup began.
\<close>

definition key_answered ::
    "('c, 'g, 'm, 'p, 'w, 'k, 'sg, 'r) service_deps \<Rightarrow> bool \<Rightarrow> (lookup, pool_error) result \<Rightarrow> ('c, 'g, 'm, 'p) pooled_service
     \<Rightarrow> phase \<times> ('c, 'g, 'm, 'p) pooled_service" where
  "key_answered deps was_present r sv =
     (Awaited (KeyAnswer (key_status (sd_ck deps) (result_map (\<lambda>v. (v, was_present)) r))),
      case r of
        Ok v \<Rightarrow> sv_cache_update (\<lambda>c. c\<lparr>pc_metrics := count_lookup was_present v (pc_metrics c)\<rparr>) sv
      | Err _ \<Rightarrow> sv)"

text \<open>
  A call that works for the pool waits for the answer to its job. A lookup probes the cache, then asks for
  the entry, which it finds, loads itself or gets from the load of another call; a load is an answer of the
  pool, which is then stored.
\<close>

fun advance ::
    "('c, 'g, 'm, 'p, 'w, 'k, 'sg, 'r) service_deps \<Rightarrow> call \<Rightarrow> phase \<Rightarrow> ('c, 'g, 'm, 'p) pooled_service
     \<Rightarrow> (phase \<times> ('c, 'g, 'm, 'p) pooled_service) option" where
  "advance deps c Arrived sv = Some (next_phase (\<lambda>_. PastBreaker) (check_breaker (ca_readings c 1) sv))"
| "advance deps c PastBreaker sv =
     Some (next_phase Identified
       (check_identity (sd_x509 deps) (ca_certs c) (rpc_label (ca_rpc c)) (rpc_operation (ca_rpc c)) sv))"
| "advance deps c (Identified identity) sv =
     Some (next_phase (\<lambda>_. Admitted) (check_share (sd_limiter deps) (ca_readings c 2) identity sv))"
| "advance deps c Admitted sv = Some (next_phase Working (rpc_prepare deps (ca_rpc c) sv))"
| "advance deps c (Working (PoolWork request)) sv =
     Some (next_phase Awaited (rpc_await deps (ca_readings c) (PoolWork request) sv))"
| "advance deps c (Working (KeyWork label)) sv =
     Some (Looking label (mk_contains_key (sd_moka deps) (ca_readings c 3) label (pc_entries (sv_cache sv))), sv)"
| "advance deps c (Looking label was_present) sv =
     (let (g, m) = mk_try_get (sd_moka deps) (ca_readings c 4) label (pc_entries (sv_cache sv));
          sv1 = sv_cache_update (\<lambda>c. c\<lparr>pc_entries := m\<rparr>) sv
      in Some (case g of
           Cached v \<Rightarrow> key_answered deps was_present (Ok v) sv1
         | Coalesced \<Rightarrow> (Sharing label was_present, sv1)
         | Init \<Rightarrow> (Loading label was_present, sv1)))"
| "advance deps c (Sharing label was_present) sv = Some (key_answered deps was_present (sd_shared deps label) sv)"
| "advance deps c (Loading label was_present) sv =
     (let (r, sv1) = io_result public_key_outcome (sd_submit deps (JobGetPublicKey label)) sv
      in Some (key_answered deps was_present r
           (sv_cache_update (\<lambda>e. e\<lparr>pc_entries := mk_settle (sd_moka deps) (ca_readings c 5) label (ok_value r) (pc_entries e)\<rparr>) sv1)))"
| "advance deps c (Awaited answer) sv =
     Some (next_phase (\<lambda>r. Done (Ok r)) (rpc_finish deps (ca_readings c) (ca_rpc c) answer sv))"
| "advance deps c (Done r) sv =
     Some (Answered r, record_request deps (operation_as_str (rpc_operation (ca_rpc c)))
                         (ca_readings c 0) (ca_readings c 9) r sv)"
| "advance deps c (Answered r) sv = None"
| "advance deps c Dropped sv = None"

section \<open>Many calls\<close>

record ('c, 'g, 'm, 'p) serving =
  sg_service :: "('c, 'g, 'm, 'p) pooled_service"
  sg_calls :: "(call \<times> phase) list"

text \<open>
  A call can be dropped while it waits. It leaves the job it submitted behind, so the pool and the cache may
  have changed, but it reports neither to the breaker nor to the metrics.
\<close>

fun waiting :: "phase \<Rightarrow> bool" where
  "waiting (Working _) = True"
| "waiting (Looking _ _) = True"
| "waiting (Loading _ _) = True"
| "waiting (Sharing _ _) = True"
| "waiting _ = False"

inductive serving_step ::
    "('c, 'g, 'm, 'p, 'w, 'k, 'sg, 'r) service_deps \<Rightarrow> ('c, 'g, 'm, 'p) serving \<Rightarrow> ('c, 'g, 'm, 'p) serving \<Rightarrow> bool"
  for deps where
  arrive: "serving_step deps s (s\<lparr>sg_calls := sg_calls s @ [(c, Arrived)]\<rparr>)"
| proceed:
    "i < length (sg_calls s) \<Longrightarrow> sg_calls s ! i = (c, ph) \<Longrightarrow> advance deps c ph (sg_service s) = Some (ph', sv) \<Longrightarrow>
     serving_step deps s (s\<lparr>sg_service := sv, sg_calls := (sg_calls s)[i := (c, ph')]\<rparr>)"
| drop:
    "i < length (sg_calls s) \<Longrightarrow> sg_calls s ! i = (c, ph) \<Longrightarrow> waiting ph \<Longrightarrow>
     serving_step deps s
       (s\<lparr>sg_service := (sg_service s)\<lparr>sv_pool := pool, sv_cache := cache\<rparr>, sg_calls := (sg_calls s)[i := (c, Dropped)]\<rparr>)"

section \<open>A call on its own is the handler\<close>

definition with_call ::
    "('c, 'g, 'm, 'p) serving \<Rightarrow> nat \<Rightarrow> call \<Rightarrow> phase \<times> ('c, 'g, 'm, 'p) pooled_service \<Rightarrow> ('c, 'g, 'm, 'p) serving" where
  "with_call s i c = (\<lambda>(ph, sv). s\<lparr>sg_service := sv, sg_calls := (sg_calls s)[i := (c, ph)]\<rparr>)"

lemma with_call_step:
  "i < length (sg_calls s) \<Longrightarrow> advance deps c ph sv = Some next \<Longrightarrow>
     serving_step deps (with_call s i c (ph, sv)) (with_call s i c next)"
  using proceed [of i "with_call s i c (ph, sv)" c ph deps "fst next" "snd next"]
  by (simp add: with_call_def case_prod_beta)

lemma with_call_run:
  assumes "i < length (sg_calls s)" and "advance deps c ph sv = Some next"
    and "(serving_step deps)\<^sup>*\<^sup>* (with_call s i c next) t"
  shows "(serving_step deps)\<^sup>*\<^sup>* (with_call s i c (ph, sv)) t"
  using with_call_step [OF assms(1,2)] assms(3) by (rule converse_rtranclp_into_rtranclp)

section \<open>Runs of one call\<close>

text \<open>The rest of a handler from each of its phases on, up to the metrics.\<close>

definition rest_of ::
    "('c, 'g, 'm, 'p, 'w, 'k, 'sg, 'r) service_deps \<Rightarrow> call \<Rightarrow> string option \<Rightarrow> (('c, 'g, 'm, 'p) pooled_service, reply, status) io" where
  "rest_of deps c identity =
     io_bind (check_share (sd_limiter deps) (ca_readings c 2) identity) (\<lambda>_. rpc_body deps (ca_readings c) (ca_rpc c))"

definition from_identity ::
    "('c, 'g, 'm, 'p, 'w, 'k, 'sg, 'r) service_deps \<Rightarrow> call \<Rightarrow> (('c, 'g, 'm, 'p) pooled_service, reply, status) io" where
  "from_identity deps c =
     io_bind (check_identity (sd_x509 deps) (ca_certs c) (rpc_label (ca_rpc c)) (rpc_operation (ca_rpc c))) (rest_of deps c)"

definition finishes ::
    "('c, 'g, 'm, 'p, 'w, 'k, 'sg, 'r) service_deps \<Rightarrow> call \<Rightarrow> (reply, status) result \<Rightarrow> ('c, 'g, 'm, 'p) pooled_service
     \<Rightarrow> (reply, status) result \<times> ('c, 'g, 'm, 'p) pooled_service \<Rightarrow> bool" where
  "finishes deps c r sv x \<longleftrightarrow> fst x = r
     \<and> record_request deps (operation_as_str (rpc_operation (ca_rpc c))) (ca_readings c 0) (ca_readings c 9) (fst x) (snd x) = sv"

definition runs_to ::
    "('c, 'g, 'm, 'p, 'w, 'k, 'sg, 'r) service_deps \<Rightarrow> ('c, 'g, 'm, 'p) serving \<Rightarrow> nat \<Rightarrow> call
     \<Rightarrow> phase \<times> ('c, 'g, 'm, 'p) pooled_service \<Rightarrow> phase \<times> ('c, 'g, 'm, 'p) pooled_service \<Rightarrow> bool" where
  "runs_to deps s i c x y \<longleftrightarrow> (serving_step deps)\<^sup>*\<^sup>* (with_call s i c x) (with_call s i c y)"

lemma runs_to_done:
  "i < length (sg_calls s) \<Longrightarrow> finishes deps c r sv (r', sv0) \<Longrightarrow> runs_to deps s i c (Done r', sv0) (Answered r, sv)"
  using with_call_step [of i s deps c "Done r'" sv0] by (auto simp: runs_to_def finishes_def)

lemma runs_to_stage:
  assumes i: "i < length (sg_calls s)" and step: "advance deps c ph sv0 = Some (next_phase f (m sv0))"
    and rest: "finishes deps c r sv (io_bind m k sv0)"
    and later: "\<And>x sv1. finishes deps c r sv (k x sv1) \<Longrightarrow> runs_to deps s i c (f x, sv1) (Answered r, sv)"
  shows "runs_to deps s i c (ph, sv0) (Answered r, sv)"
proof -
  obtain r1 sv1 where m: "m sv0 = (r1, sv1)" by fastforce
  have "runs_to deps s i c (next_phase f (m sv0)) (Answered r, sv)"
  proof (cases r1)
    case (Ok x)
    with rest later m show ?thesis by (simp add: io_bind_def)
  next
    case (Err e)
    with rest m runs_to_done [OF i, of deps c r sv "Err e" sv1] show ?thesis by (simp add: io_bind_def)
  qed
  with with_call_run [OF i step] show ?thesis by (simp add: runs_to_def)
qed

lemma runs_to_trans: "runs_to deps s i c x y \<Longrightarrow> runs_to deps s i c y z \<Longrightarrow> runs_to deps s i c x z"
  unfolding runs_to_def by (rule rtranclp_trans)

lemma runs_to_step:
  "i < length (sg_calls s) \<Longrightarrow> advance deps c ph sv = Some y \<Longrightarrow> runs_to deps s i c (ph, sv) y"
  unfolding runs_to_def by (intro r_into_rtranclp with_call_step)

text \<open>The stages of a lookup, one after the other, are \<open>get_or_load\<close>.\<close>

lemma key_stages:
  assumes i: "i < length (sg_calls s)" and "rpc_await deps (ca_readings c) (KeyWork label) sv0 = (Ok a, sv1)"
  shows "runs_to deps s i c (Working (KeyWork label), sv0) (Awaited a, sv1)"
proof -
  define p where "p = mk_contains_key (sd_moka deps) (ca_readings c 3) label (pc_entries (sv_cache sv0))"
  obtain g m where g: "mk_try_get (sd_moka deps) (ca_readings c 4) label (pc_entries (sv_cache sv0)) = (g, m)" by fastforce
  let ?sv = "sv_cache_update (\<lambda>c. c\<lparr>pc_entries := m\<rparr>) sv0"
  have probe: "runs_to deps s i c (Working (KeyWork label), sv0) (Looking label p, sv0)"
    by (rule runs_to_step [OF i]) (simp add: p_def)
  note look = runs_to_trans [OF probe runs_to_step [OF i]]
  show ?thesis
  proof (cases g)
    case (Cached v)
    have "key_answered deps p (Ok v) ?sv = (Awaited a, sv1)"
      using assms(2) g by (auto simp: io_result_def get_or_load_def try_get_with_by_ref_def Cached key_answered_def p_def Let_def)
    then show ?thesis by (intro look) (simp add: g Cached)
  next
    case Coalesced
    have "key_answered deps p (sd_shared deps label) ?sv = (Awaited a, sv1)"
      using assms(2) g by (cases "sd_shared deps label")
        (auto simp: io_result_def get_or_load_def try_get_with_by_ref_def Coalesced key_answered_def p_def Let_def)
    moreover have "runs_to deps s i c (Working (KeyWork label), sv0) (Sharing label p, ?sv)"
      by (intro look) (simp add: g Coalesced)
    ultimately show ?thesis by (elim runs_to_trans) (intro runs_to_step [OF i], simp)
  next
    case Init
    obtain r sv2 where r: "io_result public_key_outcome (sd_submit deps (JobGetPublicKey label)) ?sv = (r, sv2)" by fastforce
    have "key_answered deps p r (sv_cache_update (\<lambda>e. e\<lparr>pc_entries :=
        mk_settle (sd_moka deps) (ca_readings c 5) label (ok_value r) (pc_entries e)\<rparr>) sv2) = (Awaited a, sv1)"
      using assms(2) g r by (cases r)
        (auto simp: io_result_def [of "\<lambda>r. Ok (KeyAnswer (key_status (sd_ck deps) r))"] get_or_load_def
          try_get_with_by_ref_def Init key_answered_def p_def Let_def)
    moreover have "runs_to deps s i c (Working (KeyWork label), sv0) (Loading label p, ?sv)"
      by (intro look) (simp add: g Init)
    ultimately show ?thesis by (elim runs_to_trans) (intro runs_to_step [OF i], simp add: r)
  qed
qed

lemma phases_run:
  assumes i: "i < length (sg_calls s)"
    and "finishes deps c r sv (io_bind (check_breaker (ca_readings c 1)) (\<lambda>_. from_identity deps c) sv0)"
  shows "runs_to deps s i c (Arrived, sv0) (Answered r, sv)"
proof -
  have last: "runs_to deps s i c (Awaited a, sv0) (Answered r, sv)"
    if "finishes deps c r sv (rpc_finish deps (ca_readings c) (ca_rpc c) a sv0)" for a sv0
    by (rule runs_to_stage [OF i, where m = "rpc_finish deps (ca_readings c) (ca_rpc c) a" and f = "\<lambda>r. Done (Ok r)" and k = io_return])
       (use that in \<open>auto simp: io_bind_def io_return_def intro: runs_to_done [OF i] split: prod.split result.split\<close>)
  have working: "runs_to deps s i c (Working w, sv0) (Answered r, sv)"
    if rest: "finishes deps c r sv (io_bind (rpc_await deps (ca_readings c) w) (rpc_finish deps (ca_readings c) (ca_rpc c)) sv0)"
    for w sv0
  proof (cases w)
    case (PoolWork request)
    then show ?thesis
      by (intro runs_to_stage [where f = Awaited, OF i _ rest]) (simp_all add: last)
  next
    case (KeyWork label)
    obtain a sv1 where a: "rpc_await deps (ca_readings c) (KeyWork label) sv0 = (Ok a, sv1)"
      by (cases "rpc_await deps (ca_readings c) (KeyWork label) sv0") (auto simp: io_result_def split: prod.splits)
    with rest have "runs_to deps s i c (Awaited a, sv1) (Answered r, sv)" by (intro last) (simp add: KeyWork io_bind_def)
    with key_stages [OF i a] show ?thesis unfolding KeyWork by (rule runs_to_trans)
  qed
  have admitted: "runs_to deps s i c (Admitted, sv0) (Answered r, sv)"
    if "finishes deps c r sv (rpc_body deps (ca_readings c) (ca_rpc c) sv0)" for sv0
    by (rule runs_to_stage [where f = Working, OF i _ that [unfolded body_parts]]) (simp_all add: working)
  have identified: "runs_to deps s i c (Identified identity, sv0) (Answered r, sv)"
    if "finishes deps c r sv (rest_of deps c identity sv0)" for identity sv0
    by (rule runs_to_stage [where f = "\<lambda>_. Admitted", OF i _ that [unfolded rest_of_def]]) (simp_all add: admitted)
  have past: "runs_to deps s i c (PastBreaker, sv0) (Answered r, sv)" if "finishes deps c r sv (from_identity deps c sv0)" for sv0
    by (rule runs_to_stage [where f = Identified, OF i _ that [unfolded from_identity_def]]) (simp_all add: identified)
  show ?thesis by (rule runs_to_stage [where f = "\<lambda>_. PastBreaker", OF i _ assms(2)]) (simp_all add: past)
qed

lemma finishes_serve:
  "serve deps (ca_readings c) (ca_certs c) (ca_rpc c) sv0 = (r, sv) \<Longrightarrow>
     finishes deps c r sv (io_bind (check_breaker (ca_readings c 1)) (\<lambda>_. from_identity deps c) sv0)"
  by (auto simp: serve_parts recorded_def admit_def from_identity_def rest_of_def [abs_def] io_bind_assoc case_prod_beta
      Let_def finishes_def)

lemma call_runs:
  "i < length (sg_calls s) \<Longrightarrow> serve deps (ca_readings c) (ca_certs c) (ca_rpc c) sv0 = (r, sv) \<Longrightarrow>
     (serving_step deps)\<^sup>*\<^sup>* (with_call s i c (Arrived, sv0)) (with_call s i c (Answered r, sv))"
  using phases_run [OF _ finishes_serve] by (simp add: runs_to_def)

section \<open>What holds while calls interleave\<close>

text \<open>The pool has no access to the other parts of the service.\<close>

definition pool_only :: "('c, 'g, 'm, 'p, 'w, 'k, 'sg, 'r) service_deps \<Rightarrow> bool" where
  "pool_only deps \<longleftrightarrow> (\<forall>request sv. let sv' = snd (sd_submit deps request sv) in
     sv_authorizer sv' = sv_authorizer sv \<and> sv_rate_limiter sv' = sv_rate_limiter sv \<and> sv_breaker sv' = sv_breaker sv)"

text \<open>The service carries an authorizer for the policy.\<close>

definition guarded :: "x509_parser \<Rightarrow> policy \<Rightarrow> ('c, 'g, 'm, 'p) pooled_service \<Rightarrow> bool" where
  "guarded from_der policy sv \<longleftrightarrow> (\<exists>az. sv_authorizer sv = Some az \<and> authorizer_inv from_der policy az)"

definition limited :: "('c \<Rightarrow> string \<Rightarrow> nat option) \<Rightarrow> ('c, 'g, 'm, 'p) pooled_service \<Rightarrow> bool" where
  "limited held sv \<longleftrightarrow> (\<forall>rl. sv_rate_limiter sv = Some rl \<longrightarrow> limiter_inv held rl)"

definition decision :: "x509_parser \<Rightarrow> policy \<Rightarrow> call \<Rightarrow> (string, status) result" where
  "decision from_der policy c = authorize_spec from_der policy (ca_certs c, rpc_label (ca_rpc c), rpc_operation (ca_rpc c))"

fun phase_ok :: "(string, status) result \<Rightarrow> phase \<Rightarrow> bool" where
  "phase_ok d (Identified identity) \<longleftrightarrow> (case d of Ok name \<Rightarrow> identity = Some name | Err _ \<Rightarrow> False)"
| "phase_ok d Admitted \<longleftrightarrow> is_ok d"
| "phase_ok d (Working _) \<longleftrightarrow> is_ok d"
| "phase_ok d (Looking _ _) \<longleftrightarrow> is_ok d"
| "phase_ok d (Loading _ _) \<longleftrightarrow> is_ok d"
| "phase_ok d (Sharing _ _) \<longleftrightarrow> is_ok d"
| "phase_ok d (Awaited _) \<longleftrightarrow> is_ok d"
| "phase_ok d (Done r) \<longleftrightarrow> (is_ok r \<longrightarrow> is_ok d)"
| "phase_ok d (Answered r) \<longleftrightarrow> (is_ok r \<longrightarrow> is_ok d)"
| "phase_ok d Dropped \<longleftrightarrow> is_ok d"
| "phase_ok d _ \<longleftrightarrow> True"

text \<open>
  What is counted: the calls the breaker or the policy decided on, those the policy allowed, those the
  limiter decided on; and the calls that are still to be decided on.
\<close>

definition allowed_count :: "('c, 'g, 'm, 'p) pooled_service \<Rightarrow> u64" where
  "allowed_count sv = (case sv_authorizer sv of None \<Rightarrow> 0 | Some az \<Rightarrow> am_allowed_total (az_metrics az))"

definition decided_count :: "('c, 'g, 'm, 'p) pooled_service \<Rightarrow> u64" where
  "decided_count sv = cb_rejected (sv_breaker sv) + allowed_count sv
     + (case sv_authorizer sv of None \<Rightarrow> 0
        | Some az \<Rightarrow> am_denied_total (az_metrics az) + am_unauthenticated_total (az_metrics az))"

definition shared_count :: "('c, 'g, 'm, 'p) pooled_service \<Rightarrow> u64 option" where
  "shared_count sv = map_option (\<lambda>rl. rl_allowed rl + rl_rejected rl) (sv_rate_limiter sv)"

fun undecided :: "phase \<Rightarrow> u64" where
  "undecided Arrived = 1"
| "undecided PastBreaker = 1"
| "undecided _ = 0"

fun unshared :: "phase \<Rightarrow> u64" where
  "unshared (Identified _) = 1"
| "unshared _ = 0"

definition open_calls :: "(phase \<Rightarrow> u64) \<Rightarrow> ('c, 'g, 'm, 'p) serving \<Rightarrow> u64" where
  "open_calls f s = sum_list (map (f \<circ> snd) (sg_calls s))"

text \<open>What a step of one call does to the counts: one comes off the open calls as it is decided.\<close>

definition balanced ::
    "phase \<times> ('c, 'g, 'm, 'p) pooled_service \<Rightarrow> phase \<times> ('c, 'g, 'm, 'p) pooled_service \<Rightarrow> bool" where
  "balanced = (\<lambda>(ph, sv) (ph', sv').
     undecided ph' + decided_count sv' = undecided ph + decided_count sv
     \<and> (\<forall>n. shared_count sv = Some n \<longrightarrow> (\<exists>n'. shared_count sv' = Some n'
          \<and> unshared ph' + n' - allowed_count sv' = unshared ph + n - allowed_count sv))
     \<and> (shared_count sv = None \<longrightarrow> shared_count sv' = None))"

lemmas count_defs = decided_count_def allowed_count_def shared_count_def balanced_def

lemma balanced_frame:
  "sv_authorizer sv' = sv_authorizer sv \<Longrightarrow> sv_rate_limiter sv' = sv_rate_limiter sv \<Longrightarrow>
   cb_rejected (sv_breaker sv') = cb_rejected (sv_breaker sv) \<Longrightarrow> undecided ph' = undecided ph \<Longrightarrow> unshared ph' = unshared ph \<Longrightarrow>
   balanced (ph, sv) (ph', sv')"
  by (simp add: count_defs)

lemma rejected_frame [simp]:
  "cb_rejected (record_success t1 t2 b) = cb_rejected b" "cb_rejected (record_failure t1 t2 t3 b) = cb_rejected b"
  "cb_rejected (snd (allow now b)) = cb_rejected b + of_bool (\<not> fst (allow now b))"
  by (simp_all add: record_success_def record_failure_def allow_def allow_locked_def Let_def
      split: breaker_state.split option.split)

text \<open>The stages of a body touch the pool, the cache, the generator and the window of the breaker only.\<close>

definition same_counts :: "('c, 'g, 'm, 'p) pooled_service \<Rightarrow> ('c, 'g, 'm, 'p) pooled_service \<Rightarrow> bool" where
  "same_counts sv sv' \<longleftrightarrow> sv_authorizer sv' = sv_authorizer sv \<and> sv_rate_limiter sv' = sv_rate_limiter sv
     \<and> cb_rejected (sv_breaker sv') = cb_rejected (sv_breaker sv)"

lemma same_counts_frame: "outcome_frame (same_counts sv)"
  by (auto simp: outcome_frame_def same_counts_def)

lemma submit_same_counts:
  "pool_only deps \<Longrightarrow> same_counts sv (snd (sd_submit deps request sv))"
  by (simp add: pool_only_def same_counts_def Let_def)

lemma prepare_same_counts: "same_counts sv (snd (rpc_prepare deps rpc sv))"
proof -
  have "io_keeps (same_counts sv) (draw_iv deps)" by (simp add: io_keeps_def draw_iv_def same_counts_def)
  then have "io_keeps (same_counts sv) (rpc_prepare deps rpc)" by (cases rpc) (auto intro!: keeps_intros)
  then show ?thesis by (rule io_keepsD) (simp add: same_counts_def)
qed

lemma finish_same_counts: "same_counts sv (snd (rpc_finish deps tm rpc a sv))"
  by (cases a) (auto simp: observed_def io_bind_def io_lift_def split: result.split
      intro: outcome_frameD(2) [OF same_counts_frame] simp: same_counts_def [of sv sv])

definition sound ::
    "('c, 'g, 'm, 'p, 'w, 'k, 'sg, 'r) service_deps \<Rightarrow> policy \<Rightarrow> call \<Rightarrow> phase \<times> ('c, 'g, 'm, 'p) pooled_service \<Rightarrow> bool" where
  "sound deps policy c = (\<lambda>(ph, sv). guarded (sd_x509 deps) policy sv \<and> phase_ok (decision (sd_x509 deps) policy c) ph)"

lemma sound_arrived:
  assumes "sound deps policy c (Arrived, sv)" and "advance deps c Arrived sv = Some x"
  shows "sound deps policy c x \<and> balanced (Arrived, sv) x \<and> sv_rate_limiter (snd x) = sv_rate_limiter sv"
  using assms by (cases "fst (allow (ca_readings c 1) (sv_breaker sv))")
    (auto simp: sound_def check_breaker_def case_prod_beta Let_def guarded_def count_defs)

lemma decision_partition:
  "of_bool (is_ok (decision from_der policy c)) + of_bool (failed_with PermissionDenied (decision from_der policy c))
     + of_bool (failed_with Unauthenticated (decision from_der policy c)) = (1 :: u64)"
  using identity_source_Err [of from_der "ca_certs c"]
  by (cases "identity_source from_der (ca_certs c)") (simp_all add: decision_def authorize_spec_def failed_with_def)

lemma sound_past_breaker:
  assumes "sound deps policy c (PastBreaker, sv)" and "advance deps c PastBreaker sv = Some x"
  shows "sound deps policy c x \<and> balanced (PastBreaker, sv) x \<and> sv_rate_limiter (snd x) = sv_rate_limiter sv"
proof -
  let ?d = "decision (sd_x509 deps) policy c"
  from assms(1) obtain az where az: "sv_authorizer sv = Some az" "authorizer_inv (sd_x509 deps) policy az"
    by (auto simp: sound_def guarded_def)
  obtain r az1 where run: "authorize (sd_x509 deps) (ca_certs c) (rpc_label (ca_rpc c)) (rpc_operation (ca_rpc c)) az = (r, az1)"
    by fastforce
  note facts = authorize_decision [OF az(2), of "ca_certs c" "rpc_label (ca_rpc c)" "rpc_operation (ca_rpc c)"]
    authorize_inv [OF az(2), of "ca_certs c" "rpc_label (ca_rpc c)" "rpc_operation (ca_rpc c)"]
    authorize_counts [OF az(2), of "ca_certs c" "rpc_label (ca_rpc c)" "rpc_operation (ca_rpc c)"]
  have r: "r = ?d" and inv: "authorizer_inv (sd_x509 deps) policy az1" and counts: "az_metrics az1 =
    \<lparr> am_allowed_total = am_allowed_total (az_metrics az) + of_bool (is_ok ?d),
      am_denied_total = am_denied_total (az_metrics az) + of_bool (failed_with PermissionDenied ?d),
      am_unauthenticated_total = am_unauthenticated_total (az_metrics az) + of_bool (failed_with Unauthenticated ?d) \<rparr>"
    using facts by (simp_all add: run decision_def)
  have x: "x = next_phase Identified (result_map Some ?d, sv\<lparr>sv_authorizer := Some az1\<rparr>)"
    using assms(2) az(1) by (simp add: check_identity_def run r)
  have "sound deps policy c x" using inv by (cases ?d) (auto simp: x sound_def guarded_def)
  moreover have "decided_count (snd x) = decided_count sv + 1"
    using decision_partition [of "sd_x509 deps" policy c] counts az(1)
    by (cases ?d) (simp_all add: x decided_count_def allowed_count_def algebra_simps)
  moreover have "allowed_count (snd x) = allowed_count sv + unshared (fst x)" "undecided (fst x) = 0"
    "sv_rate_limiter (snd x) = sv_rate_limiter sv"
    using counts az(1) by (cases ?d; simp add: x allowed_count_def)+
  ultimately show ?thesis by (cases x) (simp add: balanced_def shared_count_def)
qed

lemma sound_identified:
  assumes "sound deps policy c (Identified identity, sv)" and "advance deps c (Identified identity) sv = Some x"
  shows "sound deps policy c x"
    and "bucket_map_laws (sd_limiter deps) held \<Longrightarrow> limited held sv \<Longrightarrow> limited held (snd x) \<and> balanced (Identified identity, sv) x"
proof -
  from assms(1) obtain name where name: "identity = Some name" "decision (sd_x509 deps) policy c = Ok name"
    by (auto simp: sound_def split: result.splits)
  show "sound deps policy c x"
    using assms name by (auto simp: check_share_def sound_def guarded_def case_prod_beta Let_def split: option.splits if_splits)
  show "limited held (snd x) \<and> balanced (Identified identity, sv) x"
    if laws: "bucket_map_laws (sd_limiter deps) held" and lim: "limited held sv"
  proof (cases "sv_rate_limiter sv")
    case None
    with assms(2) show ?thesis by (auto simp: check_share_def limited_def count_defs)
  next
    case (Some rl)
    then have inv: "limiter_inv held rl" using lim by (simp add: limited_def)
    obtain ok rl1 where run: "rate_check (sd_limiter deps) (ca_readings c 2) name rl = (ok, rl1)" by fastforce
    have "rl_allowed rl1 + rl_rejected rl1 = rl_allowed rl + rl_rejected rl + 1" and "limiter_inv held rl1"
      using rate_check_counts [OF laws inv, of "ca_readings c 2" name]
        limiter_inv_check [OF laws inv, of "ca_readings c 2" name] by (simp_all add: run split: if_splits)
    with assms(2) name Some show ?thesis by (cases ok) (auto simp: check_share_def run limited_def count_defs)
  qed
qed

fun in_body :: "phase \<Rightarrow> bool" where
  "in_body Admitted = True"
| "in_body (Working _) = True"
| "in_body (Looking _ _) = True"
| "in_body (Loading _ _) = True"
| "in_body (Sharing _ _) = True"
| "in_body (Awaited _) = True"
| "in_body (Done _) = True"
| "in_body _ = False"

lemma sound_body:
  assumes "same_counts sv sv'" and "sound deps policy c (ph, sv)" and "in_body ph" "in_body ph'" and "\<not> (\<exists>r. ph = Done r)"
  shows "sound deps policy c (ph', sv') \<and> balanced (ph, sv) (ph', sv') \<and> sv_rate_limiter sv' = sv_rate_limiter sv"
  using assms by (cases ph; cases ph') (auto simp: sound_def guarded_def same_counts_def intro!: balanced_frame)

text \<open>Every step inside a body stays inside, and leaves the counts alone.\<close>

lemma cache_counts [simp]:
  "same_counts sv sv" "same_counts sv (sv_cache_update f sv1) = same_counts sv sv1"
  "same_counts sv (snd (key_answered deps p r sv1)) = same_counts sv sv1" "in_body (fst (key_answered deps p r sv1))"
  by (auto simp: key_answered_def same_counts_def split: result.split)

lemma body_same_counts:
  assumes "pool_only deps" and "in_body ph" and "\<not> (\<exists>r. ph = Done r)" and "advance deps c ph sv = Some x"
  shows "in_body (fst x) \<and> same_counts sv (snd x)"
proof -
  have next_step: "in_body (fst (next_phase f m)) \<and> same_counts sv (snd (next_phase f m))"
    if "\<And>y. in_body (f y)" "same_counts sv (snd m)" for f :: "'x \<Rightarrow> phase" and m
    using that by (cases m; cases "fst m") auto
  show ?thesis
  proof (cases ph)
    case Admitted
    with assms(4) show ?thesis
      using next_step [of Working "rpc_prepare deps (ca_rpc c) sv"] prepare_same_counts [of sv deps "ca_rpc c"] by auto
  next
    case (Working w)
    show ?thesis
    proof (cases w)
      case (PoolWork request)
      with Working assms(4) show ?thesis
        using next_step [of Awaited "rpc_await deps (ca_readings c) w sv"] submit_same_counts [OF assms(1), of sv request]
        by (auto simp: io_result_def case_prod_beta)
    next
      case (KeyWork label)
      with Working assms(4) show ?thesis by (auto simp: same_counts_def)
    qed
  next
    case (Looking label p)
    with assms(4) show ?thesis
      by (auto simp: case_prod_beta Let_def split: try_get.split)
  next
    case (Loading label p)
    with assms(4) show ?thesis
      using submit_same_counts [OF assms(1), of sv] by (auto simp: case_prod_beta Let_def io_result_def)
  next
    case (Sharing label p)
    with assms(4) show ?thesis by auto
  next
    case (Awaited a)
    with assms(4) show ?thesis
      using next_step [of "\<lambda>r. Done (Ok r)" "rpc_finish deps (ca_readings c) (ca_rpc c) a sv"]
        finish_same_counts [of sv deps "ca_readings c" "ca_rpc c" a] by auto
  qed (use assms(2,3) in simp_all)
qed

lemma sound_in_body:
  assumes "pool_only deps" and "sound deps policy c (ph, sv)" and "in_body ph" "\<not> (\<exists>r. ph = Done r)"
    and "advance deps c ph sv = Some x"
  shows "sound deps policy c x \<and> balanced (ph, sv) x \<and> sv_rate_limiter (snd x) = sv_rate_limiter sv"
  using sound_body [OF _ assms(2,3) _ assms(4), of "snd x" "fst x"] body_same_counts [OF assms(1,3,4,5)] by simp

lemma sound_done:
  assumes "sound deps policy c (Done r, sv)" and "advance deps c (Done r) sv = Some x"
  shows "sound deps policy c x \<and> balanced (Done r, sv) x \<and> sv_rate_limiter (snd x) = sv_rate_limiter sv"
  using assms by (auto simp: sound_def guarded_def intro!: balanced_frame)

lemma sound_advance:
  assumes "pool_only deps" and "sound deps policy c (ph, sv)" and "advance deps c ph sv = Some x"
  shows "sound deps policy c x"
    and "bucket_map_laws (sd_limiter deps) held \<Longrightarrow> limited held sv \<Longrightarrow> limited held (snd x) \<and> balanced (ph, sv) x"
proof -
  have other: "sound deps policy c x \<and> balanced (ph, sv) x \<and> sv_rate_limiter (snd x) = sv_rate_limiter sv"
    if "\<And>identity. ph \<noteq> Identified identity"
  proof (cases ph)
    case Arrived
    with assms(2,3) show ?thesis by (simp only: sound_arrived)
  next
    case PastBreaker
    with assms(2,3) show ?thesis by (simp only: sound_past_breaker)
  next
    case (Done r)
    with assms(2,3) show ?thesis by (simp only: sound_done)
  qed (use that assms(3) sound_in_body [OF assms(1,2) _ _ assms(3)] in simp_all)
  then show "sound deps policy c x"
    using sound_identified(1) assms(2,3) by (cases ph) (simp_all only: phase.distinct simp_thms)
  show "limited held (snd x) \<and> balanced (ph, sv) x"
    if "bucket_map_laws (sd_limiter deps) held" "limited held sv"
  proof (cases "\<exists>identity. ph = Identified identity")
    case True
    then show ?thesis using sound_identified(2) [OF _ _ that] assms(2,3) by blast
  next
    case False
    then show ?thesis using other that(2) by (simp add: limited_def)
  qed
qed

section \<open>The invariant of the service\<close>

text \<open>
  A fresh service with an authorizer for the policy. What is said about counts needs the laws of the
  table of buckets, what is said about the policy does not.
\<close>

definition serving_starts ::
    "('c, 'g, 'm, 'p, 'w, 'k, 'sg, 'r) service_deps \<Rightarrow> policy \<Rightarrow> ('c, 'g, 'm, 'p) serving \<Rightarrow> bool" where
  "serving_starts deps policy s \<longleftrightarrow>
     pool_only deps \<and> sg_calls s = [] \<and> guarded (sd_x509 deps) policy (sg_service s)
     \<and> (\<forall>held. bucket_map_laws (sd_limiter deps) held \<longrightarrow> limited held (sg_service s))
     \<and> decided_count (sg_service s) = 0 \<and> allowed_count (sg_service s) = 0
     \<and> (\<forall>n. shared_count (sg_service s) = Some n \<longrightarrow> n = 0)"

definition counts_agree :: "('c, 'g, 'm, 'p) serving \<Rightarrow> bool" where
  "counts_agree s \<longleftrightarrow>
     of_nat (length (sg_calls s)) = open_calls undecided s + decided_count (sg_service s)
     \<and> (\<forall>n. shared_count (sg_service s) = Some n \<longrightarrow> allowed_count (sg_service s) = open_calls unshared s + n)"

definition serving_inv ::
    "('c, 'g, 'm, 'p, 'w, 'k, 'sg, 'r) service_deps \<Rightarrow> policy \<Rightarrow> ('c, 'g, 'm, 'p) serving \<Rightarrow> bool" where
  "serving_inv deps policy s \<longleftrightarrow>
     pool_only deps \<and> guarded (sd_x509 deps) policy (sg_service s)
     \<and> (\<forall>(c, ph) \<in> set (sg_calls s). phase_ok (decision (sd_x509 deps) policy c) ph)
     \<and> (\<forall>held. bucket_map_laws (sd_limiter deps) held \<longrightarrow> limited held (sg_service s) \<and> counts_agree s)"

lemma sum_list_update_group:
  "i < length xs \<Longrightarrow> sum_list (map f (xs[i := y])) = sum_list (map f xs) - f (xs ! i) + (f y :: 'a :: ab_group_add)"
  by (induction xs arbitrary: i) (auto simp: nth_Cons algebra_simps split: nat.split)

lemma open_calls_update:
  assumes "i < length (sg_calls s)" and "sg_calls s ! i = (c, ph)"
  shows "open_calls f (s\<lparr>sg_service := sv, sg_calls := (sg_calls s)[i := (c, ph')]\<rparr>) = open_calls f s - f ph + f ph'"
  using sum_list_update_group [OF assms(1), of "f \<circ> snd" "(c, ph')"] assms(2) by (simp add: open_calls_def)

lemma counts_agree_update:
  assumes agree: "counts_agree s" and i: "i < length (sg_calls s)" "sg_calls s ! i = (c, ph)"
    and step: "balanced (ph, sg_service s) (ph', sv)"
  shows "counts_agree (s\<lparr>sg_service := sv, sg_calls := (sg_calls s)[i := (c, ph')]\<rparr>)"
proof -
  have "allowed_count sv = open_calls unshared s - unshared ph + unshared ph' + n'" if n': "shared_count sv = Some n'" for n'
  proof -
    from step n' obtain n where n: "shared_count (sg_service s) = Some n"
      by (cases "shared_count (sg_service s)") (auto simp: balanced_def)
    with step n' have "unshared ph' + n' - allowed_count sv = unshared ph + n - allowed_count (sg_service s)"
      by (simp add: balanced_def)
    moreover have "allowed_count (sg_service s) = open_calls unshared s + n" using agree n by (simp add: counts_agree_def)
    ultimately show ?thesis by (simp add: algebra_simps)
  qed
  then show ?thesis using agree step by (auto simp: counts_agree_def open_calls_update [OF i] balanced_def algebra_simps)
qed

lemma serving_inv_update:
  assumes inv: "serving_inv deps policy s" and i: "i < length (sg_calls s)" "sg_calls s ! i = (c, ph)"
    and "sound deps policy c (ph', sv)"
    and "\<And>held. bucket_map_laws (sd_limiter deps) held \<Longrightarrow> limited held (sg_service s) \<Longrightarrow>
      limited held sv \<and> balanced (ph, sg_service s) (ph', sv)"
  shows "serving_inv deps policy (s\<lparr>sg_service := sv, sg_calls := (sg_calls s)[i := (c, ph')]\<rparr>)"
  using inv assms(4,5) set_update_subset_insert [of "sg_calls s" i "(c, ph')"] counts_agree_update [OF _ i]
  by (fastforce simp: serving_inv_def sound_def)

lemma serving_inv_step:
  assumes inv: "serving_inv deps policy s" and "serving_step deps s t"
  shows "serving_inv deps policy t"
  using assms(2)
proof (cases rule: serving_step.cases)
  case (arrive c)
  then show ?thesis using inv by (auto simp: serving_inv_def counts_agree_def open_calls_def)
next
  case (proceed i c ph ph' sv)
  have "sound deps policy c (ph, sg_service s)" and "pool_only deps"
    using inv proceed(2,3) nth_mem [OF proceed(2)] by (auto simp: serving_inv_def sound_def)
  from sound_advance [OF this(2,1) proceed(4)] show ?thesis
    unfolding proceed(1) by (intro serving_inv_update [OF inv proceed(2,3)]) simp_all
next
  case (drop i c ph pool cache)
  have "sound deps policy c (ph, sg_service s)"
    using inv drop(2,3) nth_mem [OF drop(2)] by (auto simp: serving_inv_def sound_def)
  then show ?thesis unfolding drop(1) using drop(4)
    by (intro serving_inv_update [OF inv drop(2,3)]; cases ph) (simp_all add: sound_def guarded_def limited_def balanced_frame)
qed

interpretation serving: inductive_invariant "serving_starts deps policy" "serving_step deps" "serving_inv deps policy"
    for deps policy
proof unfold_locales
  show "serving_inv deps policy s" if "serving_starts deps policy s" for s
    using that by (auto simp: serving_starts_def serving_inv_def counts_agree_def open_calls_def)
qed (rule serving_inv_step)

text \<open>The phases a call gets to only past the policy; an answer counts if it is not an error.\<close>

fun past_policy :: "phase \<Rightarrow> bool" where
  "past_policy (Identified _) = True"
| "past_policy Admitted = True"
| "past_policy (Working _) = True"
| "past_policy (Looking _ _) = True"
| "past_policy (Loading _ _) = True"
| "past_policy (Sharing _ _) = True"
| "past_policy (Awaited _) = True"
| "past_policy Dropped = True"
| "past_policy (Done r) = is_ok r"
| "past_policy (Answered r) = is_ok r"
| "past_policy _ = False"

lemma past_policy_allowed:
  assumes "reachable (serving_starts deps policy) (serving_step deps) s" and "(c, ph) \<in> set (sg_calls s)" and "past_policy ph"
  shows "\<exists>leaf chain identity. ca_certs c = Some (leaf # chain) \<and> parse_identity (sd_x509 deps) leaf = Ok identity
    \<and> is_allowed policy identity (rpc_label (ca_rpc c)) (rpc_operation (ca_rpc c))"
proof -
  have "phase_ok (decision (sd_x509 deps) policy c) ph"
    using serving.inv_reachable [OF assms(1)] assms(2) by (auto simp: serving_inv_def)
  then have "is_ok (decision (sd_x509 deps) policy c)" using assms(3) by (cases ph) (auto split: result.splits)
  then show ?thesis by (auto simp: is_ok_iff decision_def authorize_spec_Ok_iff identity_source_Ok_iff)
qed

lemma counts_reachable:
  assumes "reachable (serving_starts deps policy) (serving_step deps) s" and "bucket_map_laws (sd_limiter deps) held"
  shows "counts_agree s" "guarded (sd_x509 deps) policy (sg_service s)"
  using serving.inv_reachable [OF assms(1)] assms(2) by (auto simp: serving_inv_def)

section \<open>Initialisation vectors\<close>

text \<open>The step in which call \<open>i\<close> draws its vector and makes the job it hands to the pool.\<close>

definition encrypt_job ::
    "('c, 'g, 'm, 'p, 'w, 'k, 'sg, 'r) service_deps \<Rightarrow> ('c, 'g, 'm, 'p) serving \<Rightarrow> nat \<Rightarrow> ('c, 'g, 'm, 'p) serving \<Rightarrow> bytes \<Rightarrow> bool" where
  "encrypt_job deps s i t iv \<longleftrightarrow> serving_step deps s t \<and> i < length (sg_calls s)
     \<and> (\<exists>c label plaintext aad. sg_calls s ! i = (c, Admitted)
          \<and> sg_calls t ! i = (c, Working (PoolWork (JobEncrypt label plaintext aad iv))))"

lemma prepare_drawn: "sv_drawn sv \<le> sv_drawn (snd (rpc_prepare deps rpc sv))"
proof -
  have "io_keeps (\<lambda>sv'. sv_drawn sv \<le> sv_drawn sv') (draw_iv deps)" by (simp add: io_keeps_def draw_iv_def)
  then have "io_keeps (\<lambda>sv'. sv_drawn sv \<le> sv_drawn sv') (rpc_prepare deps rpc)" by (cases rpc) (auto intro!: keeps_intros)
  then show ?thesis by (rule io_keepsD) simp
qed

lemma prepare_encrypt:
  assumes "rpc_prepare deps rpc sv = (Ok (PoolWork (JobEncrypt label plaintext aad iv)), sv')"
  shows "(\<exists>q. rpc = RpcEncrypt q \<and> label = er_key_label q \<and> plaintext = er_plaintext q \<and> aad = er_associated_data q)
    \<and> iv = sd_random deps (sv_drawn sv) 12 \<and> sv_drawn sv' = Suc (sv_drawn sv)"
  using assms by (cases rpc) (auto simp: io_iffs draw_iv_def GCM_IV_LEN_def io_throw_def io_return_def split: if_splits)

lemma snd_next_phase [simp]: "snd (next_phase f m) = snd m"
  by (cases m; cases "fst m") auto

lemma advance_drawn:
  assumes pool: "\<And>request sv. sv_drawn sv \<le> sv_drawn (snd (sd_submit deps request sv))"
    and "advance deps c ph sv = Some x"
  shows "sv_drawn sv \<le> sv_drawn (snd x)"
proof -
  have answered: "sv_drawn (snd (key_answered deps p r sv1)) = sv_drawn sv1" for p r and sv1 :: "('a, 'b, 'c, 'd) pooled_service"
    by (simp add: key_answered_def split: result.split)
  have finish: "sv_drawn (snd (rpc_finish deps tm rpc a sv)) = sv_drawn sv" for tm rpc a
    by (cases a) (auto simp: observed_def io_bind_def io_lift_def observe_def split: result.split code.split)
  have drawn: "sv_drawn (snd (check_breaker now sv)) = sv_drawn sv" "sv_drawn (snd (check_share lim now identity sv)) = sv_drawn sv"
    "sv_drawn (snd (check_identity x509 certs label op sv)) = sv_drawn sv" for now lim identity x509 certs label op
    by (auto simp: check_breaker_def check_share_def check_identity_def case_prod_beta Let_def split: option.split)
  show ?thesis
  proof (cases ph)
    case (Working w)
    then show ?thesis using assms(2) pool by (cases w) (auto simp: io_result_def case_prod_beta)
  next
    case (Looking label p)
    then show ?thesis using assms(2) by (auto simp: case_prod_beta Let_def answered split: try_get.split)
  next
    case (Loading label p)
    then show ?thesis using assms(2) pool by (auto simp: case_prod_beta Let_def answered io_result_def)
  qed (use assms(2) in \<open>auto simp: drawn finish answered prepare_drawn record_request_def Let_def\<close>)
qed

lemma serving_drawn:
  assumes pool: "\<And>request sv. sv_drawn sv \<le> sv_drawn (snd (sd_submit deps request sv))" and "(serving_step deps)\<^sup>*\<^sup>* s t"
  shows "sv_drawn (sg_service s) \<le> sv_drawn (sg_service t)"
  using assms(2)
proof (induction rule: rtranclp_induct)
  case (step u t)
  from step.hyps(2) have "sv_drawn (sg_service u) \<le> sv_drawn (sg_service t)"
    by (cases rule: serving_step.cases) (auto dest: advance_drawn [OF pool])
  with step.IH show ?case by simp
qed simp

lemma encrypt_job_draws:
  assumes "encrypt_job deps s i t iv"
  shows "(\<exists>c q. sg_calls s ! i = (c, Admitted) \<and> ca_rpc c = RpcEncrypt q \<and> sg_calls t ! i
      = (c, Working (PoolWork (JobEncrypt (er_key_label q) (er_plaintext q) (er_associated_data q) iv))))
    \<and> i < length (sg_calls t)
    \<and> iv = sd_random deps (sv_drawn (sg_service s)) 12 \<and> sv_drawn (sg_service t) = Suc (sv_drawn (sg_service s))"
proof -
  from assms obtain c label plaintext aad where step: "serving_step deps s t" and i: "i < length (sg_calls s)"
    and calls: "sg_calls s ! i = (c, Admitted)" "sg_calls t ! i = (c, Working (PoolWork (JobEncrypt label plaintext aad iv)))"
    unfolding encrypt_job_def by blast
  from step show ?thesis
  proof (cases rule: serving_step.cases)
    case (arrive c')
    then show ?thesis using calls i by (simp add: nth_append)
  next
    case (proceed j c' ph ph' sv)
    then have j: "j = i" using calls by (cases "j = i") simp_all
    then have adv: "advance deps c Admitted (sg_service s) = Some (Working (PoolWork (JobEncrypt label plaintext aad iv)), sv)"
      using proceed calls i by simp
    then have "rpc_prepare deps (ca_rpc c) (sg_service s) = (Ok (PoolWork (JobEncrypt label plaintext aad iv)), sv)"
      by (cases "rpc_prepare deps (ca_rpc c) (sg_service s)"; cases "fst (rpc_prepare deps (ca_rpc c) (sg_service s))") auto
    from prepare_encrypt [OF this] show ?thesis using proceed(1) i calls by auto
  next
    case (drop j c' ph pool cache)
    then show ?thesis using calls i by (cases "j = i") simp_all
  qed
qed

text \<open>What becomes of an encryption after it drew its vector.\<close>

fun carries :: "bytes \<Rightarrow> phase \<Rightarrow> bool" where
  "carries iv (Working (PoolWork (JobEncrypt _ _ _ x))) \<longleftrightarrow> x = iv"
| "carries iv (Awaited (PoolAnswer (JobEncrypt _ _ _ x) _)) \<longleftrightarrow> x = iv"
| "carries iv (Done r) \<longleftrightarrow> (\<forall>reply. r = Ok reply \<longrightarrow> (\<exists>ct. reply = ReplyEncrypt \<lparr> ep_ciphertext = ct, ep_iv = iv \<rparr>))"
| "carries iv (Answered r) \<longleftrightarrow> (\<forall>reply. r = Ok reply \<longrightarrow> (\<exists>ct. reply = ReplyEncrypt \<lparr> ep_ciphertext = ct, ep_iv = iv \<rparr>))"
| "carries iv Dropped \<longleftrightarrow> True"
| "carries iv _ \<longleftrightarrow> False"

lemma carries_advance:
  assumes "carries iv ph" and "ca_rpc c = RpcEncrypt q" and "advance deps c ph sv = Some x"
  shows "carries iv (fst x)"
  using assms
proof (cases rule: carries.cases [of "(iv, ph)"])
  case (2 iv' label plaintext aad y r)
  have "next_phase (\<lambda>r. Done (Ok r)) (rpc_finish deps (ca_readings c) (ca_rpc c) (PoolAnswer (JobEncrypt label plaintext aad iv) r) sv) = x"
    using 2 assms by simp
  moreover have "carries iv (fst (next_phase (\<lambda>r. Done (Ok r)) (job_reply (JobEncrypt label plaintext aad iv) (RpcEncrypt q) response, sv')))"
    for response and sv' :: "('a, 'b, 'c, 'd) pooled_service"
    by (cases response) simp_all
  ultimately show ?thesis
    by (cases r) (auto simp: observed_def io_bind_def io_lift_def assms(2))
qed (auto simp: io_result_def case_prod_beta)

lemma carries_run:
  assumes "(serving_step deps)\<^sup>*\<^sup>* t u" and "i < length (sg_calls t)" and "sg_calls t ! i = (c, ph)" and "carries iv ph"
    and "ca_rpc c = RpcEncrypt q"
  shows "i < length (sg_calls u) \<and> (\<exists>ph'. sg_calls u ! i = (c, ph') \<and> carries iv ph')"
  using assms(1)
proof (induction rule: rtranclp_induct)
  case base
  then show ?case using assms by blast
next
  case (step u v)
  then obtain ph where i: "i < length (sg_calls u)" and u: "sg_calls u ! i = (c, ph)" "carries iv ph" by blast
  from step.hyps(2) show ?case
  proof (cases rule: serving_step.cases)
    case (arrive c')
    then show ?thesis using i u by (simp add: nth_append)
  next
    case (proceed j c' ph1 ph' sv)
    then show ?thesis using i u carries_advance [OF u(2) assms(5), of deps] by (cases "j = i") auto
  next
    case (drop j c' ph1 pool cache)
    then show ?thesis using i u by (cases "j = i") auto
  qed
qed

text \<open>
  C16. Initialisation vectors are drawn afresh for every encryption, however calls interleave: the job an
  \<open>Encrypt\<close> call hands to the pool carries the key, plaintext and associated data of the request and 12 bytes
  drawn for it; if the call is answered, the reply carries these bytes; and no encryption that
  any call makes later, whether the earlier one succeeded, failed or was dropped, uses them again, as
  long as the generator has not repeated itself. A \<open>Decrypt\<close> call whose vector has another length than 12
  is rejected without effect.
\<close>

theorem iv_discipline:
  assumes random: "\<And>k n. length (sd_random deps k n) = n"
    and pool: "\<And>request sv. sv_drawn sv \<le> sv_drawn (snd (sd_submit deps request sv))"
    and drawn: "encrypt_job deps s i t iv"
  shows "length iv = 12
    \<and> (\<exists>c q. sg_calls s ! i = (c, Admitted) \<and> ca_rpc c = RpcEncrypt q \<and> sg_calls t ! i
         = (c, Working (PoolWork (JobEncrypt (er_key_label q) (er_plaintext q) (er_associated_data q) iv))))
    \<and> (\<forall>u c reply. (serving_step deps)\<^sup>*\<^sup>* t u \<longrightarrow> sg_calls u ! i = (c, Answered (Ok reply)) \<longrightarrow>
         (\<exists>ct. reply = ReplyEncrypt \<lparr> ep_ciphertext = ct, ep_iv = iv \<rparr>))
    \<and> (\<forall>u j v iv'. (serving_step deps)\<^sup>*\<^sup>* t u \<longrightarrow> encrypt_job deps u j v iv' \<longrightarrow>
         inj_on (\<lambda>k. sd_random deps k 12) {..<sv_drawn (sg_service v)} \<longrightarrow> iv' \<noteq> iv)
    \<and> (\<forall>c d sv. ca_rpc c = RpcDecrypt d \<longrightarrow> length (dr_iv d) \<noteq> 12 \<longrightarrow>
         (\<exists>e. advance deps c Admitted sv = Some (Done (Err e), sv) \<and> st_code e = InvalidArgument))"
proof (intro conjI allI impI)
  note job = encrypt_job_draws [OF drawn]
  show "length iv = 12" using job random by simp
  show call: "\<exists>c q. sg_calls s ! i = (c, Admitted) \<and> ca_rpc c = RpcEncrypt q \<and> sg_calls t ! i
      = (c, Working (PoolWork (JobEncrypt (er_key_label q) (er_plaintext q) (er_associated_data q) iv)))" using job by blast
  show "\<exists>ct. reply = ReplyEncrypt \<lparr> ep_ciphertext = ct, ep_iv = iv \<rparr>"
    if "(serving_step deps)\<^sup>*\<^sup>* t u" "sg_calls u ! i = (c, Answered (Ok reply))" for u c reply
  proof -
    obtain c' q ph where "ca_rpc c' = RpcEncrypt q" "sg_calls t ! i = (c', ph)" "carries iv ph" using call by fastforce
    with carries_run [OF that(1) _ this(2,3,1)] job that(2) show ?thesis by auto
  qed
  show "iv' \<noteq> iv" if "(serving_step deps)\<^sup>*\<^sup>* t u" and later: "encrypt_job deps u j v iv'"
    and inj: "inj_on (\<lambda>k. sd_random deps k 12) {..<sv_drawn (sg_service v)}" for u j v iv'
  proof -
    have "sv_drawn (sg_service s) < sv_drawn (sg_service u)" using job serving_drawn [OF pool that(1)] by linarith
    with job encrypt_job_draws [OF later] show ?thesis
      using inj_onD [OF inj, of "sv_drawn (sg_service s)" "sv_drawn (sg_service u)"] by auto
  qed
  show "\<exists>e. advance deps c Admitted sv = Some (Done (Err e), sv) \<and> st_code e = InvalidArgument"
    if "ca_rpc c = RpcDecrypt d" "length (dr_iv d) \<noteq> 12" for c d sv
    using that by (auto simp: io_bind_def io_lift_def io_throw_def pooled_require_aes_gcm_def GCM_IV_LEN_def
        pooled_iv_length_error_def split: option.splits cipher_mechanism.splits)
qed

section \<open>Evaluation\<close>

abbreviation "demo_call \<equiv> \<lparr> ca_readings = \<lambda>_. 0, ca_certs = Some [[48]], ca_rpc = RpcSign demo_sign_request \<rparr>"
abbreviation "other_call \<equiv> \<lparr> ca_readings = \<lambda>_. 3, ca_certs = None, ca_rpc = RpcSign demo_sign_request \<rparr>"

abbreviation "encrypt_call pt \<equiv> \<lparr> ca_readings = \<lambda>_. 0, ca_certs = Some [[48]],
  ca_rpc = RpcEncrypt \<lparr> er_key_label = ''aes'', er_mechanism = 1, er_plaintext = pt, er_associated_data = [] \<rparr> \<rparr>"

abbreviation "drawn_phase pt k \<equiv> Working (PoolWork (JobEncrypt ''aes'' pt [] (replicate 12 k)))"

theorem iv_discipline_witness:
  "encrypt_job (demo_deps demo_answer)
     \<lparr> sg_service = demo_service, sg_calls = [(encrypt_call [1], Admitted), (encrypt_call [2], Admitted)] \<rparr> 0
     \<lparr> sg_service = demo_service\<lparr>sv_drawn := 1\<rparr>, sg_calls = [(encrypt_call [1], drawn_phase [1] 0), (encrypt_call [2], Admitted)] \<rparr>
     (replicate 12 0)
   \<and> encrypt_job (demo_deps demo_answer)
     \<lparr> sg_service = demo_service\<lparr>sv_drawn := 1\<rparr>, sg_calls = [(encrypt_call [1], drawn_phase [1] 0), (encrypt_call [2], Admitted)] \<rparr> 1
     \<lparr> sg_service = demo_service\<lparr>sv_drawn := 2\<rparr>, sg_calls = [(encrypt_call [1], drawn_phase [1] 0), (encrypt_call [2], drawn_phase [2] 1)] \<rparr>
     (replicate 12 1)
   \<and> replicate 12 (1 :: u8) \<noteq> replicate 12 0"
proof -
  let ?deps = "demo_deps demo_answer"
  let ?s = "\<lparr> sg_service = demo_service, sg_calls = [(encrypt_call [1], Admitted), (encrypt_call [2], Admitted)] \<rparr>"
  let ?t = "\<lparr> sg_service = demo_service\<lparr>sv_drawn := 1\<rparr>, sg_calls = [(encrypt_call [1], drawn_phase [1] 0), (encrypt_call [2], Admitted)] \<rparr>"
  let ?v = "\<lparr> sg_service = demo_service\<lparr>sv_drawn := 2\<rparr>,
    sg_calls = [(encrypt_call [1], drawn_phase [1] 0), (encrypt_call [2], drawn_phase [2] 1)] \<rparr>"
  have adv: "advance ?deps (encrypt_call pt) Admitted (demo_service\<lparr>sv_drawn := k\<rparr>)
      = Some (drawn_phase pt (of_nat k), demo_service\<lparr>sv_drawn := Suc k\<rparr>)" for pt k
    by (simp add: io_bind_def io_lift_def io_return_def draw_iv_def pooled_require_aes_gcm_def cipher_mechanism_of_def
        demo_deps_def GCM_IV_LEN_def)
  have start: "demo_service = demo_service\<lparr>sv_drawn := 0\<rparr>" by (simp add: demo_service_def pooled_new_def)
  have "serving_step ?deps ?s ?t"
    using proceed [of 0 ?s "encrypt_call [1]" Admitted ?deps] adv [of "[1]" 0] start by simp
  then have first: "encrypt_job ?deps ?s 0 ?t (replicate 12 0)" by (simp add: encrypt_job_def)
  have "serving_step ?deps ?t ?v"
    using proceed [of 1 ?t "encrypt_call [2]" Admitted ?deps] adv [of "[2]" 1] by (simp add: numeral_2_eq_2)
  then have second: "encrypt_job ?deps ?t 1 ?v (replicate 12 1)" by (simp add: encrypt_job_def)
  have random: "length (sd_random ?deps k n) = n" for k n by (simp add: demo_deps_def)
  have pool: "sv_drawn sv \<le> sv_drawn (snd (sd_submit ?deps q sv))" for q and sv :: demo_state
    by (simp add: demo_deps_def demo_submit_def)
  have "inj_on (\<lambda>k. sd_random ?deps k 12) {..<sv_drawn (sg_service ?v)}"
    by (auto simp: inj_on_def demo_deps_def less_Suc_eq numeral_2_eq_2)
  with iv_discipline [OF random pool first] second have "replicate 12 (1 :: u8) \<noteq> replicate 12 0" by blast
  with first second show ?thesis by blast
qed

end
