(* ===== verification/Display.thy ===== *)
theory Display
  imports F64
begin

text \<open>
  The formatting of the standard library the command line programs use: \<open>{:<w}\<close>, \<open>{:>w}\<close>, \<open>{:.p}\<close> on
  \<open>f64\<close>, \<open>{:?}\<close> and \<open>{:.p?}\<close> on \<open>Duration\<close>. Numbers are rounded from their exact decimal expansion to
  the nearest, ties to even.
\<close>

section \<open>Padding\<close>

definition pad_left :: "nat \<Rightarrow> string \<Rightarrow> string" where
  "pad_left width s = replicate (width - length s) (CHR '' '') @ s"

definition pad_right :: "nat \<Rightarrow> string \<Rightarrow> string" where
  "pad_right width s = s @ replicate (width - length s) (CHR '' '')"

definition pad_zeros :: "nat \<Rightarrow> string \<Rightarrow> string" where
  "pad_zeros width s = replicate (width - length s) (CHR ''0'') @ s"

definition trim_zeros :: "string \<Rightarrow> string" where
  "trim_zeros s = rev (dropWhile (\<lambda>c. c = CHR ''0'') (rev s))"

section \<open>Numbers\<close>

definition show_decimal :: "nat \<Rightarrow> rat \<Rightarrow> string" where
  "show_decimal p q =
     (let n = nat (round_half_even (q * 10 ^ p)) in
      show_nat (n div 10 ^ p) @ (if p = 0 then [] else ''.'' @ pad_zeros p (show_nat (n mod 10 ^ p))))"

fun show_f64 :: "nat \<Rightarrow> f64 \<Rightarrow> string" where
  "show_f64 p NaN = ''NaN''"
| "show_f64 p (Inf s) = (if s then ''-inf'' else ''inf'')"
| "show_f64 p (Fin q) = (if q < 0 then ''-'' else []) @ show_decimal p \<bar>q\<bar>"

section \<open>Durations\<close>

text \<open>The largest unit not above the duration, with its decimal digits in nanoseconds and its name.\<close>

definition duration_unit :: "duration \<Rightarrow> nat \<times> string" where
  "duration_unit d =
     (if 10 ^ 9 \<le> d then (9, ''s'')
      else if 10 ^ 6 \<le> d then (6, ''ms'')
      else if 10 ^ 3 \<le> d then (3, [CHR 0xC2, CHR 0xB5, CHR ''s''])
      else (0, ''ns''))"

definition show_duration :: "nat \<Rightarrow> duration \<Rightarrow> string" where
  "show_duration p d =
     (let (digits, suffix) = duration_unit d in show_decimal p (of_nat d / 10 ^ digits) @ suffix)"

definition debug_duration :: "duration \<Rightarrow> string" where
  "debug_duration d =
     (let (digits, suffix) = duration_unit d;
          fraction = trim_zeros (pad_zeros digits (show_nat (d mod 10 ^ digits)))
      in show_nat (d div 10 ^ digits) @ (if fraction = [] then [] else ''.'' @ fraction) @ suffix)"

text \<open>\<open>d.as_micros() as f64\<close>.\<close>

definition as_micros_f64 :: "duration \<Rightarrow> f64" where
  "as_micros_f64 d = f64_of_rat (of_nat (d div 1000))"

section \<open>A printed number reads back\<close>

lemma pad_zeros_digits: "list_all is_digit s \<Longrightarrow> list_all is_digit (pad_zeros w s)"
  by (auto simp: pad_zeros_def is_digit_def list_all_iff)

lemma dec_val_pad_zeros: "dec_val acc (pad_zeros w s) = dec_val (acc * 10 ^ (w - length s)) s"
proof -
  have "dec_val acc (replicate k (CHR ''0'')) = acc * 10 ^ k" for k acc
    by (induction k arbitrary: acc) (simp_all add: digit_val_def)
  then show ?thesis by (simp add: pad_zeros_def dec_val_append)
qed

lemma length_show_nat: "n < 10 ^ p \<Longrightarrow> 0 < p \<Longrightarrow> length (show_nat n) \<le> p"
proof (induction n arbitrary: p rule: show_nat.induct)
  case (1 n)
  show ?case
  proof (cases "n < 10")
    case False
    then obtain p' where p: "p = Suc p'" "0 < p'" using "1.prems" by (cases p; cases "p - 1") auto
    then have "n div 10 < 10 ^ p'" using "1.prems" by (simp add: less_mult_imp_div_less mult.commute)
    from "1.IH" [OF False this p(2)] False p(1) show ?thesis by (subst show_nat.simps) simp
  qed (use "1.prems" in \<open>subst show_nat.simps, simp\<close>)
qed

lemma dec_val_shift: "dec_val acc s = acc * 10 ^ length s + dec_val 0 s"
proof (induction s arbitrary: acc)
  case (Cons c s)
  show ?case using Cons [of "10 * acc + digit_val c"] Cons [of "digit_val c"] by (simp add: algebra_simps)
qed simp

lemma digits_while:
  assumes "list_all is_digit s"
  shows "takeWhile is_digit s = s" "dropWhile is_digit s = []" "dropWhile is_digit (s @ t) = dropWhile is_digit t"
    "\<not> is_digit c \<Longrightarrow> takeWhile is_digit (s @ c # t) = s"
  using assms by (simp_all add: list_all_iff dropWhile_append2 takeWhile_tail)

lemma dec_val_decimal:
  assumes "0 < p"
  shows "dec_val 0 (show_nat (n div 10 ^ p) @ pad_zeros p (show_nat (n mod 10 ^ p))) = n"
    and "length (pad_zeros p (show_nat (n mod 10 ^ p))) = p"
proof -
  have len: "length (show_nat (n mod 10 ^ p)) \<le> p" using assms by (intro length_show_nat) simp_all
  then show "length (pad_zeros p (show_nat (n mod 10 ^ p))) = p" by (simp add: pad_zeros_def)
  have "dec_val 0 (show_nat (n div 10 ^ p) @ pad_zeros p (show_nat (n mod 10 ^ p)))
      = n div 10 ^ p * 10 ^ (p - length (show_nat (n mod 10 ^ p))) * 10 ^ length (show_nat (n mod 10 ^ p)) + n mod 10 ^ p"
    by (subst dec_val_append, subst dec_val_pad_zeros, subst dec_val_shift) (simp add: dec_val_show_nat)
  also have "\<dots> = n div 10 ^ p * 10 ^ p + n mod 10 ^ p"
    using len by (simp add: mult.assoc flip: power_add)
  finally show "dec_val 0 (show_nat (n div 10 ^ p) @ pad_zeros p (show_nat (n mod 10 ^ p))) = n"
    by (simp add: div_mult_mod_eq)
qed

lemma parse_decimal_digits:
  "list_all is_digit s \<Longrightarrow> s \<noteq> [] \<Longrightarrow> parse_decimal s = Some (of_nat (dec_val 0 s))"
  by (simp add: parse_decimal_def parse_exponent_def digits_while(1,2) Let_def)

lemma parse_decimal_point:
  assumes "list_all is_digit s" and "s \<noteq> []" and "list_all is_digit f"
  shows "parse_decimal (s @ CHR ''.'' # f) = Some (of_nat (dec_val 0 (s @ f)) / 10 ^ length f)"
  using assms by (simp add: parse_decimal_def parse_exponent_def digits_while is_digit_def [of "CHR ''.''"] Let_def
      power_int_minus field_simps)

lemma parse_show_decimal:
  assumes "0 \<le> q"
  shows "parse_decimal (show_decimal p q) = Some (of_int (round_half_even (q * 10 ^ p)) / 10 ^ p)"
proof -
  let ?n = "nat (round_half_even (q * 10 ^ p))"
  have n: "(of_nat ?n :: rat) = of_int (round_half_even (q * 10 ^ p))"
    using assms round_half_even_ge [of 0 "q * 10 ^ p"] by simp
  show ?thesis
  proof (cases "p = 0")
    case True
    then show ?thesis using show_nat_digits [of ?n] n
      by (simp add: show_decimal_def parse_decimal_digits dec_val_show_nat)
  next
    case False
    then show ?thesis
      using n show_nat_digits dec_val_decimal [of p ?n]
      by (simp add: show_decimal_def parse_decimal_point pad_zeros_digits Let_def)
  qed
qed

text \<open>What is printed with \<open>p\<close> decimals is within half a unit of the last one.\<close>

lemma show_decimal_accurate:
  assumes "0 \<le> q"
  shows "\<exists>v. parse_decimal (show_decimal p q) = Some v \<and> \<bar>v - q\<bar> \<le> 1 / (2 * 10 ^ p)"
proof -
  have "\<bar>of_int (round_half_even (q * 10 ^ p)) / 10 ^ p - q\<bar>
      = \<bar>of_int (round_half_even (q * 10 ^ p)) - q * 10 ^ p\<bar> / 10 ^ p"
    using abs_divide [of "of_int (round_half_even (q * 10 ^ p)) - q * 10 ^ p" "10 ^ p :: rat"]
    by (simp add: diff_divide_distrib)
  also have "\<dots> \<le> 1 / 2 / 10 ^ p" by (intro divide_right_mono round_half_even_error) simp
  finally show ?thesis using parse_show_decimal [OF assms] by simp
qed

end
