(* ===== verification/Server.thy ===== *)
theory Server
  imports Telemetry Backends Token_Check Interleaving Display
begin

text \<open>
  The proxy program, \<open>main.rs\<close>: configuration from the environment, loading of certificates and
  policy, assembly of the two backends, the reports at the end, and what happens to the pool at
  shutdown. Files, address
  parsing, the TOML reader, the TLS and HTTP libraries and the recorder are reached through one
  record; a logger that only prints is left out.
\<close>

section \<open>Configuration\<close>

text \<open>\<open>ServerTlsConfig\<close> with the two settings the code makes.\<close>

record tls_config =
  tl_identity :: "(bytes \<times> bytes) option"
  tl_client_ca :: "bytes option"

record security =
  sc_tls :: tls_config
  sc_authorizer :: authorizer

record admission_config =
  ac_max_concurrent_streams :: "u32 option"
  ac_concurrency_limit_per_connection :: "usize option"
  ac_request_timeout :: "duration option"

definition admission_from_env :: "environ \<Rightarrow> admission_config" where
  "admission_from_env env =
     \<lparr> ac_max_concurrent_streams = env_parse parse_u32 env ''MAX_CONCURRENT_STREAMS'',
       ac_concurrency_limit_per_connection = env_parse parse_u64 env ''CONCURRENCY_LIMIT_PER_CONNECTION'',
       ac_request_timeout = map_option from_millis (env_parse parse_u64 env ''REQUEST_TIMEOUT_MS'') \<rparr>"

text \<open>The settings of a \<open>tonic\<close> server builder, each at its default until it is set.\<close>

record server =
  se_tls :: "tls_config option"
  se_max_concurrent_streams :: "u32 option"
  se_concurrency_limit :: "usize option"
  se_load_shed :: bool
  se_timeout :: "duration option"

definition server_default :: server where
  "server_default =
     \<lparr> se_tls = None, se_max_concurrent_streams = None, se_concurrency_limit = None, se_load_shed = False,
       se_timeout = None \<rparr>"

text \<open>\<open>apply_tls\<close> is the check of \<open>tls_config\<close>, which fails for unusable material.\<close>

definition server_builder ::
    "(tls_config \<Rightarrow> (unit, string) result) \<Rightarrow> security option \<Rightarrow> admission_config \<Rightarrow> (server, failure) result" where
  "server_builder apply_tls security admission =
     result_map
       (\<lambda>b. let b1 = (case ac_max_concurrent_streams admission of
                       Some streams \<Rightarrow> b\<lparr>se_max_concurrent_streams := Some streams\<rparr> | None \<Rightarrow> b);
               b2 = (case ac_concurrency_limit_per_connection admission of
                       Some limit \<Rightarrow> b1\<lparr>se_concurrency_limit := Some limit, se_load_shed := True\<rparr> | None \<Rightarrow> b1)
            in case ac_request_timeout admission of Some timeout \<Rightarrow> b2\<lparr>se_timeout := Some timeout\<rparr> | None \<Rightarrow> b2)
       (case security of
          Some s \<Rightarrow> result_map (\<lambda>_. server_default\<lparr>se_tls := Some (sc_tls s)\<rparr>)
                      (lib_context ''failed to apply TLS configuration'' (apply_tls (sc_tls s)))
        | None \<Rightarrow> Ok server_default)"

section \<open>Certificates and policy\<close>

text \<open>\<open>Path::join\<close> of a directory and a plain file name.\<close>

definition path_join :: "string \<Rightarrow> string \<Rightarrow> string" where
  "path_join dir name = (if dir = [] \<or> last dir = CHR ''/'' then dir @ name else dir @ ''/'' @ name)"

fun policy_cause :: "policy_error \<Rightarrow> cause" where
  "policy_cause (ReadError e) = Message e"
| "policy_cause (TomlError e) = Message e"

fun anyhow_map :: "('e \<Rightarrow> 'f) \<Rightarrow> 'e anyhow \<Rightarrow> 'f anyhow" where
  "anyhow_map f (AnyError cs e) = AnyError cs (f e)"

record files =
  fi_read :: "string \<Rightarrow> (bytes, string) result"
  fi_read_to_string :: "string \<Rightarrow> (string, string) result"
  fi_from_toml :: "string \<Rightarrow> (policy_file, string) result"

definition read_cert :: "files \<Rightarrow> string \<Rightarrow> string \<Rightarrow> (bytes, failure) result" where
  "read_cert fs cert_dir name =
     (let path = path_join cert_dir name in
      lib_context (''failed to read '' @ path @ ''; run scripts/gen-certs.sh, or set PROXY_TLS=off'') (fi_read fs path))"

definition policy_path :: "environ \<Rightarrow> string" where
  "policy_path env = unwrap_or ''policy/authz.toml'' (env ''AUTHZ_POLICY'')"

definition load_security :: "files \<Rightarrow> environ \<Rightarrow> (security option, failure) result" where
  "load_security fs env =
     (if unwrap_or ''on'' (env ''PROXY_TLS'') = ''off'' then Ok None
      else let cert_dir = unwrap_or ''certs'' (env ''CERT_DIR'') in
        and_then (read_cert fs cert_dir ''server.crt'')
          (\<lambda>crt. and_then (read_cert fs cert_dir ''server.key'')
          (\<lambda>key. and_then (read_cert fs cert_dir ''ca.crt'')
          (\<lambda>ca. and_then (map_err (anyhow_map policy_cause)
                   (policy_load (fi_from_toml fs) (fi_read_to_string fs) (policy_path env)))
          (\<lambda>policy. Ok (Some \<lparr> sc_tls = \<lparr> tl_identity = Some (crt, key), tl_client_ca = Some ca \<rparr>,
                                sc_authorizer = authorizer_new policy \<rparr>))))))"

section \<open>Assembly\<close>

datatype ('c, 'g, 'm, 'p) backend = PoolBackend "('c, 'g, 'm, 'p) pooled_service" | SingleBackend single_service

text \<open>
  What \<open>main\<close> calls, with \<open>ho_now\<close> the clock reading of the new breaker. \<open>Pool::start\<close> is reached
  through \<open>ho_start_pool\<close>.
\<close>

record ('w, 'r, 'h, 'b, 'a, 'p, 'c, 'g, 'm) host =
  ho_env :: environ
  ho_files :: files
  ho_prometheus :: "('b, 'h, 'r) prometheus"
  ho_parse_addr :: "string \<Rightarrow> ('a, string) result"
  ho_apply_tls :: "tls_config \<Rightarrow> (unit, string) result"
  ho_reflection :: "(unit, string) result"
  ho_parallelism :: "usize option"
  ho_ck :: "'w cryptoki"
  ho_start_pool :: "token_config \<Rightarrow> pool_config \<Rightarrow> ('w, 'p, pool_error) io"
  ho_limiter :: "('c, 'g) limiter_deps"
  ho_moka :: "'m moka"
  ho_now :: instant

record ('w, 'r) process =
  pr_world :: 'w
  pr_recorder :: 'r

text \<open>A server about to serve: the arguments of \<open>serve_with_shutdown\<close> and what stays in scope.\<close>

record ('h, 'a, 'c, 'g, 'm, 'p) running =
  ru_addr :: 'a
  ru_server :: server
  ru_security :: "security option"
  ru_backend :: "('c, 'g, 'm, 'p) backend"
  ru_metrics :: "('h \<times> 'a) option"

definition on_pr_world :: "('w, 'x, 'e) io \<Rightarrow> (('w, 'r) process, 'x, 'e) io" where
  "on_pr_world m = (\<lambda>p. let (x, w) = m (pr_world p) in (x, p\<lparr>pr_world := w\<rparr>))"

definition on_pr_recorder :: "('r, 'x, 'e) io \<Rightarrow> (('w, 'r) process, 'x, 'e) io" where
  "on_pr_recorder m = (\<lambda>p. let (x, r) = m (pr_recorder p) in (x, p\<lparr>pr_recorder := r\<rparr>))"

definition socket_addr ::
    "('w, 'r, 'h, 'b, 'a, 'p, 'c, 'g, 'm) host \<Rightarrow> string \<Rightarrow> string \<Rightarrow> ('a, failure) result" where
  "socket_addr h key fallback =
     lib_context (key @ '' is not a valid socket address'')
       (ho_parse_addr h (unwrap_or fallback (ho_env h key)))"

definition assemble_pooled ::
    "('w, 'r, 'h, 'b, 'a, 'p, 'c, 'g, 'm) host \<Rightarrow> 'p \<Rightarrow> security option \<Rightarrow> ('c, 'g, 'm, 'p) pooled_service" where
  "assemble_pooled h pool security =
     (let pool_workers = pc_workers (pool_config_from_env (ho_parallelism h) (ho_env h)) in
      (pooled_new pool (map_option sc_authorizer security)
         (key_cache_new (ho_moka h) (cache_config_from_env (ho_env h)))
         (map_option (rate_limiter_new (ho_limiter h)) (rate_limit_from_env (ho_env h)))
         (breaker_new (breaker_config_from_env (ho_env h)) (ho_now h)))
       \<lparr>sv_events := [GaugeSet WORKERS (u64_as_f64 pool_workers)]\<rparr>)"

definition start_pool_mode ::
    "('w, 'r, 'h, 'b, 'a, 'p, 'c, 'g, 'm) host \<Rightarrow> 'h \<Rightarrow> token_config \<Rightarrow> 'a \<Rightarrow> security option \<Rightarrow> admission_config
     \<Rightarrow> (('w, 'r) process, ('h, 'a, 'c, 'g, 'm, 'p) running, failure) io" where
  "start_pool_mode h prometheus token listen_addr security admission =
     io_bind (on_pr_world (io_result
         (map_err (\<lambda>e. anyhow_msg (''failed to start worker pool: '' @ show_pool_error (ho_ck h) e)))
         (ho_start_pool h token (pool_config_from_env (ho_parallelism h) (ho_env h)))))
       (\<lambda>pool. io_bind (io_lift (socket_addr h ''METRICS_ADDR'' ''0.0.0.0:9090''))
       (\<lambda>metrics_addr. io_bind (io_lift (server_builder (ho_apply_tls h) security admission))
       (\<lambda>server. io_return
          \<lparr> ru_addr = listen_addr, ru_server = server, ru_security = security,
            ru_backend = PoolBackend (assemble_pooled h pool security),
            ru_metrics = Some (prometheus, metrics_addr) \<rparr>)))"

definition start_single_mode ::
    "('w, 'r, 'h, 'b, 'a, 'p, 'c, 'g, 'm) host \<Rightarrow> token_config \<Rightarrow> 'a \<Rightarrow> security option \<Rightarrow> admission_config
     \<Rightarrow> (('w, 'r) process, ('h, 'a, 'c, 'g, 'm, 'p) running, failure) io" where
  "start_single_mode h token listen_addr security admission =
     io_bind (on_pr_world (single_connect (ho_ck h) token))
       (\<lambda>service. io_bind (io_lift (server_builder (ho_apply_tls h) security admission))
       (\<lambda>server. io_return
          \<lparr> ru_addr = listen_addr, ru_server = server, ru_security = security,
            ru_backend = SingleBackend service, ru_metrics = None \<rparr>))"

text \<open>\<open>main\<close> up to the point where it serves.\<close>

definition main_start ::
    "('w, 'r, 'h, 'b, 'a, 'p, 'c, 'g, 'm) host
     \<Rightarrow> (('w, 'r) process, ('h, 'a, 'c, 'g, 'm, 'p) running, failure) io" where
  "main_start h =
     io_bind (on_pr_recorder (install (ho_prometheus h)))
       (\<lambda>prometheus. io_bind (io_lift (token_config_from_env (ho_env h)))
       (\<lambda>token. io_bind (io_lift (socket_addr h ''LISTEN_ADDR'' ''0.0.0.0:50051''))
       (\<lambda>listen_addr. io_bind (io_lift (load_security (ho_files h) (ho_env h)))
       (\<lambda>security. let admission = admission_from_env (ho_env h) in
          io_bind (io_lift (lib_context ''failed to build the gRPC reflection service'' (ho_reflection h)))
       (\<lambda>_. let mode = unwrap_or ''pool'' (ho_env h ''PROXY_MODE'') in
          if mode = ''pool'' then start_pool_mode h prometheus token listen_addr security admission
          else if mode = ''single'' then start_single_mode h token listen_addr security admission
          else io_throw (anyhow_msg (''PROXY_MODE must be '' @ quote @ ''pool'' @ quote @ '' or '' @ quote @ ''single''
                 @ quote @ '', got '' @ quote @ mode @ quote)))))))"

section \<open>Shutdown\<close>

text \<open>The final reports, as messages with their fields.\<close>

datatype log_value = Count u64 | Text string

type_synonym log_line = "string \<times> (string \<times> log_value) list"

definition report_pool_metrics :: "pool_metrics \<Rightarrow> log_line" where
  "report_pool_metrics m =
     (''pool metrics'',
      [(''submitted'', Count (pm_jobs_submitted m)), (''completed'', Count (pm_jobs_completed m)),
       (''failed'', Count (pm_jobs_failed m)), (''rejected_queue_full'', Count (pm_jobs_rejected_queue_full m)),
       (''timed_out'', Count (pm_jobs_timed_out m)), (''session_resets'', Count (pm_session_resets m)),
       (''handle_cache_hits'', Count (pm_handle_cache_hits m)), (''handle_cache_misses'', Count (pm_handle_cache_misses m)),
       (''mean_queue_wait_us'', Count (mean_queue_wait_micros m)), (''mean_service_us'', Count (mean_service_micros m))])"

definition report_breaker :: "circuit_breaker \<Rightarrow> log_line" where
  "report_breaker b =
     (''circuit breaker metrics'',
      [(''state'', Text (state_as_str (breaker_state b))), (''trips'', Count (cb_trips b)), (''rejected'', Count (cb_rejected b))])"

definition report_limiter :: "('c, 'g) rate_limiter \<Rightarrow> log_line" where
  "report_limiter rl = (''rate limiter metrics'', [(''allowed'', Count (rl_allowed rl)), (''rejected'', Count (rl_rejected rl))])"

definition report_cache :: "'m moka \<Rightarrow> 'm public_key_cache \<Rightarrow> log_line" where
  "report_cache mk cache =
     (let m = pc_metrics cache in
      (''public key cache metrics'',
       [(''hits'', Count (cm_hits m)), (''misses'', Count (cm_misses m)), (''negative_hits'', Count (cm_negative_hits m)),
        (''hit_ratio'', Text (show_f64 4 (hit_ratio m))), (''entries'', Count (entry_count mk cache))]))"

definition report_authorizer :: "authorizer \<Rightarrow> log_line" where
  "report_authorizer az =
     (let m = az_metrics az in
      (''authorization metrics'',
       [(''allowed'', Count (am_allowed_total m)), (''denied'', Count (am_denied_total m)),
        (''unauthenticated'', Count (am_unauthenticated_total m))]))"

text \<open>
  The service shares its parts with \<open>main\<close>; it has an authorizer exactly if there is a security
  configuration.
\<close>

definition final_reports :: "'m moka \<Rightarrow> pool_metrics \<Rightarrow> ('c, 'g, 'm, 'p) pooled_service \<Rightarrow> log_line list" where
  "final_reports mk pm sv =
     [report_pool_metrics pm, report_breaker (sv_breaker sv)]
     @ (case sv_rate_limiter sv of None \<Rightarrow> [] | Some rl \<Rightarrow> [report_limiter rl])
     @ [report_cache mk (sv_cache sv)]
     @ (case sv_authorizer sv of None \<Rightarrow> [] | Some az \<Rightarrow> [report_authorizer az])"

text \<open>
  The references to the pool: the one of \<open>main\<close>, the one of the sampler, and the one in the service,
  which lives as long as a handle to the service does. The server holds one handle and every
  connection its own; the sampler is a task that loops for ever.
\<close>

record pool_refs =
  rf_main :: bool
  rf_sampler :: bool
  rf_handles :: nat

definition strong_count :: "pool_refs \<Rightarrow> nat" where
  "strong_count r = of_bool (rf_main r) + of_bool (rf_sampler r) + of_bool (0 < rf_handles r)"

text \<open>\<open>Arc::try_unwrap\<close>: the value, if there is exactly one reference.\<close>

definition try_unwrap :: "pool_refs \<Rightarrow> 'p \<Rightarrow> 'p option" where
  "try_unwrap r pool = (if strong_count r = 1 then Some pool else None)"

definition main_shutdown :: "'q flume \<Rightarrow> pool_refs \<Rightarrow> ('w, 'q) pool_sys \<Rightarrow> string list \<times> ('w, 'q) pool_sys" where
  "main_shutdown fl r pool =
     (case try_unwrap r pool of
        Some p \<Rightarrow> ([''shutdown complete''], pool_close fl p)
      | None \<Rightarrow> ([''pool still referenced at shutdown; skipping drain'', ''shutdown complete''], pool))"

text \<open>
  \<open>main\<close> after the server stopped: an error of the server ends the program at once, with neither
  reports nor a drain.
\<close>

definition pool_mode_end ::
    "'m moka \<Rightarrow> 'q flume \<Rightarrow> pool_refs \<Rightarrow> (unit, string) result \<Rightarrow> ('c, 'g, 'm, ('w, 'q) pool_sys) pooled_service
     \<Rightarrow> (log_line list, failure) result \<times> ('w, 'q) pool_sys" where
  "pool_mode_end mk fl refs ended sv =
     (case lib_context ''gRPC server failed'' ended of
        Err e \<Rightarrow> (Err e, sv_pool sv)
      | Ok _ \<Rightarrow>
          (let reports = final_reports mk (ps_metrics (sv_pool sv)) sv;
               (messages, pool) = main_shutdown fl refs (sv_pool sv)
           in (Ok (reports @ map (\<lambda>m. (m, [])) messages), pool)))"

definition single_mode_end :: "(unit, string) result \<Rightarrow> (log_line list, failure) result" where
  "single_mode_end ended =
     result_map (\<lambda>_. [(''shutdown complete'', [])]) (lib_context ''gRPC server failed'' ended)"

text \<open>
  The whole program; \<open>served\<close> is what the server did until it stopped, the service it left with the
  references to the pool, and how it ended.
\<close>

definition proxy_main ::
    "('w, 'r, 'h, 'b, 'a, ('w, 'q) pool_sys, 'c, 'g, 'm) host \<Rightarrow> 'q flume
     \<Rightarrow> (('h, 'a, 'c, 'g, 'm, ('w, 'q) pool_sys) running
          \<Rightarrow> (unit, string) result \<times> ('c, 'g, 'm, ('w, 'q) pool_sys) pooled_service \<times> pool_refs)
     \<Rightarrow> (('w, 'r) process, log_line list, failure) io" where
  "proxy_main h fl served =
     io_bind (main_start h)
       (\<lambda>run. let (ended, sv, refs) = served run in
          io_lift (case ru_backend run of
             PoolBackend _ \<Rightarrow> fst (pool_mode_end (ho_moka h) fl refs ended sv)
           | SingleBackend _ \<Rightarrow> single_mode_end ended))"

section \<open>The policy is enforced from start-up on\<close>

lemma on_pr_world_iff: "on_pr_world m p = (x, p') \<longleftrightarrow> (\<exists>w. m (pr_world p) = (x, w) \<and> p' = p\<lparr>pr_world := w\<rparr>)"
  by (auto simp: on_pr_world_def split: prod.splits)

lemma on_pr_recorder_iff:
  "on_pr_recorder m p = (x, p') \<longleftrightarrow> (\<exists>r. m (pr_recorder p) = (x, r) \<and> p' = p\<lparr>pr_recorder := r\<rparr>)"
  by (auto simp: on_pr_recorder_def split: prod.splits)

lemmas process_iffs = io_iffs on_pr_world_iff on_pr_recorder_iff

lemma load_security_Some:
  assumes "load_security fs env = Ok (Some s)"
  obtains crt key ca toml listed where "tl_identity (sc_tls s) = Some (crt, key)" "tl_client_ca (sc_tls s) = Some ca"
    "fi_read fs (path_join (unwrap_or ''certs'' (env ''CERT_DIR'')) ''ca.crt'') = Ok ca"
    "fi_read_to_string fs (policy_path env) = Ok toml" "fi_from_toml fs toml = Ok listed"
    "sc_authorizer s = authorizer_new (policy_compile listed)"
  using assms
  by (auto simp: load_security_def Let_def and_then_Ok_iff read_cert_def lib_context_def policy_load_def policy_parse_def
      result_map_Ok_iff split: if_splits)

lemma load_security_None: "load_security fs env = Ok None \<longleftrightarrow> env ''PROXY_TLS'' = Some ''off''"
  by (cases "env ''PROXY_TLS''") (auto simp: load_security_def Let_def and_then_Ok_iff)

lemma server_builder_tls:
  "server_builder apply_tls security admission = Ok b \<Longrightarrow> se_tls b = map_option sc_tls security"
  by (auto simp: server_builder_def Let_def result_map_Ok_iff server_default_def split: option.splits)

lemma main_start_facts:
  assumes "main_start h p = (Ok run, p')"
  shows "load_security (ho_files h) (ho_env h) = Ok (ru_security run)
    \<and> se_tls (ru_server run) = map_option sc_tls (ru_security run)
    \<and> (case ru_backend run of
         PoolBackend sv \<Rightarrow> unwrap_or ''pool'' (ho_env h ''PROXY_MODE'') = ''pool''
           \<and> (\<exists>pool. sv = assemble_pooled h pool (ru_security run))
       | SingleBackend _ \<Rightarrow> ho_env h ''PROXY_MODE'' = Some ''single'')"
proof -
  from assms obtain prometheus token addr security q where
    sec: "load_security (ho_files h) (ho_env h) = Ok security" and
    mode: "(unwrap_or ''pool'' (ho_env h ''PROXY_MODE'') = ''pool''
        \<and> start_pool_mode h prometheus token addr security (admission_from_env (ho_env h)) q = (Ok run, p'))
      \<or> (ho_env h ''PROXY_MODE'' = Some ''single''
        \<and> start_single_mode h token addr security (admission_from_env (ho_env h)) q = (Ok run, p'))"
    by (cases "ho_env h ''PROXY_MODE''") (auto simp: main_start_def Let_def process_iffs io_throw_def split: if_splits)
  from mode show ?thesis
    by (auto simp: start_pool_mode_def start_single_mode_def process_iffs sec dest: server_builder_tls)
qed

text \<open>The service that start-up hands over carries an authorizer for the policy file, and has counted nothing.\<close>

lemma started_serving:
  assumes start: "main_start h p = (Ok run, p')" and backend: "ru_backend run = PoolBackend sv"
    and tls: "ho_env h ''PROXY_TLS'' \<noteq> Some ''off''" and deps: "pool_only deps" "sd_limiter deps = ho_limiter h"
  obtains toml listed where "fi_read_to_string (ho_files h) (policy_path (ho_env h)) = Ok toml"
    "fi_from_toml (ho_files h) toml = Ok listed"
    "serving_starts deps (policy_compile listed) \<lparr> sg_service = sv, sg_calls = [] \<rparr>"
proof -
  obtain pool where sec: "load_security (ho_files h) (ho_env h) = Ok (ru_security run)"
    and sv: "sv = assemble_pooled h pool (ru_security run)"
    using main_start_facts [OF start] backend by auto
  obtain s where s: "ru_security run = Some s"
    using sec tls load_security_None by (cases "ru_security run") auto
  obtain toml listed where policy: "fi_read_to_string (ho_files h) (policy_path (ho_env h)) = Ok toml"
    "fi_from_toml (ho_files h) toml = Ok listed" "sc_authorizer s = authorizer_new (policy_compile listed)"
    using load_security_Some [OF sec [unfolded s]] by blast
  have "serving_starts deps (policy_compile listed) \<lparr> sg_service = sv, sg_calls = [] \<rparr>"
    using deps by (auto simp: serving_starts_def sv s policy(3) assemble_pooled_def pooled_new_def Let_def guarded_def
        authorizer_inv_new [unfolded authorizer_new_def] limited_def limiter_inv_new [unfolded rate_limiter_new_def]
        decided_count_def allowed_count_def shared_count_def breaker_new_def authorizer_new_def rate_limiter_new_def)
  with policy(1,2) show thesis by (rule that)
qed

text \<open>
  C1. The policy file decides, from start-up on and however calls interleave: when the proxy came up in
  pool mode with TLS not turned off, then in every state the service gets to, a call that
  succeeded, and even one whose work was only handed to the pool, was made with a certificate whose
  identity the policy file named in the configuration grants this operation on this key.
\<close>

theorem server_enforces_policy:
  assumes start: "main_start h p = (Ok run, p')" and backend: "ru_backend run = PoolBackend sv"
    and tls: "ho_env h ''PROXY_TLS'' \<noteq> Some ''off''" and deps: "pool_only deps" "sd_limiter deps = ho_limiter h"
    and serving: "(serving_step deps)\<^sup>*\<^sup>* \<lparr> sg_service = sv, sg_calls = [] \<rparr> s"
    and served: "(c, ph) \<in> set (sg_calls s)" "past_policy ph"
  shows "\<exists>toml listed leaf chain identity. fi_read_to_string (ho_files h) (policy_path (ho_env h)) = Ok toml
    \<and> fi_from_toml (ho_files h) toml = Ok listed
    \<and> ca_certs c = Some (leaf # chain) \<and> parse_identity (sd_x509 deps) leaf = Ok identity
    \<and> (\<exists>w \<in> set (pf_workloads listed). we_identity w = identity \<and>
         (\<exists>g \<in> set (we_grants w). ge_key_label g = rpc_label (ca_rpc c) \<and> rpc_operation (ca_rpc c) \<in> set (ge_operations g)))"
proof -
  obtain toml listed where policy: "fi_read_to_string (ho_files h) (policy_path (ho_env h)) = Ok toml"
    "fi_from_toml (ho_files h) toml = Ok listed" and "serving_starts deps (policy_compile listed) \<lparr> sg_service = sv, sg_calls = [] \<rparr>"
    by (rule started_serving [OF start backend tls deps])
  then have "reachable (serving_starts deps (policy_compile listed)) (serving_step deps) s"
    using serving reachable_start reachable_steps by metis
  from past_policy_allowed [OF this served] policy show ?thesis unfolding is_allowed_compile by blast
qed

text \<open>
  C29. Plaintext only on request: the server that comes up has no TLS if and only if \<open>PROXY_TLS\<close> is set
  to \<open>off\<close>; otherwise it has an identity and requires client certificates of the authority in
  \<open>ca.crt\<close>, in either mode.
\<close>

theorem plaintext_only_on_request:
  assumes "main_start h p = (Ok run, p')"
  shows "(se_tls (ru_server run) = None \<longleftrightarrow> ho_env h ''PROXY_TLS'' = Some ''off'')
    \<and> (\<forall>tls. se_tls (ru_server run) = Some tls \<longrightarrow> tl_identity tls \<noteq> None
         \<and> (\<exists>ca. tl_client_ca tls = Some ca
              \<and> fi_read (ho_files h) (path_join (unwrap_or ''certs'' (ho_env h ''CERT_DIR'')) ''ca.crt'') = Ok ca))"
proof -
  have sec: "load_security (ho_files h) (ho_env h) = Ok (ru_security run)"
    and tls: "se_tls (ru_server run) = map_option sc_tls (ru_security run)"
    using main_start_facts [OF assms] by simp_all
  show ?thesis
  proof (cases "ru_security run")
    case None
    with sec tls show ?thesis by (simp add: load_security_None)
  next
    case (Some s)
    with sec have "ho_env h ''PROXY_TLS'' \<noteq> Some ''off''" by (auto simp flip: load_security_None [of "ho_files h"])
    moreover obtain crt key ca where "tl_identity (sc_tls s) = Some (crt, key)" "tl_client_ca (sc_tls s) = Some ca"
      "fi_read (ho_files h) (path_join (unwrap_or ''certs'' (ho_env h ''CERT_DIR'')) ''ca.crt'') = Ok ca"
      using load_security_Some [OF sec [unfolded Some]] by blast
    ultimately show ?thesis using tls Some by simp
  qed
qed

section \<open>How the program ends\<close>

text \<open>A server that fails takes the program down with it, in either mode: nothing is reported and nothing drained.\<close>

lemma proxy_main_fails:
  assumes "main_start h p = (Ok run, p')" and "served run = (Err e, sv, refs)"
  shows "proxy_main h fl served p = (Err (AnyError [''gRPC server failed''] (Message e)), p')"
  using assms
  by (simp add: proxy_main_def io_bind_def io_lift_def pool_mode_end_def single_mode_end_def split: backend.split)

section \<open>The final reports add up\<close>

definition logged :: "log_line list \<Rightarrow> string \<Rightarrow> string \<Rightarrow> u64 option" where
  "logged lines message field =
     (case Option.bind (map_of lines message) (\<lambda>fields. map_of fields field) of Some (Count n) \<Rightarrow> Some n | _ \<Rightarrow> None)"

lemmas report_defs = final_reports_def report_pool_metrics_def report_breaker_def report_limiter_def report_cache_def
  report_authorizer_def

lemma logged_reports:
  assumes "pool_mode_end mk fl refs ended sv = (Ok lines, pool)"
  shows "logged lines ''circuit breaker metrics'' ''rejected'' = Some (cb_rejected (sv_breaker sv))"
    "sv_authorizer sv = Some az \<Longrightarrow> logged lines ''authorization metrics'' ''allowed'' = Some (am_allowed_total (az_metrics az))"
    "sv_authorizer sv = Some az \<Longrightarrow> logged lines ''authorization metrics'' ''denied'' = Some (am_denied_total (az_metrics az))"
    "sv_authorizer sv = Some az \<Longrightarrow>
       logged lines ''authorization metrics'' ''unauthenticated'' = Some (am_unauthenticated_total (az_metrics az))"
    "logged lines ''rate limiter metrics'' ''allowed'' = map_option rl_allowed (sv_rate_limiter sv)"
    "logged lines ''rate limiter metrics'' ''rejected'' = map_option rl_rejected (sv_rate_limiter sv)"
proof -
  obtain messages p where m: "main_shutdown fl refs (sv_pool sv) = (messages, p)" by fastforce
  then have messages: "set messages \<subseteq> {''pool still referenced at shutdown; skipping drain'', ''shutdown complete''}"
    by (auto simp: main_shutdown_def split: option.splits)
  have lines: "lines = final_reports mk (ps_metrics (sv_pool sv)) sv @ map (\<lambda>m. (m, [])) messages"
    using assms by (auto simp: pool_mode_end_def m Let_def split: result.splits)
  have "map_of (map (\<lambda>m. (m, [] :: (string \<times> log_value) list)) messages) ''rate limiter metrics'' = None"
    using messages by (auto simp: map_of_eq_None_iff)
  then show "logged lines ''circuit breaker metrics'' ''rejected'' = Some (cb_rejected (sv_breaker sv))"
    "sv_authorizer sv = Some az \<Longrightarrow> logged lines ''authorization metrics'' ''allowed'' = Some (am_allowed_total (az_metrics az))"
    "sv_authorizer sv = Some az \<Longrightarrow> logged lines ''authorization metrics'' ''denied'' = Some (am_denied_total (az_metrics az))"
    "sv_authorizer sv = Some az \<Longrightarrow>
       logged lines ''authorization metrics'' ''unauthenticated'' = Some (am_unauthenticated_total (az_metrics az))"
    "logged lines ''rate limiter metrics'' ''allowed'' = map_option rl_allowed (sv_rate_limiter sv)"
    "logged lines ''rate limiter metrics'' ''rejected'' = map_option rl_rejected (sv_rate_limiter sv)"
    by (simp_all add: lines logged_def report_defs Let_def split: option.split)
qed

lemma closed_calls:
  assumes "\<forall>(c, ph) \<in> set (sg_calls s). (\<exists>r. ph = Answered r) \<or> ph = Dropped"
  shows "open_calls undecided s = 0 \<and> open_calls unshared s = 0"
proof -
  have "\<forall>(c, ph) \<in> set xs. (\<exists>r. ph = Answered r) \<or> ph = Dropped \<Longrightarrow>
      sum_list (map (undecided \<circ> snd) xs) = 0 \<and> sum_list (map (unshared \<circ> snd) xs) = 0" for xs :: "(call \<times> phase) list"
    by (induction xs) auto
  from this [OF assms] show ?thesis by (simp add: open_calls_def)
qed

text \<open>
  C4. The final reports account for every call: after a proxy started in pool mode with TLS has answered or
  dropped all calls it received, the numbers it logs when it stops add up. The calls rejected by the
  open circuit, those without an identity, those denied and those allowed by the policy are
  together all calls; and those the rate limiter let through and held back, if there is one, are
  together those the policy allowed.
\<close>

theorem final_reports_account:
  assumes start: "main_start h p = (Ok run, p')" and backend: "ru_backend run = PoolBackend sv"
    and tls: "ho_env h ''PROXY_TLS'' \<noteq> Some ''off''" and deps: "pool_only deps" "sd_limiter deps = ho_limiter h"
    and laws: "bucket_map_laws (ho_limiter h) held"
    and serving: "(serving_step deps)\<^sup>*\<^sup>* \<lparr> sg_service = sv, sg_calls = [] \<rparr> s"
    and stopped: "\<forall>(c, ph) \<in> set (sg_calls s). (\<exists>r. ph = Answered r) \<or> ph = Dropped"
    and ended: "pool_mode_end (ho_moka h) fl refs ended (sg_service s) = (Ok lines, pool)"
  shows "\<exists>rejected allowed denied unauthenticated.
    logged lines ''circuit breaker metrics'' ''rejected'' = Some rejected
    \<and> logged lines ''authorization metrics'' ''allowed'' = Some allowed
    \<and> logged lines ''authorization metrics'' ''denied'' = Some denied
    \<and> logged lines ''authorization metrics'' ''unauthenticated'' = Some unauthenticated
    \<and> rejected + unauthenticated + denied + allowed = of_nat (length (sg_calls s))
    \<and> (\<forall>passed. logged lines ''rate limiter metrics'' ''allowed'' = Some passed \<longrightarrow>
         (\<exists>held_back. logged lines ''rate limiter metrics'' ''rejected'' = Some held_back \<and> passed + held_back = allowed))"
proof -
  obtain toml listed where "serving_starts deps (policy_compile listed) \<lparr> sg_service = sv, sg_calls = [] \<rparr>"
    by (rule started_serving [OF start backend tls deps])
  then have "reachable (serving_starts deps (policy_compile listed)) (serving_step deps) s"
    using serving reachable_start reachable_steps by metis
  from counts_reachable [OF this, unfolded deps(2), OF laws] obtain az where
    az: "sv_authorizer (sg_service s) = Some az" and agree: "counts_agree s" by (auto simp: guarded_def)
  then show ?thesis using closed_calls [OF stopped] logged_reports [OF ended]
    by (auto simp: counts_agree_def decided_count_def allowed_count_def shared_count_def algebra_simps)
qed

section \<open>The pool at shutdown\<close>



section \<open>Evaluation\<close>

definition listed_policy :: policy_file where
  "listed_policy = \<lparr> pf_workloads = [\<lparr> we_identity = ''spiffe://a'', we_description = None,
     we_grants = [\<lparr> ge_key_label = ''ec'', ge_operations = [Sign, Verify] \<rparr>] \<rparr>] \<rparr>"

text \<open>A host on which every library call succeeds; the recorder is the list of the described names.\<close>

definition host_with ::
    "'p \<Rightarrow> (string \<times> string) list \<Rightarrow> policy_file
     \<Rightarrow> (soft_token, string list, unit, unit, string, 'p, string \<Rightarrow> nat option, nat, shelf) host" where
  "host_with pool vars listed =
     \<lparr> ho_env = map_of ([(''USER_PIN'', ''1234''), (''TOKEN_LABEL'', ''t'')] @ vars),
       ho_files = \<lparr> fi_read = (\<lambda>_. Ok [1]), fi_read_to_string = (\<lambda>_. Ok ''toml''), fi_from_toml = (\<lambda>_. Ok listed) \<rparr>,
       ho_prometheus = \<lparr> pb_new = (), pb_set_buckets = (\<lambda>_ _ b. Ok b), pb_install_recorder = (\<lambda>_. io_return ()),
         pb_describe = (\<lambda>d r. de_name d # r), pb_render = (\<lambda>_ _. ''metrics'') \<rparr>,
       ho_parse_addr = Ok, ho_apply_tls = (\<lambda>_. Ok ()), ho_reflection = Ok (), ho_parallelism = Some 2, ho_ck = vault_ck,
       ho_start_pool = (\<lambda>_ _. io_return pool), ho_limiter = plain_deps, ho_moka = shelf_moka, ho_now = 0 \<rparr>"

abbreviation "demo_host \<equiv> host_with (0 :: nat)"

lemma demo_pool_mode:
  assumes "vars = [] \<or> vars = [(''RATE_LIMIT_PER_SECOND'', ''7'')]"
  shows "\<exists>run p'. main_start (host_with pool vars listed_policy) \<lparr> pr_world = blank_token, pr_recorder = [] \<rparr> = (Ok run, p')
     \<and> ru_backend run = PoolBackend (assemble_pooled (host_with pool vars listed_policy) pool (ru_security run))
     \<and> ru_security run = Some \<lparr> sc_tls = \<lparr> tl_identity = Some ([1], [1]), tl_client_ca = Some [1] \<rparr>,
         sc_authorizer = authorizer_new demo_policy \<rparr>"
  using assms
  by (elim disjE) (simp_all add: main_start_def host_with_def on_pr_recorder_def on_pr_world_def io_simps install_def metric_buckets_def
      lib_context_def token_config_from_env_def socket_addr_def load_security_def read_cert_def policy_load_def
      policy_parse_def listed_policy_def start_pool_mode_def server_builder_def policy_compile_def add_workload_def
      add_grant_def entry_or_def demo_policy_def Let_def)

abbreviation "demo_security \<equiv> Some \<lparr> sc_tls = \<lparr> tl_identity = Some ([1], [1]), tl_client_ca = Some [1] \<rparr>,
  sc_authorizer = authorizer_new demo_policy \<rparr>"

lemma assembled_sign:
  "\<exists>sv'. serve (demo_deps demo_answer) (\<lambda>_. 0) (Some [[48]]) (RpcSign demo_sign_request)
      (assemble_pooled (demo_host [] listed_policy) 0 demo_security)
     = (Ok (ReplySign \<lparr> sp_signature = 1 # replicate 32 5, sp_key_label = ''ec'' \<rparr>), sv')"
proof -
  let ?sv = "assemble_pooled (demo_host [] listed_policy) 0 demo_security"
  have "\<exists>sv1. admit (demo_deps demo_answer) (\<lambda>_. 0) (Some [[48]]) ''ec'' Sign ?sv = (Ok (), sv1)"
    by (simp add: admit_def io_bind_def check_breaker_def check_identity_def check_share_def assemble_pooled_def
        host_with_def demo_deps_def pooled_new_def demo_policy_def breaker_new_closed authorize_def authorizer_new_def
        identify_def leaf_certificate_def cache_lookup_def extractor_new_def parse_identity_def sample_x509_def
        cache_remember_def max_cached_identities_def is_allowed_def rate_limit_from_env_def env_parse_def Let_def)
  then obtain sv1 where "admit (demo_deps demo_answer) (\<lambda>_. 0) (Some [[48]]) ''ec'' Sign ?sv = (Ok (), sv1)" by blast
  then show ?thesis
    by (simp add: sign_def recorded_def io_result_def sign_guard.admitted sign_body_def io_bind_def io_lift_def io_return_def
        pooled_extract_input_def prepare_def signature_mechanism_of_def check_digest_len_def sha256_len_def
        submit_observed_def demo_deps_def demo_submit_def Let_def)
qed

lemma demo_pool_only: "pool_only (demo_deps demo_answer)"
  by (simp add: pool_only_def demo_deps_def demo_submit_def)

theorem server_enforces_policy_witness:
  "\<exists>run p' sv s reply identity.
     main_start (demo_host [] listed_policy) \<lparr> pr_world = blank_token, pr_recorder = [] \<rparr> = (Ok run, p')
     \<and> ru_backend run = PoolBackend sv
     \<and> (serving_step (demo_deps demo_answer))\<^sup>*\<^sup>* \<lparr> sg_service = sv, sg_calls = [] \<rparr> s
     \<and> (demo_call, Answered (Ok reply)) \<in> set (sg_calls s) \<and> parse_identity sample_x509 [48] = Ok identity
     \<and> (\<exists>w \<in> set (pf_workloads listed_policy). we_identity w = identity)"
proof -
  let ?deps = "demo_deps demo_answer" and ?h = "demo_host [] listed_policy"
  obtain run p' where run: "main_start ?h \<lparr> pr_world = blank_token, pr_recorder = [] \<rparr> = (Ok run, p')"
    and backend: "ru_backend run = PoolBackend (assemble_pooled ?h 0 demo_security)"
    using demo_pool_mode [of "[]" 0] by force
  let ?start = "\<lparr> sg_service = assemble_pooled ?h 0 demo_security, sg_calls = [] \<rparr>"
  obtain reply sv' where served: "serve ?deps (ca_readings demo_call) (ca_certs demo_call) (ca_rpc demo_call)
      (assemble_pooled ?h 0 demo_security) = (Ok reply, sv')"
    using assembled_sign by auto
  have "serving_step ?deps ?start (?start\<lparr>sg_calls := [(demo_call, Arrived)]\<rparr>)"
    using arrive [of ?deps ?start demo_call] by simp
  then have reach: "(serving_step ?deps)\<^sup>*\<^sup>* ?start \<lparr> sg_service = sv', sg_calls = [(demo_call, Answered (Ok reply))] \<rparr>"
    using call_runs [OF _ served, of 0 "?start\<lparr>sg_calls := [(demo_call, Arrived)]\<rparr>"]
    by (simp add: with_call_def converse_rtranclp_into_rtranclp)
  have "\<exists>identity. parse_identity sample_x509 [48] = Ok identity \<and> (\<exists>w \<in> set (pf_workloads listed_policy). we_identity w = identity)"
    using server_enforces_policy [OF run backend _ demo_pool_only _ reach, of demo_call "Answered (Ok reply)"]
    by (auto simp: host_with_def demo_deps_def)
  with run backend reach show ?thesis by fastforce
qed

text \<open>A pool that is always full.\<close>

definition full_deps :: "(string \<Rightarrow> nat option, nat, shelf, 'p, soft_token, bytes, bytes, bytes) service_deps" where
  "full_deps =
     \<lparr> sd_x509 = sample_x509, sd_limiter = plain_deps, sd_moka = shelf_moka, sd_lib = sample_lib, sd_ck = soft_ck,
       sd_submit = (\<lambda>_ sv. (Err Overloaded, sv)), sd_shared = (\<lambda>_. Ok LookupNotFound), sd_random = (\<lambda>k n. replicate n (of_nat k)),
       sd_code_description = (\<lambda>_. ''error'') \<rparr>"

theorem final_reports_account_witness:
  "\<exists>run p' sv s lines pool rejected allowed denied unauthenticated.
     main_start (host_with pool_submitted [(''RATE_LIMIT_PER_SECOND'', ''7'')] listed_policy)
       \<lparr> pr_world = blank_token, pr_recorder = [] \<rparr> = (Ok run, p')
     \<and> ru_backend run = PoolBackend sv
     \<and> (serving_step full_deps)\<^sup>*\<^sup>* \<lparr> sg_service = sv, sg_calls = [] \<rparr> s \<and> length (sg_calls s) = 2
     \<and> pool_mode_end shelf_moka list_flume \<lparr> rf_main = True, rf_sampler = True, rf_handles = 0 \<rparr> (Ok ()) (sg_service s)
         = (Ok lines, pool)
     \<and> logged lines ''circuit breaker metrics'' ''rejected'' = Some rejected
     \<and> logged lines ''authorization metrics'' ''allowed'' = Some allowed
     \<and> logged lines ''authorization metrics'' ''denied'' = Some denied
     \<and> logged lines ''authorization metrics'' ''unauthenticated'' = Some unauthenticated
     \<and> rejected + unauthenticated + denied + allowed = 2"
proof -
  let ?h = "host_with pool_submitted [(''RATE_LIMIT_PER_SECOND'', ''7'')] listed_policy"
  let ?refs = "\<lparr> rf_main = True, rf_sampler = True, rf_handles = 0 \<rparr>"
  obtain run p' where run: "main_start ?h \<lparr> pr_world = blank_token, pr_recorder = [] \<rparr> = (Ok run, p')"
    and backend: "ru_backend run = PoolBackend (assemble_pooled ?h pool_submitted demo_security)"
    using demo_pool_mode [of "[(''RATE_LIMIT_PER_SECOND'', ''7'')]" pool_submitted] by force
  let ?sv = "assemble_pooled ?h pool_submitted demo_security"
  let ?start = "\<lparr> sg_service = ?sv, sg_calls = [] \<rparr>"
  let ?both = "\<lparr> sg_service = ?sv, sg_calls = [(demo_call, Arrived), (other_call, Arrived)] \<rparr>"
  obtain r1 sv1 where 1: "serve full_deps (ca_readings demo_call) (ca_certs demo_call) (ca_rpc demo_call) ?sv = (r1, sv1)"
    by fastforce
  obtain r2 sv2 where 2: "serve full_deps (ca_readings other_call) (ca_certs other_call) (ca_rpc other_call) sv1 = (r2, sv2)"
    by fastforce
  let ?one = "\<lparr> sg_service = sv1, sg_calls = [(demo_call, Answered r1), (other_call, Arrived)] \<rparr>"
  let ?two = "\<lparr> sg_service = sv2, sg_calls = [(demo_call, Answered r1), (other_call, Answered r2)] \<rparr>"
  have "(serving_step full_deps)\<^sup>*\<^sup>* ?start ?both"
    using arrive [of full_deps ?start demo_call] arrive [of full_deps "?start\<lparr>sg_calls := [(demo_call, Arrived)]\<rparr>" other_call]
    by (simp add: converse_rtranclp_into_rtranclp)
  moreover have "(serving_step full_deps)\<^sup>*\<^sup>* ?both ?one"
    using call_runs [OF _ 1, of 0 ?both] by (simp add: with_call_def)
  moreover have "(serving_step full_deps)\<^sup>*\<^sup>* ?one ?two"
    using call_runs [OF _ 2, of 1 ?one] by (simp add: with_call_def)
  ultimately have reach: "(serving_step full_deps)\<^sup>*\<^sup>* ?start ?two" by (meson rtranclp_trans)
  obtain lines pool where ended: "pool_mode_end (ho_moka ?h) list_flume ?refs (Ok ()) (sg_service ?two) = (Ok lines, pool)"
    by (simp add: pool_mode_end_def lib_context_def case_prod_beta Let_def)
  have host: "ho_env ?h ''PROXY_TLS'' \<noteq> Some ''off''" "sd_limiter full_deps = ho_limiter ?h" "ho_moka ?h = shelf_moka"
    and deps: "pool_only full_deps" and laws: "bucket_map_laws (ho_limiter ?h) (\<lambda>c. c)"
    by (simp_all add: host_with_def full_deps_def pool_only_def plain_deps_laws)
  from final_reports_account [OF run backend host(1) deps host(2) laws reach _ ended]
  show ?thesis using run backend reach ended unfolding host(3) by fastforce
qed

theorem plaintext_only_on_request_witness:
  "\<exists>run p' tls. main_start (demo_host [] listed_policy) \<lparr> pr_world = blank_token, pr_recorder = [] \<rparr> = (Ok run, p')
     \<and> se_tls (ru_server run) = Some tls \<and> tl_client_ca tls = Some [1]"
proof -
  obtain run p' where run: "main_start (demo_host [] listed_policy) \<lparr> pr_world = blank_token, pr_recorder = [] \<rparr> = (Ok run, p')"
    using demo_pool_mode [of "[]" 0] by blast
  from plaintext_only_on_request [OF run] run show ?thesis by (auto simp: host_with_def)
qed

end
