(* ===== verification/Spike.thy ===== *)
theory Spike
  imports Token_Check Display Recorder
begin

unbundle bit_operations_syntax

text \<open>
  The first experiment with the token, \<open>bin/spike.rs\<close>: it creates a key if needed, signs,
  verifies, checks that a tampered digest is refused, and then signs in loops to price a session.
  The library information and the times measured on the clock are arguments.
\<close>

section \<open>Helpers\<close>

definition spike_oid :: bytes where
  "spike_oid = [0x06, 0x08, 0x2A, 0x86, 0x48, 0xCE, 0x3D, 0x03, 0x01, 0x07]"

definition KEY_LABEL :: string where "KEY_LABEL = ''demo-ec-p256''"
definition RSA_KEY_LABEL :: string where "RSA_KEY_LABEL = ''demo-rsa-2048''"

definition env_or :: "environ \<Rightarrow> string \<Rightarrow> string \<Rightarrow> string" where
  "env_or env key fallback = unwrap_or fallback (env key)"

definition find_one ::
    "'w cryptoki \<Rightarrow> session \<Rightarrow> object_class \<Rightarrow> string \<Rightarrow> ('w, object_handle option, failure) io" where
  "find_one ck session cls label =
     io_bind (io_result (ck_context ''C_FindObjects failed'')
                (ck_find_objects ck session [AClass cls, ALabel (as_bytes label)]))
       (\<lambda>handles. io_return (case handles of [] \<Rightarrow> None | h # _ \<Rightarrow> Some h))"

definition find_key_pair ::
    "'w cryptoki \<Rightarrow> session \<Rightarrow> string \<Rightarrow> ('w, (object_handle \<times> object_handle) option, failure) io" where
  "find_key_pair ck session label =
     io_bind (find_one ck session PRIVATE_KEY label)
       (\<lambda>priv. io_bind (find_one ck session PUBLIC_KEY label)
       (\<lambda>pub. io_return (case (priv, pub) of (Some p, Some q) \<Rightarrow> Some (p, q) | _ \<Rightarrow> None)))"

definition spike_ec_public :: "string \<Rightarrow> attribute list" where
  "spike_ec_public label =
     [AToken True, APrivate False, AKeyType EC, AVerify True, AEcParams spike_oid, ALabel (as_bytes label)]"

definition spike_ec_private :: "string \<Rightarrow> attribute list" where
  "spike_ec_private label =
     [AToken True, APrivate True, ASensitive True, AExtractable False, ASign True, ALabel (as_bytes label)]"

definition generate_ec_key_pair ::
    "'w cryptoki \<Rightarrow> session \<Rightarrow> string \<Rightarrow> ('w, object_handle \<times> object_handle, failure) io" where
  "generate_ec_key_pair ck session label =
     io_bind (io_result (ck_context ''C_GenerateKeyPair(CKM_EC_KEY_PAIR_GEN) failed'')
                (ck_generate_key_pair ck session MEccKeyPairGen (spike_ec_public label) (spike_ec_private label)))
       (\<lambda>(public_key, private_key). io_return (private_key, public_key))"

definition spike_rsa_public :: "string \<Rightarrow> attribute list" where
  "spike_rsa_public label =
     [AToken True, APrivate False, AKeyType RSA, AVerify True, AEncrypt True, AModulusBits 2048,
      APublicExponent [0x01, 0x00, 0x01], ALabel (as_bytes label)]"

definition spike_rsa_private :: "string \<Rightarrow> attribute list" where
  "spike_rsa_private label =
     [AToken True, APrivate True, ASensitive True, AExtractable False, ASign True, ADecrypt True, ALabel (as_bytes label)]"

definition generate_rsa_key_pair ::
    "'w cryptoki \<Rightarrow> session \<Rightarrow> string \<Rightarrow> ('w, object_handle \<times> object_handle, failure) io" where
  "generate_rsa_key_pair ck session label =
     io_bind (io_result (ck_context ''C_GenerateKeyPair(CKM_RSA_PKCS_KEY_PAIR_GEN) failed'')
                (ck_generate_key_pair ck session MRsaPkcsKeyPairGen (spike_rsa_public label) (spike_rsa_private label)))
       (\<lambda>(public_key, private_key). io_return (private_key, public_key))"

text \<open>\<open>{b:02x}\<close>: two lower-case hexadecimal digits per byte.\<close>

definition hex_digit :: "nat \<Rightarrow> char" where
  "hex_digit n = char_of (if n < 10 then 48 + n else 87 + n)"

definition hex :: "bytes \<Rightarrow> string" where
  "hex bs = concat (map (\<lambda>b. [hex_digit (unat b div 16), hex_digit (unat b mod 16)]) bs)"

section \<open>The program\<close>

text \<open>A call whose error is passed on with \<open>?\<close> and no context.\<close>

definition plain :: "('w, 'a, ck_error) io \<Rightarrow> ('w console, 'a, failure) io" where
  "plain m = on_token (io_result (\<lambda>r. lift_error (map_err CkCause r)) m)"

fun repeat_io :: "nat \<Rightarrow> ('w, 'a, 'e) io \<Rightarrow> ('w, unit, 'e) io" where
  "repeat_io 0 m = io_return ()"
| "repeat_io (Suc n) m = io_bind m (\<lambda>_. repeat_io n m)"

text \<open>\<open>tampered[0] ^= 0xFF\<close>; a digest is not empty.\<close>

fun tamper :: "bytes \<Rightarrow> bytes" where
  "tamper [] = []"
| "tamper (b # bs) = (b XOR 0xFF) # bs"

text \<open>
  Dividing a \<open>Duration\<close> by \<open>iterations as u32\<close> panics when the truncated count is zero; a panic
  leaves the scopes like an error.
\<close>

definition per_op :: "usize \<Rightarrow> duration \<Rightarrow> ('w console, duration, failure) io" where
  "per_op iterations d =
     (let n = unat (ucast iterations :: u32) in
      if n = 0 then io_throw (anyhow_msg ''panicked: divide by zero error when dividing duration by scalar'')
      else io_return (d div n))"

definition throughput_line :: "usize \<Rightarrow> duration \<Rightarrow> string" where
  "throughput_line iterations d =
     ''throughput  : '' @ show_f64 0 (f64_div (u64_as_f64 iterations) (as_secs_f64 d))
       @ '' signs/sec (1 session, 1 thread)''"

definition per_op_line :: "duration \<Rightarrow> string" where
  "per_op_line d = ''per op      : '' @ show_duration 3 d"

definition spike_key :: "'w cryptoki \<Rightarrow> session \<Rightarrow> ('w console, object_handle \<times> object_handle, failure) io" where
  "spike_key ck session =
     io_bind (on_token (find_key_pair ck session KEY_LABEL))
       (\<lambda>found. case found of
          Some pair \<Rightarrow> io_bind (println (''key         : found existing '' @ quote @ KEY_LABEL @ quote)) (\<lambda>_. io_return pair)
        | None \<Rightarrow> io_bind (on_token (generate_ec_key_pair ck session KEY_LABEL))
            (\<lambda>pair. io_bind (println (''key         : generated '' @ quote @ KEY_LABEL @ quote)) (\<lambda>_. io_return pair)))"

definition spike_message :: bytes where
  "spike_message = as_bytes ''gRPC-low-latency M0 spike''"

text \<open>Steps 5 to 7: sign, verify, and refuse a tampered digest.\<close>

definition spike_round_trip ::
    "'w cryptoki \<Rightarrow> session \<Rightarrow> object_handle \<Rightarrow> object_handle \<Rightarrow> bytes \<Rightarrow> ('w console, unit, failure) io" where
  "spike_round_trip ck session private_key public_key digest =
     io_bind (on_token (io_result (ck_context ''C_Sign(CKM_ECDSA) failed'') (ck_sign ck session MEcdsa private_key digest)))
       (\<lambda>signature. io_bind (for_each println
            [''digest      : '' @ hex digest,
             ''signature   : '' @ hex signature @ '' ('' @ show_nat (length signature) @ '' bytes)''])
       (\<lambda>_. io_bind (on_token (io_result (ck_context ''C_Verify(CKM_ECDSA) failed -- signature did not round-trip'')
            (ck_verify ck session MEcdsa public_key digest signature)))
       (\<lambda>_. io_bind (println ''verify      : ok'')
       (\<lambda>_. io_case (on_token (ck_verify ck session MEcdsa public_key (tamper digest) signature))
         (\<lambda>r. case r of
            Err _ \<Rightarrow> println ''negative    : ok (tampered digest rejected)''
          | Ok _ \<Rightarrow> io_throw (anyhow_msg ''SECURITY: tampered digest verified successfully''))))))"

text \<open>Steps 8 to 10, the loops; \<open>measured i\<close> is the time the clock shows for the \<open>i\<close>-th of them.\<close>

definition spike_loops ::
    "'w cryptoki \<Rightarrow> (nat \<Rightarrow> duration) \<Rightarrow> session \<Rightarrow> object_handle \<Rightarrow> bytes \<Rightarrow> usize \<Rightarrow> ('w console, unit, failure) io" where
  "spike_loops ck measured session private_key digest iterations =
     (let sign_ec = plain (ck_sign ck session MEcdsa private_key digest);
          find_sign = io_bind (on_token (find_one ck session PRIVATE_KEY KEY_LABEL))
            (\<lambda>found. io_bind (io_lift (ok_or (anyhow_msg ''key vanished mid-loop'') found))
            (\<lambda>handle. plain (ck_sign ck session MEcdsa handle digest)));
          rsa_iterations = max (iterations div 10) 1 in
      if iterations = 0 then io_return ()
      else
        io_bind (repeat_io 100 sign_ec) (\<lambda>_. io_bind (repeat_io (unat iterations) sign_ec)
        (\<lambda>_. io_bind (per_op iterations (measured 0)) (\<lambda>each. io_bind (for_each println
            [newline @ ''-- single-session ECDSA P-256 sign, sequential --'',
             ''iterations  : '' @ show_nat (unat iterations),
             ''elapsed     : '' @ show_duration 3 (measured 0),
             per_op_line each, throughput_line iterations (measured 0)])
        (\<lambda>_. io_bind (repeat_io (unat iterations) find_sign)
        (\<lambda>_. io_bind (println (newline @ ''-- naive pattern: C_FindObjects on every request --''))
        (\<lambda>_. io_bind (per_op iterations (measured 1)) (\<lambda>each. io_bind (for_each println
            [per_op_line each, throughput_line iterations (measured 1)])
        (\<lambda>_. io_bind (on_token (find_key_pair ck session RSA_KEY_LABEL))
        (\<lambda>found. io_bind (case found of
              Some pair \<Rightarrow> io_return pair
            | None \<Rightarrow> on_token (generate_rsa_key_pair ck session RSA_KEY_LABEL))
        (\<lambda>(rsa_private, rsa_public).
           let sign_rsa = plain (ck_sign ck session MSha256RsaPkcs rsa_private spike_message) in
           io_bind (repeat_io 10 sign_rsa) (\<lambda>_. io_bind (repeat_io (unat rsa_iterations) sign_rsa)
           (\<lambda>_. io_bind (println (newline @ ''-- RSA-2048 sign (SHA256-RSA-PKCS), handle cached --''))
           (\<lambda>_. io_bind (per_op rsa_iterations (measured 2)) (\<lambda>each. for_each println
             [per_op_line each, throughput_line rsa_iterations (measured 2)])))))))))))))))"

definition spike_session ::
    "'w cryptoki \<Rightarrow> ('k, 'sg, 'r) crypto_lib \<Rightarrow> (nat \<Rightarrow> duration) \<Rightarrow> environ \<Rightarrow> session \<Rightarrow> ('w console, unit, failure) io" where
  "spike_session ck lib measured env session =
     io_bind (on_token (io_result (ck_context ''C_Login(CKU_USER) failed -- wrong PIN?'')
                (ck_login ck session (env_or env ''USER_PIN'' ''1234''))))
       (\<lambda>_. io_bind (println ''login       : ok'')
       (\<lambda>_. io_bind (spike_key ck session)
       (\<lambda>(private_key, public_key). let digest = sha256 lib spike_message;
            iterations = unwrap_or 2000 (parse_u64 (env_or env ''SPIKE_ITERATIONS'' ''2000'')) in
          io_bind (spike_round_trip ck session private_key public_key digest)
       (\<lambda>_. io_bind (spike_loops ck measured session private_key digest iterations)
       (\<lambda>_. on_token (io_result (ck_context ''C_Logout failed'') (ck_logout ck session)))))))"

definition spike_main ::
    "'w cryptoki \<Rightarrow> ('k, 'sg, 'r) crypto_lib \<Rightarrow> ('w, string \<times> u8 \<times> u8, ck_error) io \<Rightarrow> (nat \<Rightarrow> duration) \<Rightarrow> environ
     \<Rightarrow> ('w console, unit, failure) io" where
  "spike_main ck lib library_info measured env =
     (let module_path = env_or env ''PKCS11_MODULE'' ''/usr/lib/softhsm/libsofthsm2.so'';
          token_label = env_or env ''TOKEN_LABEL'' ''grpc-low-latency'' in
      io_bind (for_each println
          [''== M0 spike: cryptoki -> SoftHSM2 =='', ''module      : '' @ module_path, ''token label : '' @ token_label])
      (\<lambda>_. io_bind (on_token (io_result (ck_context (''dlopen/load failed: '' @ module_path)) (ck_new ck module_path)))
      (\<lambda>_. scoped (ck_drop_context ck)
        (io_bind (on_token (io_result (ck_context ''C_Initialize(CKF_OS_LOCKING_OK) failed'') (ck_initialize ck)))
        (\<lambda>_. io_bind (on_token (io_result (ck_context ''C_GetInfo failed'') library_info))
        (\<lambda>(manufacturer, major, minor). io_bind (println (''library     : '' @ trim manufacturer @ '' ''
             @ show_nat (unat major) @ ''.'' @ show_nat (unat minor)))
        (\<lambda>_. io_bind (on_token (io_result (ck_context ''C_GetSlotList failed'') (ck_get_slots_with_token ck)))
        (\<lambda>slots. io_bind (on_token (\<lambda>w. let (found, w1) = find_slot ck token_label slots w in
             (ok_or (anyhow_msg (''no slot holds a token labelled '' @ quote @ token_label @ quote)) found, w1)))
        (\<lambda>slot. io_bind (println (''slot        : '' @ show_nat (unat slot)))
        (\<lambda>_. io_bind (on_token (io_result (ck_context ''C_OpenSession failed'') (ck_open_rw_session ck slot)))
        (\<lambda>session. io_bind (scoped (ck_drop_session ck session) (spike_session ck lib measured env session))
        (\<lambda>_. println (newline @ ''M0 exit criterion met: ECDSA P-256 signature produced and verified.'')))))))))))))"

section \<open>The two key generators have not drifted apart\<close>

lemma find_one_eq: "find_one ck session cls label = find_object ck session cls label"
  by (rule ext) (simp add: find_one_def find_object_def io_simps Let_def split: prod.splits result.splits)

text \<open>
  The experiment and the provisioning program make the same keys: both search in the same way, and
  their templates for the key pairs name the same attributes with the same values, so a key
  generated by either is protected alike.
\<close>

theorem spike_agrees_with_provisioning:
  "find_one ck session cls label = find_object ck session cls label
   \<and> find_key_pair ck session label = find_object_pair ck session label
   \<and> set (spike_ec_public label) = set (public_key_base label @ [AKeyType EC, AEcParams SECP256R1_OID_DER])
   \<and> set (spike_ec_private label) = set (private_key_base label)
   \<and> set (spike_rsa_public label) = set (public_key_base label @
       [AKeyType RSA, AModulusBits 2048, APublicExponent [0x01, 0x00, 0x01], AEncrypt True])
   \<and> set (spike_rsa_private label) = set (private_key_base label @ [ADecrypt True])"
  by (intro conjI)
     (auto simp: find_one_eq find_key_pair_def find_object_pair_def spike_ec_public_def spike_ec_private_def
       spike_rsa_public_def spike_rsa_private_def public_key_base_def private_key_base_def spike_oid_def SECP256R1_OID_DER_def)

section \<open>What success shows\<close>

lemma spike_round_trip_Ok:
  assumes "spike_round_trip ck session private_key public_key digest c = (Ok (), c')"
  shows "\<exists>w1 w2 w3 w4 signature e. ck_sign ck session MEcdsa private_key digest w1 = (Ok signature, w2)
    \<and> ck_verify ck session MEcdsa public_key digest signature w2 = (Ok (), w3)
    \<and> ck_verify ck session MEcdsa public_key (tamper digest) signature w3 = (Err e, w4)"
proof -
  from assms obtain w2 w3 signature r w4 c4 where
    sign: "ck_sign ck session MEcdsa private_key digest (co_world c) = (Ok signature, w2)"
    and verify: "ck_verify ck session MEcdsa public_key digest signature w2 = (Ok (), w3)"
    and third: "ck_verify ck session MEcdsa public_key (tamper digest) signature w3 = (r, w4)"
      "(case r of Err _ \<Rightarrow> println ''negative    : ok (tampered digest rejected)''
          | Ok _ \<Rightarrow> io_throw (anyhow_msg ''SECURITY: tampered digest verified successfully'')) c4 = (Ok (), c')"
    unfolding spike_round_trip_def by (fastforce simp: io_iffs io_case_iff on_token_iff println_iff)
  from third(2) obtain e where "r = Err e" by (cases r) (auto simp: io_throw_def)
  with third(1) sign verify show ?thesis by blast
qed

text \<open>
  The experiment proves what it prints: when it succeeds, the token signed the digest with the
  private key, accepted that signature for the digest with the public key of the pair, and refused it
  for the tampered digest.
\<close>

theorem spike_success:
  assumes "spike_main ck lib library_info measured env c = (Ok (), c')"
  shows "\<exists>session private_key public_key w1 w2 w3 w4 signature e.
    ck_sign ck session MEcdsa private_key (sha256 lib spike_message) w1 = (Ok signature, w2)
    \<and> ck_verify ck session MEcdsa public_key (sha256 lib spike_message) signature w2 = (Ok (), w3)
    \<and> ck_verify ck session MEcdsa public_key (tamper (sha256 lib spike_message)) signature w3 = (Err e, w4)"
proof -
  from assms obtain session c1 c2 where "spike_session ck lib measured env session c1 = (Ok (), c2)"
    unfolding spike_main_def Let_def by (auto simp: io_iffs scoped_iff)
  then obtain private_key public_key c3 c4 where
    "spike_round_trip ck session private_key public_key (sha256 lib spike_message) c3 = (Ok (), c4)"
    unfolding spike_session_def Let_def by (auto simp: io_iffs)
  from spike_round_trip_Ok [OF this] show ?thesis by blast
qed

lemma tamper_differs: "digest \<noteq> [] \<Longrightarrow> tamper digest \<noteq> digest"
proof (cases digest)
  case (Cons b bs)
  have "b XOR 0xFF \<noteq> b"
  proof
    assume "b XOR 0xFF = b"
    then have "b XOR (b XOR 0xFF) = 0" by simp
    then show False by (simp flip: xor.assoc)
  qed
  with Cons show ?thesis by simp
qed simp

definition spike_environ :: environ where
  "spike_environ = [''TOKEN_LABEL'' \<mapsto> ''t'', ''SPIKE_ITERATIONS'' \<mapsto> ''0'']"

lemma vault_openings:
  "ck_new vault_ck = (\<lambda>_. io_return ())" "ck_initialize vault_ck = io_return ()"
  "ck_get_slots_with_token vault_ck = io_return [3, 5]"
  "ck_token_label vault_ck = (\<lambda>sl. if sl = 5 then io_return ''t '' else io_return ''u'')"
  "ck_open_rw_session vault_ck = tk_open_session" "ck_login vault_ck = tk_do_login"
  by (simp_all add: vault_ck_def soft_ck_def)

lemma parse_zero: "parse_u64 ''0'' = Some 0"
  by (simp add: parse_u64_def parse_uint_def strip_plus_def is_digit_def digit_val_def)

lemma tamper_digest: "tamper (sha256 sample_lib spike_message) \<noteq> sha256 sample_lib spike_message"
  using sample_lib_laws by (intro tamper_differs) (auto simp: lib_laws_def simp flip: length_greater_0_conv)

lemma spike_run:
  "fst (spike_main vault_ck sample_lib (io_return (''SoftHSM'', 2, 6)) (\<lambda>_. 5) spike_environ
     \<lparr> co_world = blank_token, co_lines = [] \<rparr>) = Ok ()"
  by (simp add: spike_main_def spike_session_def spike_key_def spike_round_trip_def spike_loops_def Let_def io_simps
      println_def on_token_def scoped_def token_effect_def spike_environ_def env_or_def find_key_pair_def find_one_def
      generate_ec_key_pair_def spike_ec_public_def spike_ec_private_def vault_calls vault_openings soft_token_simps
      blank_token_def trim_sample parse_zero tamper_digest tamper_digest [symmetric])

theorem spike_success_witness:
  "\<exists>session private_key w1 w2 signature.
    ck_sign vault_ck session MEcdsa private_key (sha256 sample_lib spike_message) w1 = (Ok signature, w2)"
proof -
  have "spike_main vault_ck sample_lib (io_return (''SoftHSM'', 2, 6)) (\<lambda>_. 5) spike_environ
      \<lparr> co_world = blank_token, co_lines = [] \<rparr>
    = (Ok (), snd (spike_main vault_ck sample_lib (io_return (''SoftHSM'', 2, 6)) (\<lambda>_. 5) spike_environ
      \<lparr> co_world = blank_token, co_lines = [] \<rparr>))"
    by (rule prod_eqI) (simp_all add: spike_run)
  from spike_success [OF this] show ?thesis by blast
qed

end
