(* ===== verification/Ceiling.thy ===== *)
theory Ceiling
  imports Spike F64 Recorder
begin

text \<open>
  The benchmark \<open>bin/hsm-ceiling.rs\<close>. A measurement point runs a number of threads that meet the
  main thread at a barrier and then sign until a flag is set: a step relation over the state of
  the threads. The main program around it is a relation, since a point may not return; the times
  measured by the other loops are an argument.
\<close>

section \<open>Configuration\<close>

definition ECDSA_SHA256_MECHANISM :: i32 where
  "ECDSA_SHA256_MECHANISM = 1"

text \<open>\<open>str::split_whitespace\<close>.\<close>

fun take_word :: "string \<Rightarrow> string \<times> string" where
  "take_word [] = ([], [])"
| "take_word (c # cs) =
     (if strip_prefix white_space (c # cs) \<noteq> None then ([], c # cs)
      else let (w, rest) = take_word cs in (c # w, rest))"

lemma take_word_length: "take_word s = (w, rest) \<Longrightarrow> length w + length rest = length s"
  by (induction s arbitrary: w rest) (auto split: if_splits prod.splits)

lemma trim_left_length: "length (trim_left ps s) \<le> length s"
proof (induction ps s rule: trim_left.induct)
  case (1 ps s)
  show ?case
  proof (cases "strip_prefix ps s")
    case None
    then show ?thesis by (simp add: trim_left_stop)
  next
    case (Some t)
    with "1" show ?thesis using strip_prefix_shorter [OF Some] by (simp add: trim_left_skip)
  qed
qed

lemma trim_left_stops: "strip_prefix ps (trim_left ps s) = None"
proof (induction ps s rule: trim_left.induct)
  case (1 ps s)
  show ?case
  proof (cases "strip_prefix ps s")
    case None
    then show ?thesis by (simp add: trim_left_stop)
  next
    case (Some t)
    with "1" show ?thesis by (simp add: trim_left_skip)
  qed
qed

lemma take_word_progress:
  assumes "strip_prefix white_space t = None" and "t \<noteq> []" and "take_word t = (w, rest)"
  shows "w \<noteq> [] \<and> length rest < length t"
proof -
  have "w \<noteq> []" using assms by (cases t) (auto split: prod.splits)
  then show ?thesis using take_word_length [OF assms(3)] by (cases w) auto
qed

function split_whitespace :: "string \<Rightarrow> string list" where
  "split_whitespace s =
     (let t = trim_left white_space s in
      if t = [] then [] else let (w, rest) = take_word t in w # split_whitespace rest)"
  by pat_completeness auto

termination
proof (relation "measure length")
  fix s t w rest and q :: "string \<times> string"
  assume "t = trim_left white_space s" "t \<noteq> []" "q = take_word t" "(w, rest) = q"
  then have "length rest < length t" using take_word_progress [OF trim_left_stops, of s w rest] by simp
  also have "length t \<le> length s" using \<open>t = _\<close> trim_left_length by simp
  finally show "(rest, s) \<in> measure length" by simp
qed simp

definition ceiling_duration :: "environ \<Rightarrow> duration" where
  "ceiling_duration env = from_millis (unwrap_or 3000 (env_parse parse_u64 env ''CEILING_MS''))"

fun filter_map :: "('a \<Rightarrow> 'b option) \<Rightarrow> 'a list \<Rightarrow> 'b list" where
  "filter_map f [] = []"
| "filter_map f (x # xs) = (case f x of None \<Rightarrow> filter_map f xs | Some y \<Rightarrow> y # filter_map f xs)"

definition thread_counts :: "environ \<Rightarrow> usize list" where
  "thread_counts env =
     filter_map parse_u64 (split_whitespace (unwrap_or ''1 2 4 6 8 12 16'' (env ''CEILING_THREADS'')))"

section \<open>A probe thread\<close>

text \<open>Log in, or only open a session when the login fails, since the login state is shared.\<close>

definition probe_session :: "'w cryptoki \<Rightarrow> slot \<Rightarrow> token_config \<Rightarrow> ('w, session, failure) io" where
  "probe_session ck slot config =
     io_case (login_session ck slot config)
       (\<lambda>r. case r of Ok session \<Rightarrow> io_return session
        | Err _ \<Rightarrow> io_result (\<lambda>r. lift_error (map_err CkCause r)) (ck_open_rw_session ck slot))"

definition probe_setup ::
    "'w cryptoki \<Rightarrow> slot \<Rightarrow> token_config \<Rightarrow> string \<Rightarrow> ('w, session \<times> object_handle, failure) io" where
  "probe_setup ck slot config label =
     io_bind (probe_session ck slot config)
       (\<lambda>session. on_error (ck_drop_session ck session)
          (io_bind (find_object ck session PRIVATE_KEY label)
            (\<lambda>found. io_bind (io_lift (ok_or (anyhow_msg (''key '' @ quote @ label @ quote @ '' not found'')) found))
            (\<lambda>key. io_return (session, key)))))"

definition probe_sign ::
    "'w cryptoki \<Rightarrow> ('k, 'sg, 'r) crypto_lib \<Rightarrow> string \<Rightarrow> session \<Rightarrow> object_handle \<Rightarrow> ('w, bytes, ck_error) io" where
  "probe_sign ck lib label session key =
     (if str_contains ''rsa'' label then ck_sign ck session MSha256RsaPkcs key (as_bytes ''ceiling probe'')
      else ck_sign ck session MEcdsa key (sha256 lib (as_bytes ''ceiling probe'')))"

section \<open>A measurement point\<close>

datatype probe_thread =
    Starting
  | AtBarrier session object_handle
  | Signing session object_handle u64
  | Finished "(u64, failure) result"

text \<open>
  The main thread waits at the barrier, sleeps from a clock reading on, joins the threads in order with
  the time that passed, the next thread and the total so far, and returns.
\<close>

datatype probe_main = MainAtBarrier | Sleeping instant | Joining duration nat u64 | Returned "(f64, failure) result"

record 'w probe_sys =
  pr_threads :: "probe_thread list"
  pr_main :: probe_main
  pr_stop :: bool
  pr_token :: 'w

definition probe_start :: "usize \<Rightarrow> 'w probe_sys \<Rightarrow> bool" where
  "probe_start threads s \<longleftrightarrow>
     pr_threads s = replicate (unat threads) Starting \<and> pr_main s = MainAtBarrier \<and> \<not> pr_stop s"

definition set_thread :: "nat \<Rightarrow> probe_thread \<Rightarrow> 'w \<Rightarrow> 'w probe_sys \<Rightarrow> 'w probe_sys" where
  "set_thread i th w s = s\<lparr>pr_threads := (pr_threads s)[i := th], pr_token := w\<rparr>"

fun after_setup :: "(session \<times> object_handle, failure) result \<Rightarrow> probe_thread" where
  "after_setup (Ok (session, key)) = AtBarrier session key"
| "after_setup (Err e) = Finished (Err e)"

fun after_sign :: "session \<Rightarrow> object_handle \<Rightarrow> u64 \<Rightarrow> (bytes, ck_error) result \<Rightarrow> probe_thread" where
  "after_sign session key n (Ok _) = Signing session key (n + 1)"
| "after_sign session key n (Err e) = Finished (Err (AnyError [] (CkCause e)))"

text \<open>
  The barrier opens when the main thread and all the others wait at it. The flag is read with
  relaxed ordering, so a thread may sign again after it was set; a thread that ends drops its
  session. Joining stops at the first thread that failed.
\<close>

inductive probe_step ::
    "'w cryptoki \<Rightarrow> ('k, 'sg, 'r) crypto_lib \<Rightarrow> slot \<Rightarrow> token_config \<Rightarrow> string \<Rightarrow> duration \<Rightarrow> 'w probe_sys \<Rightarrow> 'w probe_sys \<Rightarrow> bool"
  for ck lib slot config label duration where
  set_up:
    "i < length (pr_threads s) \<Longrightarrow> pr_threads s ! i = Starting \<Longrightarrow> probe_setup ck slot config label (pr_token s) = (r, w) \<Longrightarrow>
     probe_step ck lib slot config label duration s (set_thread i (after_setup r) w s)"
| release:
    "pr_main s = MainAtBarrier \<Longrightarrow> (\<forall>th \<in> set (pr_threads s). \<exists>session key. th = AtBarrier session key) \<Longrightarrow>
     probe_step ck lib slot config label duration s
       (s\<lparr>pr_threads := map (\<lambda>th. case th of AtBarrier session key \<Rightarrow> Signing session key 0 | _ \<Rightarrow> th) (pr_threads s),
          pr_main := Sleeping t\<rparr>)"
| sign_once:
    "i < length (pr_threads s) \<Longrightarrow> pr_threads s ! i = Signing session key n \<Longrightarrow>
     probe_sign ck lib label session key (pr_token s) = (r, w) \<Longrightarrow>
     probe_step ck lib slot config label duration s
       (set_thread i (after_sign session key n r) (if is_ok r then w else ck_drop_session ck session w) s)"
| see_stop:
    "i < length (pr_threads s) \<Longrightarrow> pr_threads s ! i = Signing session key n \<Longrightarrow> pr_stop s \<Longrightarrow>
     probe_step ck lib slot config label duration s
       (set_thread i (Finished (Ok n)) (ck_drop_session ck session (pr_token s)) s)"
| wake:
    "pr_main s = Sleeping t \<Longrightarrow> t + duration \<le> t' \<Longrightarrow>
     probe_step ck lib slot config label duration s (s\<lparr>pr_main := Joining (t' - t) 0 0, pr_stop := True\<rparr>)"
| join_one:
    "pr_main s = Joining d i acc \<Longrightarrow> i < length (pr_threads s) \<Longrightarrow> pr_threads s ! i = Finished r \<Longrightarrow>
     probe_step ck lib slot config label duration s
       (s\<lparr>pr_main := (case r of Ok n \<Rightarrow> Joining d (Suc i) (acc + n) | Err e \<Rightarrow> Returned (Err e))\<rparr>)"
| return_rate:
    "pr_main s = Joining d i acc \<Longrightarrow> i = length (pr_threads s) \<Longrightarrow>
     probe_step ck lib slot config label duration s
       (s\<lparr>pr_main := Returned (Ok (f64_div (u64_as_f64 acc) (as_secs_f64 d)))\<rparr>)"

inductive_cases probe_stepE: "probe_step ck lib slot config label duration s t"

section \<open>A failed set-up blocks the measurement\<close>

lemma in_set_update_other: "x \<in> set xs \<Longrightarrow> xs ! i \<noteq> x \<Longrightarrow> x \<in> set (xs[i := y])"
  by (metis in_set_conv_nth length_list_update nth_list_update_neq)

lemma finished_kept:
  "Finished r \<in> set xs \<Longrightarrow> \<forall>r. xs ! i \<noteq> Finished r \<Longrightarrow> \<exists>r. Finished r \<in> set (xs[i := y])"
  by (blast intro: in_set_update_other)

definition blocked :: "'w probe_sys \<Rightarrow> bool" where
  "blocked s \<longleftrightarrow> pr_main s = MainAtBarrier \<and> (\<exists>r. Finished r \<in> set (pr_threads s))"

lemma blocked_step: "blocked s \<Longrightarrow> probe_step ck lib slot config label duration s t \<Longrightarrow> blocked t"
  unfolding blocked_def by (erule probe_stepE) (auto simp: set_thread_def intro: finished_kept)

interpretation blocked_probe: inductive_invariant blocked "probe_step ck lib slot config label duration" blocked
    for ck lib slot config label duration
  by unfold_locales (auto intro: blocked_step)

text \<open>
  C39. A measurement with a failing thread hangs: when a thread ends before the barrier, because it gets no
  session or does not find the key, then whatever the threads do from there on the main thread never
  gets past the barrier, so the error is never reported and \<open>run_point\<close> does not return.
\<close>

theorem run_point_hangs:
  assumes "probe_setup ck slot config label (pr_token s) = (Err e, w)"
    and "i < length (pr_threads s)" and "pr_threads s ! i = Starting" and "pr_main s = MainAtBarrier"
    and "(probe_step ck lib slot config label duration)\<^sup>*\<^sup>* (set_thread i (Finished (Err e)) w s) t"
  shows "probe_step ck lib slot config label duration s (set_thread i (Finished (Err e)) w s)
    \<and> pr_main t = MainAtBarrier"
proof
  show "probe_step ck lib slot config label duration s (set_thread i (Finished (Err e)) w s)"
    using set_up [OF assms(2,3,1), of lib duration] by simp
  have "blocked (set_thread i (Finished (Err e)) w s)"
    using assms(2,4) by (auto simp: blocked_def set_thread_def intro: set_update_memI)
  then have "blocked t" using assms(5) blocked_probe.inv_steps by blast
  then show "pr_main t = MainAtBarrier" by (simp add: blocked_def)
qed

section \<open>The reported rate\<close>

fun thread_count :: "probe_thread \<Rightarrow> u64" where
  "thread_count (Signing _ _ n) = n"
| "thread_count (Finished (Ok n)) = n"
| "thread_count _ = 0"

fun joined :: "probe_thread \<Rightarrow> bool" where
  "joined (Finished (Ok _)) = True"
| "joined _ = False"

fun waiting :: "probe_thread \<Rightarrow> bool" where
  "waiting (Signing _ _ _) = False"
| "waiting (Finished (Ok _)) = False"
| "waiting _ = True"

fun working :: "probe_thread \<Rightarrow> bool" where
  "working (Signing _ _ _) = True"
| "working (Finished _) = True"
| "working _ = False"

text \<open>
  Before the barrier opens no thread signs and afterwards none starts; only the threads joined so far
  are in the total.
\<close>

fun main_ok :: "duration \<Rightarrow> probe_thread list \<Rightarrow> bool \<Rightarrow> probe_main \<Rightarrow> bool" where
  "main_ok d ths stop MainAtBarrier \<longleftrightarrow> \<not> stop \<and> list_all waiting ths"
| "main_ok d ths stop (Sleeping t) \<longleftrightarrow> \<not> stop \<and> list_all working ths"
| "main_ok d ths stop (Joining el i acc) \<longleftrightarrow> stop \<and> list_all working ths \<and> d \<le> el \<and> i \<le> length ths
     \<and> list_all joined (take i ths) \<and> acc = sum_list (map thread_count (take i ths))"
| "main_ok d ths stop (Returned r) \<longleftrightarrow> stop \<and> list_all working ths \<and>
     (case r of
        Ok rate \<Rightarrow> list_all joined ths \<and>
          (\<exists>el \<ge> d. rate = f64_div (u64_as_f64 (sum_list (map thread_count ths))) (as_secs_f64 el))
      | Err e \<Rightarrow> Finished (Err e) \<in> set ths)"

definition probe_inv :: "usize \<Rightarrow> duration \<Rightarrow> 'w probe_sys \<Rightarrow> bool" where
  "probe_inv threads d s \<longleftrightarrow> length (pr_threads s) = unat threads \<and> main_ok d (pr_threads s) (pr_stop s) (pr_main s)"

lemma list_all_update: "list_all P xs \<Longrightarrow> P y \<Longrightarrow> list_all P (xs[i := y])"
  by (auto simp: list_all_iff dest: set_update_subset_insert [THEN subsetD])

lemma take_map_update:
  assumes "list_all joined (take i ths)" and "k < length ths" and "\<not> joined (ths ! k)"
  shows "take i (ths[k := th]) = take i ths"
proof -
  have "i \<le> k" using assms by (auto simp: list_all_length nth_take not_le [symmetric] intro: ccontr)
  then show ?thesis by simp
qed

lemma working_change:
  assumes "main_ok d ths stop m" and "k < length ths" and "ths ! k = Signing session key n" and "working th"
    and "joined th \<longrightarrow> stop"
  shows "main_ok d (ths[k := th]) stop m"
proof -
  have "\<not> list_all waiting ths" "\<not> list_all joined ths" using assms(2,3) by (auto simp: list_all_length)
  then show ?thesis
    using assms
    by (cases m) (auto simp: list_all_update take_map_update split: result.splits intro: in_set_update_other)
qed

lemma probe_inv_step:
  assumes "probe_inv threads duration s" and "probe_step ck lib slot config label duration s t"
  shows "probe_inv threads duration t"
  using assms(2)
proof (cases rule: probe_step.cases)
  case (set_up i r w)
  have "waiting (after_setup r)" by (cases r) auto
  moreover have "pr_main s = MainAtBarrier"
    using assms(1) set_up by (cases "pr_main s") (auto simp: probe_inv_def list_all_length)
  ultimately show ?thesis
    using assms(1) set_up by (simp add: probe_inv_def set_thread_def list_all_update)
next
  case (release t0)
  then show ?thesis
    using assms(1) by (auto simp: probe_inv_def list_all_iff split: probe_thread.splits)
next
  case (sign_once i session key n r w)
  then show ?thesis
    using assms(1) by (cases r) (auto simp: probe_inv_def set_thread_def intro: working_change)
next
  case (see_stop i session key n)
  then show ?thesis
    using assms(1) by (auto simp: probe_inv_def set_thread_def intro: working_change)
next
  case (wake t0 t')
  then show ?thesis using assms(1) by (simp add: probe_inv_def)
next
  case (join_one d i acc r)
  then have "Finished r \<in> set (pr_threads s)" by (metis nth_mem)
  with join_one show ?thesis
    using assms(1)
    by (cases r) (auto simp: probe_inv_def take_Suc_conv_app_nth split: result.splits)
next
  case (return_rate d i acc)
  then show ?thesis using assms(1) by (auto simp: probe_inv_def)
qed

interpretation probe: inductive_invariant
    "probe_start threads" "probe_step ck lib slot config label duration" "probe_inv threads duration"
    for threads ck lib slot config label duration
proof unfold_locales
  show "probe_inv threads duration s" if "probe_start threads s" for s
    using that by (simp add: probe_start_def probe_inv_def list_all_iff)
qed (rule probe_inv_step)

text \<open>
  The reported rate: when \<open>run_point\<close> returns a rate, every thread has ended well, and the rate is the
  number of signatures all of them counted, divided by a time of at least the configured duration.
\<close>

theorem run_point_rate:
  assumes "reachable (probe_start threads) (probe_step ck lib slot config label duration) s"
    and "pr_main s = Returned (Ok rate)"
  shows "length (pr_threads s) = unat threads \<and> (\<exists>counts elapsed. pr_threads s = map (\<lambda>n. Finished (Ok n)) counts
    \<and> duration \<le> elapsed \<and> rate = f64_div (u64_as_f64 (sum_list counts)) (as_secs_f64 elapsed))"
proof -
  have inv: "probe_inv threads duration s" using assms(1) by (rule probe.inv_reachable)
  then have joined: "list_all joined (pr_threads s)" using assms(2) by (simp add: probe_inv_def)
  have shape: "list_all joined ths \<Longrightarrow> ths = map (\<lambda>n. Finished (Ok n)) (map thread_count ths)" for ths
    by (induction ths) (auto elim: joined.elims)
  from inv assms(2) obtain el where "duration \<le> el"
    "rate = f64_div (u64_as_f64 (sum_list (map thread_count (pr_threads s)))) (as_secs_f64 el)"
    by (auto simp: probe_inv_def)
  with inv shape [OF joined] show ?thesis unfolding probe_inv_def by blast
qed

section \<open>Otherwise the measurement returns\<close>

fun preparing :: "probe_thread \<Rightarrow> bool" where
  "preparing Starting = True"
| "preparing (AtBarrier _ _) = True"
| "preparing _ = False"

definition sets_up :: "'w cryptoki \<Rightarrow> slot \<Rightarrow> token_config \<Rightarrow> string \<Rightarrow> bool" where
  "sets_up ck slot config label \<longleftrightarrow> (\<forall>w. is_ok (fst (probe_setup ck slot config label w)))"

text \<open>If every set-up succeeds, all threads are on their way to the barrier until it opens.\<close>

definition none_lost :: "'w cryptoki \<Rightarrow> slot \<Rightarrow> token_config \<Rightarrow> string \<Rightarrow> 'w probe_sys \<Rightarrow> bool" where
  "none_lost ck slot config label s \<longleftrightarrow>
     (sets_up ck slot config label \<longrightarrow> pr_main s = MainAtBarrier \<longrightarrow> list_all preparing (pr_threads s))"

lemma none_lost_step:
  assumes "none_lost ck slot config label s" and "probe_step ck lib slot config label duration s t"
  shows "none_lost ck slot config label t"
  using assms(2)
proof (cases rule: probe_step.cases)
  case (set_up i r w)
  have "preparing (after_setup r)" if "sets_up ck slot config label"
  proof -
    have "is_ok r" using that set_up(4) unfolding sets_up_def by (metis fst_conv)
    then show ?thesis by (cases r) auto
  qed
  then show ?thesis using assms(1) set_up by (simp add: none_lost_def set_thread_def list_all_update)
next
  case (sign_once i session key n r w)
  then show ?thesis using assms(1) by (auto simp: none_lost_def set_thread_def list_all_length)
next
  case (see_stop i session key n)
  then show ?thesis using assms(1) by (auto simp: none_lost_def set_thread_def list_all_length)
qed (auto simp: none_lost_def split: result.splits)

interpretation prepared: inductive_invariant
    "probe_start threads" "probe_step ck lib slot config label duration" "none_lost ck slot config label"
    for threads ck lib slot config label duration
proof unfold_locales
  show "none_lost ck slot config label s" if "probe_start threads s" for s
    using that by (simp add: probe_start_def none_lost_def list_all_iff)
qed (rule none_lost_step)

fun thread_left :: "probe_thread \<Rightarrow> nat" where
  "thread_left Starting = 3"
| "thread_left (AtBarrier _ _) = 2"
| "thread_left (Signing _ _ _) = 1"
| "thread_left (Finished _) = 0"

fun main_left :: "nat \<Rightarrow> probe_main \<Rightarrow> nat" where
  "main_left n MainAtBarrier = n + 3"
| "main_left n (Sleeping _) = n + 2"
| "main_left n (Joining _ i _) = Suc (n - i)"
| "main_left n (Returned _) = 0"

text \<open>What is still to be done, which some step always makes less.\<close>

definition work_left :: "'w probe_sys \<Rightarrow> nat" where
  "work_left s = sum_list (map thread_left (pr_threads s)) + main_left (length (pr_threads s)) (pr_main s)"

lemma thread_progress:
  assumes "i < length (pr_threads s)" and "thread_left th < thread_left (pr_threads s ! i)"
  shows "work_left (set_thread i th w s) < work_left s"
proof -
  have "thread_left (pr_threads s ! i) \<le> sum_list (map thread_left (pr_threads s))"
    using elem_le_sum_list [of i "map thread_left (pr_threads s)"] assms(1) by simp
  with assms show ?thesis by (simp add: work_left_def set_thread_def map_update sum_list_update)
qed

lemma release_progress:
  "pr_main s = MainAtBarrier \<Longrightarrow>
   work_left (s\<lparr>pr_threads := map (\<lambda>th. case th of AtBarrier session key \<Rightarrow> Signing session key 0 | _ \<Rightarrow> th) (pr_threads s),
      pr_main := Sleeping t\<rparr>) < work_left s"
proof -
  have "sum_list (map (\<lambda>th. thread_left (case th of AtBarrier session key \<Rightarrow> Signing session key 0 | _ \<Rightarrow> th)) ths)
      \<le> sum_list (map thread_left ths)" for ths
    by (rule sum_list_mono) (simp split: probe_thread.splits)
  then show "pr_main s = MainAtBarrier \<Longrightarrow> ?thesis"
    by (simp add: work_left_def comp_def le_imp_less_Suc)
qed

lemma probe_progress:
  assumes inv: "probe_inv threads duration s" and lost: "none_lost ck slot config label s"
    and ok: "sets_up ck slot config label" and running: "\<And>r. pr_main s \<noteq> Returned r"
  shows "\<exists>t. probe_step ck lib slot config label duration s t \<and> work_left t < work_left s"
proof (cases "pr_main s")
  case MainAtBarrier
  then have prep: "list_all preparing (pr_threads s)" using lost ok by (simp add: none_lost_def)
  show ?thesis
  proof (cases "\<exists>i < length (pr_threads s). pr_threads s ! i = Starting")
    case True
    then obtain i where i: "i < length (pr_threads s)" "pr_threads s ! i = Starting" by blast
    obtain r w where r: "probe_setup ck slot config label (pr_token s) = (r, w)" by fastforce
    have "thread_left (after_setup r) < 3" by (cases r) auto
    with i thread_progress [OF i(1)] set_up [OF i r] show ?thesis by (metis thread_left.simps(1))
  next
    case False
    have "\<exists>session key. th = AtBarrier session key" if "th \<in> set (pr_threads s)" for th
    proof -
      have "preparing th" "th \<noteq> Starting" using that prep False by (auto simp: list_all_iff in_set_conv_nth)
      then show ?thesis by (cases th) simp_all
    qed
    then show ?thesis using release [OF MainAtBarrier] release_progress [OF MainAtBarrier] by blast
  qed
next
  case (Sleeping t)
  from wake [OF this order_refl] show ?thesis
    by (intro exI conjI) (assumption, simp add: work_left_def Sleeping)
next
  case (Joining d i acc)
  then have i: "i \<le> length (pr_threads s)" and stop: "pr_stop s" and working: "list_all working (pr_threads s)"
    using inv by (auto simp: probe_inv_def)
  show ?thesis
  proof (cases "i = length (pr_threads s)")
    case True
    from return_rate [OF Joining this] show ?thesis
      by (intro exI conjI) (assumption, simp add: work_left_def Joining)
  next
    case False
    with i have less: "i < length (pr_threads s)" by simp
    with working have "working (pr_threads s ! i)" by (simp add: list_all_length)
    then consider session key n where "pr_threads s ! i = Signing session key n" | r where "pr_threads s ! i = Finished r"
      by (auto elim: working.elims)
    then show ?thesis
    proof cases
      case 1
      from see_stop [OF less this stop] thread_progress [OF less] 1 show ?thesis by fastforce
    next
      case 2
      have "work_left (s\<lparr>pr_main := (case r of Ok n \<Rightarrow> Joining d (Suc i) (acc + n) | Err e \<Rightarrow> Returned (Err e))\<rparr>)
          < work_left s"
        using less by (cases r) (simp_all add: work_left_def Joining)
      with join_one [OF Joining less 2] show ?thesis by blast
    qed
  qed
next
  case (Returned r)
  with running show ?thesis by blast
qed

text \<open>
  C26. A measurement whose threads can all set up returns: if every set-up succeeds, then from every state
  the measurement can get into, some continuation lets the main thread return, after a number of
  steps bounded by the work left.
\<close>

theorem run_point_returns:
  assumes "sets_up ck slot config label"
    and "reachable (probe_start threads) (probe_step ck lib slot config label duration) s"
  shows "\<exists>n t r. n \<le> work_left s \<and> ((probe_step ck lib slot config label duration) ^^ n) s t \<and> pr_main t = Returned r"
  using assms(2)
proof (induction "work_left s" arbitrary: s rule: less_induct)
  case less
  show ?case
  proof (cases "\<exists>r. pr_main s = Returned r")
    case True
    then show ?thesis by (intro exI [of _ 0]) auto
  next
    case False
    from less.prems have "probe_inv threads duration s" "none_lost ck slot config label s"
      by (rule probe.inv_reachable, rule prepared.inv_reachable)
    then obtain u where step: "probe_step ck lib slot config label duration s u" and "work_left u < work_left s"
      using probe_progress assms(1) False by metis
    moreover from this(2) reachable_step [OF less.prems step] obtain n t r where "n \<le> work_left u"
      "((probe_step ck lib slot config label duration) ^^ n) u t" "pr_main t = Returned r" using less.hyps by blast
    ultimately have "Suc n \<le> work_left s" "((probe_step ck lib slot config label duration) ^^ Suc n) s t"
      by (simp, blast intro: relpowp_Suc_I2)
    then show ?thesis using \<open>pr_main t = Returned r\<close> by blast
  qed
qed

section \<open>Pricing a verification\<close>

text \<open>
  \<open>verify_cost\<close>: the token's signature is verified on the token and in process, by both libraries;
  \<open>assert!\<close> panics, which leaves the scope like an error; \<open>measured i\<close> is the time of the \<open>i\<close>-th
  loop.
\<close>

definition assert_verified :: "('k, 'sg, 'r) crypto_lib \<Rightarrow> bytes \<Rightarrow> bytes \<Rightarrow> bytes \<Rightarrow> ('w console, unit, failure) io" where
  "assert_verified lib spki digest signature =
     io_bind (io_lift (verify_public lib spki ECDSA_SHA256_MECHANISM (InputDigest digest) signature))
       (\<lambda>valid. if valid then io_return () else io_throw (anyhow_msg ''panicked: assertion failed''))"

definition ring_check :: "('k, 'sg, 'r) crypto_lib \<Rightarrow> bytes \<Rightarrow> bytes \<Rightarrow> bytes \<Rightarrow> string \<Rightarrow> ('w console, unit, failure) io" where
  "ring_check lib point message signature complaint =
     (if ring_verify lib point message signature then io_return () else io_throw (anyhow_msg complaint))"

definition cost_line :: "string \<Rightarrow> duration \<Rightarrow> string" where
  "cost_line name d =
     pad_right 28 name @ '' '' @ pad_left 10 (show_f64 1 (f64_div (as_micros_f64 d) (Fin 3000)) @ '' us'')"

definition cost_lines :: "(nat \<Rightarrow> duration) \<Rightarrow> string list" where
  "cost_lines measured =
     [''-- ECDSA P-256 single-threaded cost, no gRPC --'', cost_line ''sign (token)'' (measured 2),
      cost_line ''verify (token, OpenSSL)'' (measured 0), cost_line ''verify (in-process, p256)'' (measured 1)]"

definition ring_cost_lines :: "(nat \<Rightarrow> duration) \<Rightarrow> string list" where
  "ring_cost_lines measured = [cost_line ''verify (in-process, ring)'' (measured 3), []]"

definition verify_cost_body ::
    "'w cryptoki \<Rightarrow> ('k, 'sg, 'r) crypto_lib \<Rightarrow> (nat \<Rightarrow> duration) \<Rightarrow> session \<Rightarrow> ('w console, unit, failure) io" where
  "verify_cost_body ck lib measured session =
     io_bind (on_token (find_object ck session PRIVATE_KEY ''demo-ec-p256''))
       (\<lambda>priv. io_bind (io_lift (ok_or (anyhow_msg ''demo-ec-p256 not found'') priv))
       (\<lambda>private_key. io_bind (on_token (find_object ck session PUBLIC_KEY ''demo-ec-p256''))
       (\<lambda>pub. io_bind (io_lift (ok_or (anyhow_msg ''demo-ec-p256 public key not found'') pub))
       (\<lambda>public_key. let message = as_bytes ''verify cost probe''; digest = sha256 lib message; iterations = 3000;
            sign = plain (ck_sign ck session MEcdsa private_key digest) in
          io_bind sign
       (\<lambda>signature. io_bind (on_token (public_key_to_spki_der ck lib session public_key))
       (\<lambda>(spki, _). io_bind (repeat_io iterations (plain (ck_verify ck session MEcdsa public_key digest signature)))
       (\<lambda>_. io_bind (repeat_io iterations (assert_verified lib spki digest signature))
       (\<lambda>_. io_bind (repeat_io iterations sign)
       (\<lambda>_. io_bind (for_each println (cost_lines measured))
       (\<lambda>_. io_bind (io_lift (sec1_point_from_spki lib spki))
       (\<lambda>point. io_bind sign
       (\<lambda>ring_sig. io_bind (ring_check lib point message ring_sig ''ring rejected a signature the token produced'')
       (\<lambda>_. io_bind (repeat_io iterations (ring_check lib point message ring_sig ''ring verification failed''))
       (\<lambda>_. for_each println (ring_cost_lines measured)))))))))))))))"

definition verify_cost ::
    "'w cryptoki \<Rightarrow> ('k, 'sg, 'r) crypto_lib \<Rightarrow> (nat \<Rightarrow> duration) \<Rightarrow> slot \<Rightarrow> token_config \<Rightarrow> ('w console, unit, failure) io" where
  "verify_cost ck lib measured slot config =
     io_bind (on_token (probe_session ck slot config))
       (\<lambda>session. scoped (ck_drop_session ck session) (verify_cost_body ck lib measured session))"

lemma repeat_io_once: "repeat_io n m w = (Ok u, w') \<Longrightarrow> 0 < n \<Longrightarrow> \<exists>x w1. m w = (Ok x, w1)"
  by (cases n) (auto simp: io_iffs)

lemma assert_verified_Ok:
  "assert_verified lib spki digest signature c = (Ok u, c') \<Longrightarrow>
     verify_public lib spki ECDSA_SHA256_MECHANISM (InputDigest digest) signature = Ok True"
  by (auto simp: assert_verified_def io_iffs io_throw_def split: if_splits)

text \<open>
  Pricing checks what it prices: when \<open>verify_cost\<close> succeeds, the in-process verifiers accepted
  signatures the token made, the one over the digest and the other over the message.
\<close>

lemma verify_cost_agrees:
  fixes ck :: "'w cryptoki"
  assumes "verify_cost ck lib measured slot config c = (Ok (), c')"
  shows "\<exists>session private_key w signature w' spki point ring_sig.
    ck_sign ck session MEcdsa private_key (sha256 lib (as_bytes ''verify cost probe'')) w = (Ok signature, w')
    \<and> verify_public lib spki ECDSA_SHA256_MECHANISM (InputDigest (sha256 lib (as_bytes ''verify cost probe''))) signature = Ok True
    \<and> sec1_point_from_spki lib spki = Ok point
    \<and> ring_verify lib point (as_bytes ''verify cost probe'') ring_sig"
proof -
  from assms obtain session c1 c2 where "verify_cost_body ck lib measured session c1 = (Ok (), c2)"
    by (auto simp: verify_cost_def io_iffs scoped_iff)
  then obtain private_key w signature w' spki and c3 :: "'w console" and u c4 point ring_sig and c5 :: "'w console" and v c6 where
    "ck_sign ck session MEcdsa private_key (sha256 lib (as_bytes ''verify cost probe'')) w = (Ok signature, w')"
    and asserts: "repeat_io 3000 (assert_verified lib spki (sha256 lib (as_bytes ''verify cost probe'')) signature) c3 = (Ok u, c4)"
    and "sec1_point_from_spki lib spki = Ok point"
    and "ring_check lib point (as_bytes ''verify cost probe'') ring_sig ''ring rejected a signature the token produced'' c5 = (Ok v, c6)"
    unfolding verify_cost_body_def Let_def by (auto simp: io_iffs plain_def on_token_iff)
  moreover from this(4) have "ring_verify lib point (as_bytes ''verify cost probe'') ring_sig"
    by (auto simp: ring_check_def io_throw_def split: if_splits)
  ultimately show ?thesis using repeat_io_once [OF asserts] assert_verified_Ok by fastforce
qed

section \<open>The main program\<close>

text \<open>
  A program with a part that may not return relates the world before to the results and worlds it can
  end with; \<open>runs_io\<close> is a part that always returns, \<open>runs_bind\<close> composition with early return.
\<close>

type_synonym ('w, 'a, 'e) runs = "'w \<Rightarrow> ('a, 'e) result \<Rightarrow> 'w \<Rightarrow> bool"

definition runs_io :: "('w, 'a, 'e) io \<Rightarrow> ('w, 'a, 'e) runs" where
  "runs_io m w r w' \<longleftrightarrow> m w = (r, w')"

definition runs_bind :: "('w, 'a, 'e) runs \<Rightarrow> ('a \<Rightarrow> ('w, 'b, 'e) runs) \<Rightarrow> ('w, 'b, 'e) runs" where
  "runs_bind m f w r w' \<longleftrightarrow>
     (\<exists>x w1. m w (Ok x) w1 \<and> f x w1 r w') \<or> (\<exists>e. m w (Err e) w' \<and> r = Err e)"

definition runs_on_token :: "('w, 'a, 'e) runs \<Rightarrow> ('w console, 'a, 'e) runs" where
  "runs_on_token m c r c' \<longleftrightarrow> (\<exists>w. m (co_world c) r w \<and> c' = c\<lparr>co_world := w\<rparr>)"

text \<open>\<open>run_point\<close>: a run of the threads in which the main thread returns.\<close>

definition run_point ::
    "'w cryptoki \<Rightarrow> ('k, 'sg, 'r) crypto_lib \<Rightarrow> slot \<Rightarrow> token_config \<Rightarrow> string \<Rightarrow> usize \<Rightarrow> duration \<Rightarrow> ('w, f64, failure) runs" where
  "run_point ck lib slot config label threads duration w r w' \<longleftrightarrow>
     (\<exists>s t. probe_start threads s \<and> pr_token s = w \<and> (probe_step ck lib slot config label duration)\<^sup>*\<^sup>* s t
        \<and> pr_main t = Returned r \<and> pr_token t = w')"

definition ceiling_row :: "usize \<Rightarrow> f64 \<Rightarrow> f64 \<Rightarrow> string" where
  "ceiling_row threads ops_per_sec baseline =
     pad_right 9 (show_nat (unat threads)) @ '' '' @ pad_right 14 (show_f64 0 ops_per_sec) @ '' ''
     @ pad_right 14 (show_f64 1 (f64_div (f64_mul (Fin 1000000) (u64_as_f64 threads)) ops_per_sec) @ '' us'') @ '' ''
     @ pad_right 10 (show_f64 2 (f64_div ops_per_sec baseline) @ ''x'')"

primrec ceiling_rows ::
    "(usize \<Rightarrow> ('w, f64, failure) runs) \<Rightarrow> f64 \<Rightarrow> usize list \<Rightarrow> ('w console, unit, failure) runs" where
  "ceiling_rows point baseline [] = runs_io (io_return ())"
| "ceiling_rows point baseline (threads # rest) =
     runs_bind (runs_on_token (point threads))
       (\<lambda>ops_per_sec. let baseline' = (if f64_eq baseline (Fin 0) then ops_per_sec else baseline) in
          runs_bind (runs_io (println (ceiling_row threads ops_per_sec baseline')))
            (\<lambda>_. ceiling_rows point baseline' rest))"

definition table_head :: "string \<Rightarrow> string \<Rightarrow> string list" where
  "table_head label mechanism_name =
     [''-- '' @ mechanism_name @ '' ('' @ label @ '') --'',
      pad_right 9 ''threads'' @ '' '' @ pad_right 14 ''ops/sec'' @ '' '' @ pad_right 14 ''per-op'' @ '' ''
      @ pad_right 10 ''scaling'']"

definition ceiling_table ::
    "(string \<Rightarrow> usize \<Rightarrow> ('w, f64, failure) runs) \<Rightarrow> usize list \<Rightarrow> string \<times> string \<Rightarrow> ('w console, unit, failure) runs" where
  "ceiling_table point counts = (\<lambda>(label, mechanism_name).
     runs_bind (runs_io (for_each println (table_head label mechanism_name)))
       (\<lambda>_. runs_bind (ceiling_rows (point label) (Fin 0) counts) (\<lambda>_. runs_io (println []))))"

text \<open>
  The context is released at the end of \<open>main\<close>; when a point returns early with an error, threads that
  were not joined share it, and the process ends with them.
\<close>

definition ceiling_main ::
    "'w cryptoki \<Rightarrow> ('k, 'sg, 'r) crypto_lib \<Rightarrow> (nat \<Rightarrow> duration) \<Rightarrow> environ \<Rightarrow> ('w console, unit, failure) runs" where
  "ceiling_main ck lib measured env =
     runs_bind (runs_io (io_lift (token_config_from_env env)))
       (\<lambda>config. runs_bind (runs_io (on_token (load_module ck config)))
       (\<lambda>slot. let duration = ceiling_duration env;
            table = ceiling_table (\<lambda>label threads. run_point ck lib slot config label threads duration) (thread_counts env) in
          runs_bind (runs_io (println (''token ceiling: raw PKCS#11, no gRPC, '' @ debug_duration duration
            @ '' per point'' @ newline)))
       (\<lambda>_. runs_bind (table (''demo-ec-p256'', ''ECDSA P-256''))
       (\<lambda>_. runs_bind (table (''demo-rsa-2048'', ''RSA-2048''))
       (\<lambda>_. runs_io (scoped (ck_drop_context ck) (verify_cost ck lib measured slot config)))))))"

section \<open>What a table shows\<close>

lemma runs_bind_Ok: "runs_bind m f w (Ok y) w' \<longleftrightarrow> (\<exists>x w1. m w (Ok x) w1 \<and> f x w1 (Ok y) w')"
  by (simp add: runs_bind_def)

lemma for_each_println: "for_each println lines c = (Ok (), c\<lparr>co_lines := co_lines c @ lines\<rparr>)"
  by (induction lines arbitrary: c) (simp_all add: io_simps println_def)

text \<open>The rate a row is compared with: the first one in the table, up to the row, that is not zero.\<close>

definition row_baseline :: "f64 list \<Rightarrow> nat \<Rightarrow> f64" where
  "row_baseline rates i =
     (case filter (\<lambda>r. \<not> f64_eq r (Fin 0)) (take (Suc i) rates) of [] \<Rightarrow> rates ! i | r # _ \<Rightarrow> r)"

definition baseline_from :: "f64 \<Rightarrow> f64 list \<Rightarrow> nat \<Rightarrow> f64" where
  "baseline_from b rates i = (if f64_eq b (Fin 0) then row_baseline rates i else b)"

lemma baseline_from_Cons:
  "baseline_from b (r # rates) 0 = (if f64_eq b (Fin 0) then r else b)"
  "baseline_from b (r # rates) (Suc i) = baseline_from (if f64_eq b (Fin 0) then r else b) rates i"
  by (simp_all add: baseline_from_def row_baseline_def split: list.split)

lemma ceiling_rows_Ok:
  assumes "ceiling_rows point baseline counts c (Ok ()) c'"
  shows "\<exists>rates. list_all2 (\<lambda>threads rate. \<exists>w w'. point threads w (Ok rate) w') counts rates
    \<and> co_lines c' = co_lines c
        @ map (\<lambda>i. ceiling_row (counts ! i) (rates ! i) (baseline_from baseline rates i)) [0..<length counts]"
  using assms
proof (induction counts arbitrary: baseline c)
  case Nil
  then show ?case by (simp add: runs_io_def io_return_def)
next
  case (Cons threads rest)
  from Cons.prems obtain rate w where point: "point threads (co_world c) (Ok rate) w"
    and rows: "ceiling_rows point (if f64_eq baseline (Fin 0) then rate else baseline) rest
      (c\<lparr>co_world := w, co_lines := co_lines c
          @ [ceiling_row threads rate (if f64_eq baseline (Fin 0) then rate else baseline)]\<rparr>) (Ok ()) c'"
    by (auto simp: runs_bind_Ok runs_on_token_def runs_io_def println_def Let_def)
  from Cons.IH [OF rows] obtain rates where
    "list_all2 (\<lambda>threads rate. \<exists>w w'. point threads w (Ok rate) w') rest rates"
    "co_lines c' = co_lines c @ [ceiling_row threads rate (if f64_eq baseline (Fin 0) then rate else baseline)]
      @ map (\<lambda>i. ceiling_row (rest ! i) (rates ! i)
            (baseline_from (if f64_eq baseline (Fin 0) then rate else baseline) rates i)) [0..<length rest]" by auto
  then show ?case using point
    by (intro exI [of _ "rate # rates"])
       (auto simp: baseline_from_Cons upt_conv_Cons simp del: upt_Suc simp flip: map_Suc_upt)
qed

lemma run_point_measured:
  assumes "run_point ck lib slot config label threads duration w (Ok rate) w'"
  shows "\<exists>signed elapsed. length signed = unat threads \<and> duration \<le> elapsed
    \<and> rate = f64_div (u64_as_f64 (sum_list signed)) (as_secs_f64 elapsed)"
proof -
  from assms obtain s t where "probe_start threads s" "(probe_step ck lib slot config label duration)\<^sup>*\<^sup>* s t"
    and t: "pr_main t = Returned (Ok rate)" by (auto simp: run_point_def)
  then have "reachable (probe_start threads) (probe_step ck lib slot config label duration) t"
    using reachable_steps reachable_start by metis
  from run_point_rate [OF this t] show ?thesis by (metis length_map)
qed

text \<open>
  A printed table shows measurements: it has one row for each configured number of threads, in order;
  the rate in a row is what that many threads counted, divided by a time of at least the configured
  duration, and the last column is the ratio to the first rate in the table that is not zero.
\<close>

theorem ceiling_table_measured:
  assumes "ceiling_table (\<lambda>label threads. run_point ck lib slot config label threads duration) counts (label, name) c (Ok ()) c'"
  shows "\<exists>rates. length rates = length counts
    \<and> co_lines c' = co_lines c @ table_head label name
        @ map (\<lambda>i. ceiling_row (counts ! i) (rates ! i) (row_baseline rates i)) [0..<length counts] @ [[]]
    \<and> (\<forall>i < length counts. \<exists>signed elapsed. length signed = unat (counts ! i) \<and> duration \<le> elapsed
          \<and> rates ! i = f64_div (u64_as_f64 (sum_list signed)) (as_secs_f64 elapsed))"
proof -
  from assms obtain c1 where
    rows: "ceiling_rows (\<lambda>threads. run_point ck lib slot config label threads duration) (Fin 0) counts
      (c\<lparr>co_lines := co_lines c @ table_head label name\<rparr>) (Ok ()) c1"
    and "c' = c1\<lparr>co_lines := co_lines c1 @ [[]]\<rparr>"
    by (auto simp: ceiling_table_def runs_bind_Ok runs_io_def println_def for_each_println)
  with ceiling_rows_Ok [OF rows] obtain rates where
    points: "list_all2 (\<lambda>threads rate. \<exists>w w'. run_point ck lib slot config label threads duration w (Ok rate) w') counts rates"
    and shown: "co_lines c' = co_lines c @ table_head label name
      @ map (\<lambda>i. ceiling_row (counts ! i) (rates ! i) (row_baseline rates i)) [0..<length counts] @ [[]]"
    by (auto simp: baseline_from_def)
  have "\<exists>signed elapsed. length signed = unat (counts ! i) \<and> duration \<le> elapsed
      \<and> rates ! i = f64_div (u64_as_f64 (sum_list signed)) (as_secs_f64 elapsed)" if i: "i < length counts" for i
  proof -
    obtain w w' where "run_point ck lib slot config label (counts ! i) duration w (Ok (rates ! i)) w'"
      using list_all2_nthD [OF points i] by blast
    then show ?thesis by (rule run_point_measured)
  qed
  with shown list_all2_lengthD [OF points] show ?thesis by (intro exI [of _ rates]) simp
qed

section \<open>Evaluation\<close>

definition probe_config :: token_config where
  "probe_config = \<lparr> tc_module_path = ''lib'', tc_token_label = ''t'', tc_user_pin = ''1234'' \<rparr>"

definition probe_world :: "soft_token probe_sys" where
  "probe_world = \<lparr> pr_threads = [Starting], pr_main = MainAtBarrier, pr_stop = False, pr_token = blank_token \<rparr>"

lemma missing_key:
  "\<exists>e w. probe_setup vault_ck 5 probe_config ''demo-ec-p256'' blank_token = (Err e, w)"
  by (simp add: probe_setup_def probe_session_def login_session_def on_error_def find_object_def io_simps vault_calls
      vault_openings soft_token_simps blank_token_def probe_config_def)

theorem run_point_hangs_witness:
  "\<exists>s. probe_step vault_ck sample_lib 5 probe_config ''demo-ec-p256'' 10 probe_world s
     \<and> (\<forall>t. (probe_step vault_ck sample_lib 5 probe_config ''demo-ec-p256'' 10)\<^sup>*\<^sup>* s t \<longrightarrow> pr_main t = MainAtBarrier)"
proof -
  obtain e w where "probe_setup vault_ck 5 probe_config ''demo-ec-p256'' (pr_token probe_world) = (Err e, w)"
    using missing_key by (auto simp: probe_world_def)
  from run_point_hangs [OF this, of 0] show ?thesis by (auto simp: probe_world_def)
qed

text \<open>A token on which every session opens and every search finds a key.\<close>

definition open_ck :: "soft_token cryptoki" where
  "open_ck = soft_ck\<lparr>ck_open_rw_session := (\<lambda>_. io_return 1), ck_login := (\<lambda>_ _. io_return ()),
     ck_find_objects := (\<lambda>_ _. io_return [20]), ck_sign := (\<lambda>_ _ _ payload. io_return payload)\<rparr>"

lemma open_sets_up: "sets_up open_ck 5 probe_config label"
  by (simp add: sets_up_def probe_setup_def probe_session_def login_session_def on_error_def find_object_def io_simps open_ck_def)

lemma probe_world_reachable:
  "reachable (probe_start 1) (probe_step ck lib slot config label duration) probe_world"
  by (rule reachable_start) (simp add: probe_start_def probe_world_def)

theorem run_point_returns_witness:
  "\<exists>n t r. n \<le> 7 \<and> ((probe_step open_ck sample_lib 5 probe_config ''demo-ec-p256'' 10) ^^ n) probe_world t
     \<and> pr_main t = Returned r"
  using run_point_returns [OF open_sets_up probe_world_reachable, of sample_lib "''demo-ec-p256''" 10]
  by (simp add: work_left_def probe_world_def)

abbreviation "probe_run \<equiv> probe_step open_ck sample_lib 5 probe_config ''demo-ec-p256'' 10"

definition probe_at :: "probe_thread \<Rightarrow> probe_main \<Rightarrow> bool \<Rightarrow> soft_token probe_sys" where
  "probe_at th m stop = \<lparr> pr_threads = [th], pr_main = m, pr_stop = stop, pr_token = blank_token \<rparr>"

lemma open_setup: "probe_setup open_ck 5 probe_config label w = (Ok (1, 20), w)"
  by (simp add: probe_setup_def probe_session_def login_session_def on_error_def find_object_def io_simps open_ck_def)

lemma open_sign: "\<exists>sig. probe_sign open_ck lib label session key w = (Ok sig, w)"
  by (simp add: probe_sign_def open_ck_def io_return_def)

lemma open_drop: "ck_drop_session open_ck session blank_token = blank_token"
  by (simp add: open_ck_def soft_ck_def tk_close_session_def blank_token_def)

lemma probe_set_up: "probe_run (probe_at Starting MainAtBarrier False) (probe_at (AtBarrier 1 20) MainAtBarrier False)"
  using set_up [of 0 "probe_at Starting MainAtBarrier False" open_ck 5 probe_config _ "Ok (1, 20)" blank_token]
  by (simp add: probe_at_def set_thread_def open_setup)

lemma probe_release:
  "probe_run (probe_at (AtBarrier 1 20) MainAtBarrier False) (probe_at (Signing 1 20 0) (Sleeping 5) False)"
  using release [of "probe_at (AtBarrier 1 20) MainAtBarrier False"] by (simp add: probe_at_def)

lemma probe_signs: "probe_run (probe_at (Signing 1 20 0) (Sleeping 5) False) (probe_at (Signing 1 20 1) (Sleeping 5) False)"
proof -
  obtain sig where "probe_sign open_ck sample_lib ''demo-ec-p256'' 1 20 blank_token = (Ok sig, blank_token)"
    using open_sign by blast
  then show ?thesis
    using sign_once [of 0 "probe_at (Signing 1 20 0) (Sleeping 5) False" 1 20 0 open_ck sample_lib _ "Ok sig" blank_token]
    by (simp add: probe_at_def set_thread_def)
qed

lemma probe_wakes:
  "probe_run (probe_at (Signing 1 20 1) (Sleeping 5) False) (probe_at (Signing 1 20 1) (Joining 10 0 0) True)"
  using wake [of "probe_at (Signing 1 20 1) (Sleeping 5) False" 5 10 15] by (simp add: probe_at_def)

lemma probe_stops:
  "probe_run (probe_at (Signing 1 20 1) (Joining 10 0 0) True) (probe_at (Finished (Ok 1)) (Joining 10 0 0) True)"
  using see_stop [of 0 "probe_at (Signing 1 20 1) (Joining 10 0 0) True" 1 20 1 open_ck]
  by (simp add: probe_at_def set_thread_def open_drop)

lemma probe_joins:
  "probe_run (probe_at (Finished (Ok 1)) (Joining 10 0 0) True) (probe_at (Finished (Ok 1)) (Joining 10 1 1) True)"
  using join_one [of "probe_at (Finished (Ok 1)) (Joining 10 0 0) True" 10 0 0 "Ok 1"] by (simp add: probe_at_def)

lemma probe_returns:
  "probe_run (probe_at (Finished (Ok 1)) (Joining 10 1 1) True)
     (probe_at (Finished (Ok 1)) (Returned (Ok (f64_div (u64_as_f64 1) (as_secs_f64 10)))) True)"
  using return_rate [of "probe_at (Finished (Ok 1)) (Joining 10 1 1) True" 10 1 1] by (simp add: probe_at_def)

theorem run_point_rate_witness:
  "\<exists>counts elapsed. [Finished (Ok 1)] = map (\<lambda>n. Finished (Ok n)) counts \<and> 10 \<le> elapsed
     \<and> f64_div (u64_as_f64 1) (as_secs_f64 10) = f64_div (u64_as_f64 (sum_list counts)) (as_secs_f64 elapsed)"
proof -
  let ?stop = "probe_at (Finished (Ok 1)) (Returned (Ok (f64_div (u64_as_f64 1) (as_secs_f64 10)))) True"
  have "reachable (probe_start 1) probe_run (probe_at Starting MainAtBarrier False)"
    by (rule reachable_start) (simp add: probe_start_def probe_at_def)
  then have "reachable (probe_start 1) probe_run ?stop"
    by (meson reachable_step probe_set_up probe_release probe_signs probe_wakes probe_stops probe_joins probe_returns)
  from run_point_rate [OF this, of "f64_div (u64_as_f64 1) (as_secs_f64 10)"] show ?thesis by (simp add: probe_at_def)
qed

text \<open>A table with one row, from the run above.\<close>

theorem ceiling_table_measured_witness:
  "\<exists>c' rates. ceiling_table (\<lambda>label threads. run_point open_ck sample_lib 5 probe_config label threads 10) [1]
        (''demo-ec-p256'', ''ECDSA P-256'') \<lparr> co_world = blank_token, co_lines = [] \<rparr> (Ok ()) c'
    \<and> length rates = length [1 :: usize]
    \<and> co_lines c' = table_head ''demo-ec-p256'' ''ECDSA P-256'' @ [ceiling_row 1 (rates ! 0) (row_baseline rates 0), []]"
proof -
  let ?point = "\<lambda>label threads. run_point open_ck sample_lib 5 probe_config label threads 10"
  let ?c = "\<lparr> co_world = blank_token, co_lines = [] \<rparr>"
  let ?rate = "f64_div (u64_as_f64 1) (as_secs_f64 10)"
  let ?first = "probe_at Starting MainAtBarrier False"
  let ?final = "probe_at (Finished (Ok 1)) (Returned (Ok ?rate)) True"
  have "probe_run\<^sup>*\<^sup>* ?first ?final"
    using probe_set_up probe_release probe_signs probe_wakes probe_stops probe_joins probe_returns
    by (meson converse_rtranclp_into_rtranclp rtranclp.rtrancl_refl)
  moreover have "probe_start 1 ?first" "pr_token ?first = blank_token" "pr_main ?final = Returned (Ok ?rate)"
    "pr_token ?final = blank_token" by (simp_all add: probe_start_def probe_at_def)
  ultimately have "?point ''demo-ec-p256'' 1 blank_token (Ok ?rate) blank_token" unfolding run_point_def by blast
  then have "\<exists>c'. ceiling_rows (?point ''demo-ec-p256'') (Fin 0) [1] (?c\<lparr>co_lines := cs\<rparr>) (Ok ()) c'" for cs
    unfolding ceiling_rows.simps runs_bind_Ok Let_def runs_on_token_def runs_io_def println_def io_return_def
    by (intro exI conjI refl) simp_all
  then obtain c' where run: "ceiling_table ?point [1] (''demo-ec-p256'', ''ECDSA P-256'') ?c (Ok ()) c'"
    unfolding ceiling_table_def prod.case runs_bind_Ok runs_io_def println_def for_each_println prod.inject
    by (simp del: ceiling_rows.simps) blast
  from ceiling_table_measured [OF run] obtain rates where "length rates = length [1 :: usize]"
    "co_lines c' = table_head ''demo-ec-p256'' ''ECDSA P-256'' @ [ceiling_row 1 (rates ! 0) (row_baseline rates 0), []]"
    by auto
  with run show ?thesis by blast
qed

end
