(* ===== verification/Unit_Tests.thy ===== *)
theory Unit_Tests
  imports Policy Breaker
begin

text \<open>
  The unit tests the repository keeps in \<open>resilience/breaker.rs\<close> and \<open>authz/policy.rs\<close>, run on the
  model. A test is a function to \<^typ>\<open>bool\<close>, the conjunction of its assertions; the breaker's take the
  successive readings of the clock, the policy's the TOML reader. Where a test passes for some
  readings only, the lemma says for which.
\<close>

section \<open>Circuit breaker\<close>

text \<open>\<open>tm i\<close> is the \<open>i\<close>-th reading. The fixture is \<^const>\<open>test_config\<close>.\<close>

definition fixture :: "(nat \<Rightarrow> instant) \<Rightarrow> circuit_breaker" where
  "fixture tm = breaker_new test_config (tm 0)"

definition starts_closed_and_allows :: "(nat \<Rightarrow> instant) \<Rightarrow> bool" where
  "starts_closed_and_allows tm \<longleftrightarrow>
     (let b = fixture tm in breaker_state b = Closed \<and> fst (allow (tm 1) b))"

definition does_not_trip_below_minimum_requests :: "(nat \<Rightarrow> instant) \<Rightarrow> bool" where
  "does_not_trip_below_minimum_requests tm \<longleftrightarrow>
     breaker_state (record_failure (tm 1) (tm 2) (tm 3) (fixture tm)) = Closed"

definition two_and_two :: "(nat \<Rightarrow> instant) \<Rightarrow> circuit_breaker" where
  "two_and_two tm =
     (let b1 = record_success (tm 1) (tm 2) (fixture tm);
          b2 = record_success (tm 3) (tm 4) b1;
          b3 = record_failure (tm 5) (tm 6) (tm 7) b2
      in record_failure (tm 8) (tm 9) (tm 10) b3)"

definition trips_once_ratio_and_minimum_are_met :: "(nat \<Rightarrow> instant) \<Rightarrow> bool" where
  "trips_once_ratio_and_minimum_are_met tm \<longleftrightarrow>
     (let b = two_and_two tm in breaker_state b = Open \<and> \<not> fst (allow (tm 11) b))"

definition recovers_through_half_open :: "(nat \<Rightarrow> instant) \<Rightarrow> bool" where
  "recovers_through_half_open tm \<longleftrightarrow>
     (let b = two_and_two tm;
          (ok, b1) = allow (tm 11) b;
          b2 = record_success (tm 12) (tm 13) b1;
          b3 = record_success (tm 14) (tm 15) b2
      in breaker_state b = Open \<and> ok \<and> breaker_state b1 = HalfOpen \<and> breaker_state b3 = Closed)"

definition failed_probe_reopens :: "(nat \<Rightarrow> instant) \<Rightarrow> bool" where
  "failed_probe_reopens tm \<longleftrightarrow>
     (let (ok, b1) = allow (tm 11) (two_and_two tm);
          b2 = record_failure (tm 12) (tm 13) (tm 14) b1
      in ok \<and> breaker_state b1 = HalfOpen \<and> breaker_state b2 = Open)"

definition sustained_success_never_trips :: "(nat \<Rightarrow> instant) \<Rightarrow> bool" where
  "sustained_success_never_trips tm \<longleftrightarrow>
     breaker_state (record_successes (map (\<lambda>i. (tm (2 * i + 1), tm (2 * i + 2))) [0..<1000]) (fixture tm)) = Closed"

lemma fixture_closed [simp]: "breaker_state (fixture tm) = Closed"
  by (simp add: fixture_def breaker_new_def breaker_state_def)

text \<open>
  The first outcomes and the trip: the readings are in order, and the four outcomes are in the first
  window, which is a minute long.
\<close>

lemma two_and_two_open:
  assumes "mono tm" and "tm 8 < tm 0 + from_secs 60"
  shows "two_and_two tm =
    \<lparr> cb_config = test_config, cb_state = state_as_u8 Open,
      cb_window = \<lparr> w_started = tm 0, w_successes = 2, w_failures = 2, w_opened_at = Some (tm 10), w_probe_successes = 0 \<rparr>,
      cb_trips = 1, cb_rejected = 0 \<rparr>"
proof -
  have fresh: "elapsed (tm i) (tm 0) < from_secs 60" if "i \<le> 8" for i
  proof -
    have "tm i \<le> tm 8" "tm 0 \<le> tm i" using assms(1) that by (auto intro: monoD)
    then show ?thesis using assms(2) by (simp add: elapsed_def)
  qed
  let ?w = "\<lparr> w_started = tm 0, w_successes = 2, w_failures = 2, w_opened_at = None, w_probe_successes = 0 \<rparr>"
  have ratio: "f64_ge (window_ratio ?w) (Fin (1 / 2))"
    using window_ratio_exact [of ?w] f64_ratio_half [of 2 4] by simp
  show ?thesis
    using fresh [of 1] fresh [of 3] fresh [of 5] fresh [of 8] ratio
    by (simp add: two_and_two_def fixture_def breaker_new_def record_success_def record_failure_def breaker_state_def
        roll_if_stale_def test_config_def Let_def)
qed

lemma starts_closed_and_allows_passes: "starts_closed_and_allows tm"
  by (simp add: starts_closed_and_allows_def allow_def)

lemma below_minimum_passes: "does_not_trip_below_minimum_requests tm"
proof -
  have "Suc (window_total (cb_window (fixture tm))) < unat (bc_minimum_requests (cb_config (fixture tm)))"
    by (simp add: fixture_def breaker_new_def test_config_def window_total_def)
  from closed_failure_below_minimum [OF fixture_closed this] show ?thesis
    by (simp add: does_not_trip_below_minimum_requests_def)
qed

text \<open>This test passes exactly if its last line runs within the cooldown of 50 ms.\<close>

lemma trips_once_passes_iff:
  assumes "mono tm" and "tm 8 < tm 0 + from_secs 60"
  shows "trips_once_ratio_and_minimum_are_met tm \<longleftrightarrow> tm 11 < tm 10 + from_millis 50"
  using monoD [OF assms(1), of 10 11]
  by (auto simp: trips_once_ratio_and_minimum_are_met_def two_and_two_open [OF assms] allow_def allow_locked_def
      breaker_state_def elapsed_def test_config_def from_millis_def)

text \<open>The sleep of 60 ms in the next two is at least the cooldown.\<close>

lemma probed_breaker:
  assumes "mono tm" and "tm 8 < tm 0 + from_secs 60" and "tm 10 + from_millis 60 \<le> tm 11"
  shows "fst (allow (tm 11) (two_and_two tm))" and "breaker_state (snd (allow (tm 11) (two_and_two tm))) = HalfOpen"
    and "breaker_state (two_and_two tm) = Open" and "w_probe_successes (cb_window (snd (allow (tm 11) (two_and_two tm)))) = 0"
    and "cb_config (snd (allow (tm 11) (two_and_two tm))) = test_config"
  using assms(3) by (simp_all add: two_and_two_open [OF assms(1,2)] allow_def allow_locked_def breaker_state_def elapsed_def
      test_config_def from_millis_def)

lemma recovers_passes:
  assumes "mono tm" and "tm 8 < tm 0 + from_secs 60" and "tm 10 + from_millis 60 \<le> tm 11"
  shows "recovers_through_half_open tm"
proof -
  let ?b = "snd (allow (tm 11) (two_and_two tm))"
  note probed = probed_breaker [OF assms]
  have one: "breaker_state (record_success (tm 12) (tm 13) ?b) = HalfOpen"
    "w_probe_successes (cb_window (record_success (tm 12) (tm 13) ?b)) = 1"
    using success_half_open(2) [OF probed(2), of "tm 12" "tm 13"] probed(4,5) by (simp_all add: test_config_def)
  have "breaker_state (record_success (tm 14) (tm 15) (record_success (tm 12) (tm 13) ?b)) = Closed"
    using success_half_open(1) [OF one(1), of "tm 14" "tm 15"] one(2) probed(5) by (simp add: test_config_def)
  with probed show ?thesis by (simp add: recovers_through_half_open_def case_prod_beta Let_def)
qed

lemma failed_probe_passes:
  assumes "mono tm" and "tm 8 < tm 0 + from_secs 60" and "tm 10 + from_millis 60 \<le> tm 11"
  shows "failed_probe_reopens tm"
  using probed_breaker [OF assms] failure_half_open [OF probed_breaker(2) [OF assms], of "tm 12" "tm 13" "tm 14"]
  by (simp add: failed_probe_reopens_def case_prod_beta Let_def)

lemma successes_closed: "breaker_state b = Closed \<Longrightarrow> breaker_state (record_successes ts b) = Closed"
  by (induction ts b rule: record_successes.induct) (simp_all add: success_not_half_open_state)

lemma sustained_success_passes: "sustained_success_never_trips tm"
  by (simp add: sustained_success_never_trips_def successes_closed)

section \<open>Policy\<close>

definition quoted :: "string \<Rightarrow> string" where
  "quoted s = [CHR 0x22] @ s @ [CHR 0x22]"

definition SAMPLE :: string where
  "SAMPLE = concat (map (\<lambda>line. line @ [CHR 0x0A])
     [[],
      ''['' @ ''[workloads]'' @ '']'',
      ''identity = '' @ quoted ''spiffe://local/ns/default/sa/payments'',
      ''grants = ['',
      ''    { key_label = '' @ quoted ''demo-ec-p256'' @ '', operations = ['' @ quoted ''sign'' @ '', '' @ quoted ''verify'' @ ''] },'',
      '']'',
      [],
      ''['' @ ''[workloads]'' @ '']'',
      ''identity = '' @ quoted ''spiffe://local/ns/default/sa/batch'',
      ''grants = ['',
      ''    { key_label = '' @ quoted ''demo-ec-p256'' @ '', operations = ['' @ quoted ''sign'' @ ''] },'',
      '']''])"

definition misspelt :: string where
  "misspelt = concat (map (\<lambda>line. line @ [CHR 0x0A])
     [[],
      ''['' @ ''[workloads]'' @ '']'',
      ''identity = '' @ quoted ''x'',
      ''grants = [{ key_label = '' @ quoted ''k'' @ '', operations = ['' @ quoted ''singn'' @ ''] }]''])"

text \<open>A test of a decision: parsing succeeds, and the assertion holds of the policy.\<close>

definition parsed :: "(string \<Rightarrow> (policy_file, string) result) \<Rightarrow> string \<Rightarrow> (policy \<Rightarrow> bool) \<Rightarrow> bool" where
  "parsed from_toml toml assertion \<longleftrightarrow> (case policy_parse from_toml toml of Ok policy \<Rightarrow> assertion policy | Err _ \<Rightarrow> False)"

definition grants_what_is_listed :: "(string \<Rightarrow> (policy_file, string) result) \<Rightarrow> bool" where
  "grants_what_is_listed from_toml \<longleftrightarrow> parsed from_toml SAMPLE
     (\<lambda>policy. is_allowed policy ''spiffe://local/ns/default/sa/payments'' ''demo-ec-p256'' Sign)"

definition denies_operation_not_granted :: "(string \<Rightarrow> (policy_file, string) result) \<Rightarrow> bool" where
  "denies_operation_not_granted from_toml \<longleftrightarrow> parsed from_toml SAMPLE
     (\<lambda>policy. \<not> is_allowed policy ''spiffe://local/ns/default/sa/batch'' ''demo-ec-p256'' Verify)"

definition denies_key_not_granted :: "(string \<Rightarrow> (policy_file, string) result) \<Rightarrow> bool" where
  "denies_key_not_granted from_toml \<longleftrightarrow> parsed from_toml SAMPLE
     (\<lambda>policy. \<not> is_allowed policy ''spiffe://local/ns/default/sa/batch'' ''demo-rsa-2048'' Sign)"

definition denies_unknown_identity :: "(string \<Rightarrow> (policy_file, string) result) \<Rightarrow> bool" where
  "denies_unknown_identity from_toml \<longleftrightarrow> parsed from_toml SAMPLE
     (\<lambda>policy. \<not> is_allowed policy ''spiffe://local/ns/default/sa/nobody'' ''demo-ec-p256'' Sign)"

definition empty_policy_denies_everything :: "(string \<Rightarrow> (policy_file, string) result) \<Rightarrow> bool" where
  "empty_policy_denies_everything from_toml \<longleftrightarrow> parsed from_toml []
     (\<lambda>policy. \<not> is_allowed policy ''anyone'' ''any-key'' Sign)"

definition unknown_operation_is_rejected :: "(string \<Rightarrow> (policy_file, string) result) \<Rightarrow> bool" where
  "unknown_operation_is_rejected from_toml \<longleftrightarrow> \<not> is_ok (policy_parse from_toml misspelt)"

text \<open>What the TOML reader makes of the three texts.\<close>

definition reads_test_files :: "(string \<Rightarrow> (policy_file, string) result) \<Rightarrow> bool" where
  "reads_test_files from_toml \<longleftrightarrow>
     from_toml SAMPLE = Ok \<lparr> pf_workloads =
       [ \<lparr> we_identity = ''spiffe://local/ns/default/sa/payments'', we_description = None,
           we_grants = [ \<lparr> ge_key_label = ''demo-ec-p256'', ge_operations = [Sign, Verify] \<rparr> ] \<rparr>,
         \<lparr> we_identity = ''spiffe://local/ns/default/sa/batch'', we_description = None,
           we_grants = [ \<lparr> ge_key_label = ''demo-ec-p256'', ge_operations = [Sign] \<rparr> ] \<rparr> ] \<rparr>
     \<and> from_toml [] = Ok \<lparr> pf_workloads = [] \<rparr>
     \<and> \<not> is_ok (from_toml misspelt)"

lemma policy_tests_pass:
  assumes "reads_test_files from_toml"
  shows "grants_what_is_listed from_toml" "denies_operation_not_granted from_toml" "denies_key_not_granted from_toml"
    "denies_unknown_identity from_toml" "empty_policy_denies_everything from_toml" "unknown_operation_is_rejected from_toml"
  using assms
  by (cases "from_toml misspelt"; simp add: reads_test_files_def grants_what_is_listed_def denies_operation_not_granted_def denies_key_not_granted_def
      denies_unknown_identity_def empty_policy_denies_everything_def unknown_operation_is_rejected_def parsed_def
      policy_parse_def is_allowed_compile)+

text \<open>
  Both kinds of test can be passed: a clock that ticks once a millisecond and jumps over the sleep, and
  a reader that knows the three texts.
\<close>

lemma test_files_readable: "\<exists>from_toml. reads_test_files from_toml"
proof
  let ?listed = "\<lparr> pf_workloads =
       [ \<lparr> we_identity = ''spiffe://local/ns/default/sa/payments'', we_description = None,
           we_grants = [ \<lparr> ge_key_label = ''demo-ec-p256'', ge_operations = [Sign, Verify] \<rparr> ] \<rparr>,
         \<lparr> we_identity = ''spiffe://local/ns/default/sa/batch'', we_description = None,
           we_grants = [ \<lparr> ge_key_label = ''demo-ec-p256'', ge_operations = [Sign] \<rparr> ] \<rparr> ] \<rparr>"
  show "reads_test_files (\<lambda>t. if t = SAMPLE then Ok ?listed else if t = [] then Ok \<lparr> pf_workloads = [] \<rparr> else Err ''unknown variant'')"
    by (simp add: reads_test_files_def SAMPLE_def misspelt_def quoted_def)
qed

lemma tests_runnable:
  "trips_once_ratio_and_minimum_are_met (\<lambda>i. i * 1000000)"
  "recovers_through_half_open (\<lambda>i. if i < 11 then i * 1000000 else 80000000 + i)"
  by (subst trips_once_passes_iff) (auto simp: mono_def from_secs_def from_millis_def intro!: recovers_passes)

end
