(* ===== verification/Spec2Isabelle.thy ===== *)
theory Spec2Isabelle
  imports Pool Backends Telemetry Token_Check Server Ceiling Unit_Tests
begin

text \<open>
  Verification of \<open>gRPC-low-latency\<close>, a gRPC proxy in front of a PKCS#11 token. Callers with client
  certificates ask the proxy to sign, verify, encrypt, decrypt or hand out a public key; the proxy
  identifies them, checks a policy, a rate limit and a circuit breaker, and passes the work to
  a pool of threads that each own a session of the token.

  \<^bold>\<open>Modelling.\<close> Machine integers are words and wrap, as in a release build. \<open>Instant\<close> and
  \<open>Duration\<close> are nanoseconds in \<^typ>\<open>nat\<close>, and each reading of the clock is an argument. \<open>f64\<close> is the
  exact IEEE double arithmetic on rationals that the code needs. A Rust \<open>Result\<close> is the datatype
  \<open>result\<close>; code that changes a world and may return early is in the type \<open>io\<close>, in which an error
  keeps what was done before. Threads, tasks and atomics are inductive step relations whose steps are
  the atomic sections of the code; what holds in all their reachable states is proved through the
  locale \<open>inductive_invariant\<close>. A program with a part that may hang is a relation (\<open>runs\<close>), so that
  not returning is having no result. Code outside the repository is a parameter: a record of the calls the
  sources make, with a predicate for what its documentation promises wherever a theorem needs it
  (\<open>moka_laws\<close>, \<open>flume_laws\<close>, \<open>bucket_map_laws\<close>, \<open>lib_laws\<close>, \<open>key_store\<close>, \<open>login_laws\<close>,
  \<open>signing_laws\<close>, \<open>aead_laws\<close>, \<open>quiet_session\<close>, \<open>searches_fail\<close>, \<open>token_verifies\<close>, \<open>library_verifies\<close>,
  \<open>pool_only\<close>). Each such predicate has an instance, in the theory that uses it or in \<open>Sample_Token\<close>, on which
  the witnesses evaluate. The laws of a token are stated for the states in which a session is usable (\<open>ready\<close>), not for
  all states; those of verification say what PKCS#11 and RFC 8017 mean by a mechanism (\<open>signs_digest\<close>).

  \<^bold>\<open>Theories.\<close>
  \<^item> \<open>Hsm_Prelude\<close>: integers, results, \<open>io\<close>, environment, number parsing, errors with context, hash
    maps, and the locales \<open>inductive_invariant\<close> and \<open>memo_table\<close>. \<open>F64\<close>: rounding, arithmetic,
    comparison and parsing of doubles. \<open>Display\<close>: the formatting of numbers and durations; what is
    printed reads back to within half a unit of its last digit.
  \<^item> \<open>Policy\<close>, \<open>Identity\<close>, \<open>Authorizer\<close> (\<open>authz/\<close>): the policy is an association list compiled from the
    file, its contract the locale \<open>permission_store\<close>; identity lookups and decisions are instances of
    \<open>memo_table\<close>. Shown: exact default deny, soundness and completeness of authorization
    for every history, transparency of the identity memo under every interleaving.
  \<^item> \<open>Breaker\<close>, \<open>Rate_Limit\<close> (\<open>resilience/\<close>): configuration, all operations, and the breaker's load outside
    its lock as a separate step. Shown: when the circuit opens and closes, that it is never stuck open
    under interleaved callers, that identities do not take each other's share.
  \<^item> \<open>Cryptoki\<close>, \<open>Sample_Token\<close>, \<open>Token_Session\<close> (\<open>pkcs11/session.rs\<close>): the PKCS#11 calls, a software token,
    opening and searching a token with what is dropped on each error path.
  \<^item> \<open>Crypto\<close> (\<open>crypto.rs\<close>): preparing payloads, public keys as SPKI, verification in process. Shown:
    the mechanism and payload prepared for the token are a signature of the requested scheme over the digest of the
    caller's input, and the DER unwrapping inverts the encoding.
  \<^item> \<open>Jobs\<close>, \<open>Worker\<close>, \<open>Pool\<close> (\<open>pkcs11/\<close>): jobs, errors and counters; a worker with its handle cache and
    session reset; the pool as a step relation over queue, threads and callers. Shown: every caller gets
    the result of its own job, the submissions are exactly the waiting, held, executed and refused jobs, the queue
    is bounded, closing drains, start-up works with a shared login, a cached handle was found in the session that is
    still in use, a worker recovers when a session can be reopened, and what happens when it cannot.
  \<^item> \<open>Key_Cache\<close> (\<open>cache/mod.rs\<close>): lookups by concurrent callers as steps. Shown: bounded staleness,
    \<open>get_or_load\<close> refines the step relation, the hit ratio is in the unit interval.
  \<^item> \<open>Wire\<close>, \<open>Single_Service\<close>, \<open>Pooled_Service\<close>, \<open>Backends\<close> (\<open>hsm.proto\<close>, \<open>grpc/\<close>): the messages and the
    five calls of both backends. The locale \<open>guarded_handler\<close> carries what follows from admission
    coming first; \<open>serve_stages\<close> divides every handler into admission and preparation, the wait, and the rest.
    Shown: nothing is served that the policy does not allow, refusals are free of effect, callers cannot open the
    circuit as long as the token does not fail on their jobs, what the metrics count, and the round trips. \<open>Backends\<close>
    compares the two services call by call: same replies, status codes and effects on the token, verdicts
    that are those of the standard, and the differences in their error reports.
  \<^item> \<open>Interleaving\<close> (\<open>grpc/pooled.rs\<close>): concurrent calls on the shared service as a step relation. A call
    passes the breaker, the authorizer and the rate limiter, prepares its job, waits for the pool, or probes the key
    cache, looks a key up and loads it or shares the load of another call, reports the outcome and is recorded, each a
    step of its own, and may be dropped while it waits. Shown: a call that runs alone is the handler of
    \<open>Pooled_Service\<close>; however calls interleave, only allowed ones pass admission, the counters of the parts
    agree with the calls, and initialisation vectors are drawn afresh for every encryption.
  \<^item> \<open>Recorder\<close>, \<open>Telemetry\<close> (\<open>telemetry/metrics.rs\<close>): names, events, buckets, descriptions, the
    metrics endpoint, the sampler. Shown: exported counters equal the internal totals, every event is of a described metric and
    of its kind.
  \<^item> \<open>Provision\<close>, \<open>Token_Check\<close>, \<open>Spike\<close>, \<open>Ceiling\<close> (\<open>pkcs11/provision.rs\<close>, \<open>bin/\<close>): the command line
    programs, on a console that collects what they print. Shown: keys are created protected and once,
    a passing check and a successful spike are evidence, a measurement returns when all its threads
    set up and hangs when one does not, a printed table of rates is what the threads counted.
  \<^item> \<open>Server\<close> (\<open>main.rs\<close>): configuration, TLS and policy loading, assembly, the
    reports at the end, shutdown. Shown: from start-up on the policy file decides what is served in pool
    mode, under every interleaving; the numbers reported at the end add up; plaintext only on request; the
    pool is drained at shutdown exactly if \<open>main\<close> holds the last reference to it.
  \<^item> \<open>Unit_Tests\<close>: the repository's own tests of the breaker and the policy, run on the model. Shown: they
    pass, with the readings of the clock for which they do.

  \<^bold>\<open>Bounds.\<close> No definition uses fuel. Recursions that are not structural have termination proofs
  (\<open>trim_left\<close>, \<open>split_whitespace\<close>). \<open>Pool.pool_drains\<close> and \<open>Ceiling.run_point_returns\<close> state
  termination of the thread systems as the existence of a finishing run from every reachable state.

  \<^bold>\<open>Not modelled.\<close> Generated protobuf code, the HTTP/2, TLS and Prometheus libraries and the signal
  handler, which are outside the repository or only call the operating system; log lines
  other than those at the end of the program and of the metrics endpoint, and the set-up of the logger; the unit
  tests of the rate limiter and of the identity parser, which exercise third-party crates and files on
  disk; what happens inside the wait for the pool, which \<open>Interleaving\<close> takes
  as one step with any answer and \<open>Pool\<close> models on its own; in \<open>Pool\<close>, panics of library code in a worker, the
  interleaving of module calls of different workers within one job, and a queue of depth 0 (a rendezvous channel); module declarations, the build script, shell scripts, container files and
  the clients.
\<close>

end
